theory Spec2Isabelle
  imports Complex_Main
begin

section \<open>Python values used by the two stages\<close>

text \<open>
  The two modules \<^verbatim>\<open>skeinforge_tools/hop.py\<close> and \<^verbatim>\<open>skeinforge_tools/export.py\<close> are
  Python 2 programs over byte strings and floats. Strings are \<^typ>\<open>string\<close>; Python floats
  are idealised as \<^typ>\<open>real\<close> (no rounding error, no infinities, no NaN); every raise of
  the source is a value \<open>Inl e\<close> of the result type.
\<close>

datatype error = ValueError | IndexError | ZeroDivisionError | AttributeError

definition err_bind :: "error + 'a \<Rightarrow> ('a \<Rightarrow> error + 'b) \<Rightarrow> error + 'b" where
  "err_bind m f = (case m of Inl e \<Rightarrow> Inl e | Inr v \<Rightarrow> f v)"

definition newline :: string where
  "newline = [CHR 0x0A]"

text \<open>\<^verbatim>\<open>s.split(c)\<close> for a one-character separator: never empty, \<^verbatim>\<open>''.split(' ') == ['']\<close>.\<close>

fun split_on :: "char \<Rightarrow> string \<Rightarrow> string list" where
  "split_on c [] = [[]]"
| "split_on c (a # as) =
     (if a = c then [] # split_on c as
      else (case split_on c as of [] \<Rightarrow> [[a]] | w # ws \<Rightarrow> (a # w) # ws))"

text \<open>The whitespace of \<^verbatim>\<open>str.split()\<close> and \<^verbatim>\<open>str.strip()\<close> on a Python 2 byte string.\<close>

definition is_space :: "char \<Rightarrow> bool" where
  "is_space c = (c = CHR '' '' \<or> c = CHR 0x09 \<or> c = CHR 0x0A \<or> c = CHR 0x0B
     \<or> c = CHR 0x0C \<or> c = CHR 0x0D)"

text \<open>\<^verbatim>\<open>s.split()\<close>: the maximal runs of non-whitespace, \<^verbatim>\<open>'  '.split() == []\<close>.
  The first argument is the word being read.\<close>

fun split_ws_acc :: "string \<Rightarrow> string \<Rightarrow> string list" where
  "split_ws_acc cur [] = (if cur = [] then [] else [cur])"
| "split_ws_acc cur (a # as) =
     (if is_space a then (if cur = [] then split_ws_acc [] as else cur # split_ws_acc [] as)
      else split_ws_acc (cur @ [a]) as)"

definition split_ws :: "string \<Rightarrow> string list" where
  "split_ws s = split_ws_acc [] s"

text \<open>\<^verbatim>\<open>s.find(c, start)\<close> for a one-character \<open>c\<close> and \<open>start \<ge> 0\<close>: the lowest index
  at or after \<open>start\<close>, or \<open>-1\<close>.\<close>

fun index_of :: "char \<Rightarrow> string \<Rightarrow> nat option" where
  "index_of c [] = None"
| "index_of c (a # as) = (if a = c then Some 0 else map_option Suc (index_of c as))"

definition py_find :: "char \<Rightarrow> string \<Rightarrow> nat \<Rightarrow> int" where
  "py_find c s start =
     (case index_of c (drop start s) of None \<Rightarrow> - 1 | Some i \<Rightarrow> int (start + i))"

text \<open>\<^verbatim>\<open>s[a:b]\<close> for \<open>0 \<le> a\<close> and \<open>0 \<le> b\<close>; empty when \<open>b \<le> a\<close>.\<close>

definition slice :: "string \<Rightarrow> nat \<Rightarrow> nat \<Rightarrow> string" where
  "slice s a b = take (b - a) (drop a s)"

text \<open>\<^verbatim>\<open>int(s)\<close> on a byte string, base 10: surrounding whitespace is stripped, one optional
  sign, then at least one decimal digit and nothing else; anything else raises ValueError.\<close>

definition is_digit :: "char \<Rightarrow> bool" where
  "is_digit c = (48 \<le> (of_char c :: nat) \<and> (of_char c :: nat) \<le> 57)"

definition digit_val :: "char \<Rightarrow> nat" where
  "digit_val c = of_char c - 48"

definition digits_val :: "string \<Rightarrow> nat" where
  "digits_val ds = foldl (\<lambda>n c. 10 * n + digit_val c) 0 ds"

definition strip :: "string \<Rightarrow> string" where
  "strip s = rev (dropWhile is_space (rev (dropWhile is_space s)))"

definition py_int :: "string \<Rightarrow> error + int" where
  "py_int s =
     (let t = strip s;
          neg = (case t of [] \<Rightarrow> False | c # _ \<Rightarrow> c = CHR ''-'');
          ds = (case t of [] \<Rightarrow> [] | c # r \<Rightarrow> if c = CHR ''-'' \<or> c = CHR ''+'' then r else t)
      in if ds = [] \<or> \<not> list_all is_digit ds then Inl ValueError
         else Inr (if neg then - int (digits_val ds) else int (digits_val ds)))"

section \<open>The utility modules\<close>

text \<open>
  Both stages import \<^verbatim>\<open>skeinforge_utilities.gcodec\<close>, \<^verbatim>\<open>skeinforge_utilities.euclidean\<close>
  and \<^verbatim>\<open>skeinforge_utilities.preferences\<close>. Their \<^verbatim>\<open>Vec3\<close> is the location type of the
  hop stage.
\<close>

text \<open>Modelled from the spec: \<^verbatim>\<open>euclidean.Vec3\<close>, whose source is not part of the two
  modules. The spec's Location is a real-valued point \<open>(x, y, z)\<close> with Euclidean distance
  and the linear blend \<open>a*(1-t) + b*t\<close>, which hop.py writes with \<^verbatim>\<open>times\<close> and
  \<^verbatim>\<open>plus\<close>. The fields are \<open>vx\<close>, \<open>vy\<close>, \<open>vz\<close> for Python's \<open>x\<close>, \<open>y\<close>, \<open>z\<close>.\<close>

record Vec3 =
  vx :: real
  vy :: real
  vz :: real

definition Vec3_times :: "Vec3 \<Rightarrow> real \<Rightarrow> Vec3" where
  "Vec3_times v t = \<lparr>vx = vx v * t, vy = vy v * t, vz = vz v * t\<rparr>"

definition Vec3_plus :: "Vec3 \<Rightarrow> Vec3 \<Rightarrow> Vec3" where
  "Vec3_plus a b = \<lparr>vx = vx a + vx b, vy = vy a + vy b, vz = vz a + vz b\<rparr>"

definition Vec3_distance :: "Vec3 \<Rightarrow> Vec3 \<Rightarrow> real" where
  "Vec3_distance a b = sqrt ((vx a - vx b)\<^sup>2 + (vy a - vy b)\<^sup>2 + (vz a - vz b)\<^sup>2)"

record HopPreferences =
  activateHop :: bool
  hopOverExtrusionHeight :: real
  minimumHopAngle :: real

record ExportPreferences =
  activateExport :: bool
  deleteComments :: bool

text \<open>
  The functions of the utility modules that the two stages call, and the float functions
  of the Python runtime, are parameters of the model: every definition below takes them
  in a record and every theorem about a stage holds for all of them. A function that can
  raise returns a sum.

  \<^item> \<open>isProcedureDone\<close>, \<open>getTextLines\<close>, \<open>getLocationFromSplitLine\<close>,
    \<open>indexOfStartingWithSecond\<close>: \<^verbatim>\<open>gcodec\<close>;
  \<^item> \<open>getRoundedToDecimalPlaces\<close>: \<^verbatim>\<open>'%s' % euclidean.getRoundedToDecimalPlaces(n, x)\<close>,
    the text that hop.py puts into a movement line;
  \<^item> \<open>getRoundedToDecimalPlacesString\<close>: \<^verbatim>\<open>euclidean.getRoundedToDecimalPlacesString(n, x)\<close>;
  \<^item> \<open>readHopPreferences\<close>, \<open>readExportPreferences\<close>: \<^verbatim>\<open>preferences.readPreferences\<close>
    applied to the default preferences;
  \<^item> \<open>pyFloat\<close>: Python's \<^verbatim>\<open>float(s)\<close> on a string;
  \<^item> \<open>tanRadians\<close>: \<^verbatim>\<open>math.tan( math.radians( a ) )\<close>, which on floats is 0 for
    \<open>a = 0\<close> and a large number, not an error, for \<open>a = 90\<close>.
\<close>

record utilities =
  isProcedureDone :: "string \<Rightarrow> string \<Rightarrow> error + bool"
  getTextLines :: "string \<Rightarrow> string list"
  getLocationFromSplitLine :: "Vec3 option \<Rightarrow> string list \<Rightarrow> error + Vec3"
  indexOfStartingWithSecond :: "string \<Rightarrow> string list \<Rightarrow> error + int"
  getRoundedToDecimalPlaces :: "int \<Rightarrow> real \<Rightarrow> string"
  getRoundedToDecimalPlacesString :: "int \<Rightarrow> real \<Rightarrow> string"
  readHopPreferences :: "HopPreferences \<Rightarrow> HopPreferences"
  readExportPreferences :: "ExportPreferences \<Rightarrow> ExportPreferences"
  pyFloat :: "string \<Rightarrow> error + real"
  tanRadians :: "real \<Rightarrow> real"

section \<open>export.py\<close>

record ExportSkein =
  decimalPlacesExported :: int
  export_output :: string

definition ExportSkein_init :: ExportSkein where
  "ExportSkein_init = \<lparr>decimalPlacesExported = 2, export_output = []\<rparr>"

definition ExportPreferences_init :: ExportPreferences where
  "ExportPreferences_init = \<lparr>activateExport = True, deleteComments = True\<rparr>"

definition ExportSkein_addLine :: "ExportSkein \<Rightarrow> string \<Rightarrow> ExportSkein" where
  "ExportSkein_addLine s line =
     (if line \<noteq> [] then s\<lparr>export_output := export_output s @ line @ newline\<rparr> else s)"

definition getLineWithTruncatedNumber ::
  "utilities \<Rightarrow> ExportSkein \<Rightarrow> char \<Rightarrow> string \<Rightarrow> error + string" where
  "getLineWithTruncatedNumber u s character line =
     (let indexOfCharacter = py_find character line 0 in
      if indexOfCharacter < 0 then Inr line
      else
        let found = py_find CHR '' '' line (nat indexOfCharacter);
            indexOfNumberEnd = (if found < 0 then int (length line) else found);
            indexOfNumberStart = indexOfCharacter + 1;
            numberString = slice line (nat indexOfNumberStart) (nat indexOfNumberEnd)
        in if numberString = [] then Inr line
           else err_bind (pyFloat u numberString) (\<lambda>number.
             Inr (take (nat indexOfNumberStart) line
                  @ getRoundedToDecimalPlacesString u (decimalPlacesExported s) number
                  @ drop (nat indexOfNumberEnd) line)))"

definition ExportSkein_parseLine ::
  "utilities \<Rightarrow> ExportPreferences \<Rightarrow> ExportSkein \<Rightarrow> string \<Rightarrow> error + ExportSkein" where
  "ExportSkein_parseLine u exportPreferences s line =
     (case split_ws line of
        [] \<Rightarrow> Inr s
      | firstWord # rest \<Rightarrow>
          err_bind
            (if firstWord = ''(<decimalPlacesCarried>''
             then (case rest of
                     [] \<Rightarrow> Inl IndexError
                   | w # _ \<Rightarrow> err_bind (py_int w) (\<lambda>n.
                       Inr (s\<lparr>decimalPlacesExported := max 1 (n - 1)\<rparr>)))
             else Inr s)
            (\<lambda>s1.
               case firstWord of
                 [] \<Rightarrow> Inl IndexError
               | c # _ \<Rightarrow>
                   if c = CHR ''('' \<and> deleteComments exportPreferences then Inr s1
                   else
                     let s2 = (if firstWord = ''(</extruderInitialization>)''
                               then ExportSkein_addLine s1
                                      ''(<procedureDone> export </procedureDone>)''
                               else s1)
                     in if firstWord \<noteq> ''G1'' \<and> firstWord \<noteq> ''G2'' \<and> firstWord \<noteq> ''G3''
                        then Inr (ExportSkein_addLine s2 line)
                        else
                          err_bind (getLineWithTruncatedNumber u s2 CHR ''X'' line) (\<lambda>l1.
                          err_bind (getLineWithTruncatedNumber u s2 CHR ''Y'' l1) (\<lambda>l2.
                          err_bind (getLineWithTruncatedNumber u s2 CHR ''Z'' l2) (\<lambda>l3.
                          err_bind (getLineWithTruncatedNumber u s2 CHR ''I'' l3) (\<lambda>l4.
                          err_bind (getLineWithTruncatedNumber u s2 CHR ''J'' l4) (\<lambda>l5.
                          err_bind (getLineWithTruncatedNumber u s2 CHR ''R'' l5) (\<lambda>l6.
                          Inr (ExportSkein_addLine s2 l6)))))))))"

fun ExportSkein_parseLines ::
  "utilities \<Rightarrow> ExportPreferences \<Rightarrow> string list \<Rightarrow> ExportSkein \<Rightarrow> error + ExportSkein" where
  "ExportSkein_parseLines u exportPreferences [] s = Inr s"
| "ExportSkein_parseLines u exportPreferences (line # rest) s =
     err_bind (ExportSkein_parseLine u exportPreferences s line)
       (ExportSkein_parseLines u exportPreferences rest)"

definition ExportSkein_parseGcode ::
  "utilities \<Rightarrow> ExportPreferences \<Rightarrow> string \<Rightarrow> ExportSkein \<Rightarrow> error + ExportSkein" where
  "ExportSkein_parseGcode u exportPreferences gcodeText s =
     ExportSkein_parseLines u exportPreferences (getTextLines u gcodeText) s"

definition getGcode :: "utilities \<Rightarrow> string \<Rightarrow> ExportPreferences option \<Rightarrow> error + string" where
  "getGcode u gcodeText exportPreferences =
     (if gcodeText = [] then Inr []
      else err_bind (isProcedureDone u gcodeText ''export'') (\<lambda>done.
        if done then Inr gcodeText
        else
          let prefs = (case exportPreferences of
                         None \<Rightarrow> readExportPreferences u ExportPreferences_init
                       | Some p \<Rightarrow> p)
          in if \<not> activateExport prefs then Inr gcodeText
             else err_bind (ExportSkein_parseGcode u prefs gcodeText ExportSkein_init)
                    (\<lambda>skein. Inr (export_output skein))))"

section \<open>hop.py\<close>

record HopSkein =
  bridgeExtrusionWidthOverSolid :: real
  decimalPlacesCarried :: int
  extruderActive :: bool
  feedrateString :: string
  hopHeight :: real
  layerHopDistance :: real
  layerHopHeight :: real
  justDeactivated :: bool
  lineIndex :: nat
  lines :: "string list"
  minimumSlope :: real
  oldLocation :: "Vec3 option"
  hop_output :: string

text \<open>\<^verbatim>\<open>HopSkein.__init__\<close>. Python leaves \<^verbatim>\<open>lines\<close> at None and \<^verbatim>\<open>minimumSlope\<close> unset
  until \<^verbatim>\<open>parseGcode\<close> assigns both, before any use.\<close>

definition HopSkein_init :: HopSkein where
  "HopSkein_init =
     \<lparr>bridgeExtrusionWidthOverSolid = 1, decimalPlacesCarried = 3, extruderActive = False,
      feedrateString = [], hopHeight = 0.4, layerHopDistance = 0.4, layerHopHeight = 0.4,
      justDeactivated = False, lineIndex = 0, lines = [], minimumSlope = 0,
      oldLocation = None, hop_output = []\<rparr>"

definition HopPreferences_init :: HopPreferences where
  "HopPreferences_init =
     \<lparr>activateHop = True, hopOverExtrusionHeight = 1, minimumHopAngle = 20\<rparr>"

definition HopSkein_addLine :: "HopSkein \<Rightarrow> string \<Rightarrow> HopSkein" where
  "HopSkein_addLine s line = s\<lparr>hop_output := hop_output s @ line @ newline\<rparr>"

text \<open>The first word of \<^verbatim>\<open>line.split(' ')\<close>, the empty string for an empty split.\<close>

definition firstWordOf :: "string \<Rightarrow> string" where
  "firstWordOf line = (case split_on CHR '' '' line of [] \<Rightarrow> [] | w # _ \<Rightarrow> w)"

definition getRounded :: "utilities \<Rightarrow> HopSkein \<Rightarrow> real \<Rightarrow> string" where
  "getRounded u s number = getRoundedToDecimalPlaces u (decimalPlacesCarried s) number"

definition getMovementLineWithHop :: "utilities \<Rightarrow> HopSkein \<Rightarrow> Vec3 \<Rightarrow> string" where
  "getMovementLineWithHop u s location =
     (let movementLine = ''G1 X'' @ getRounded u s (vx location)
            @ '' Y'' @ getRounded u s (vy location)
            @ '' Z'' @ getRounded u s (vz location + layerHopHeight s)
      in if feedrateString s \<noteq> [] then movementLine @ '' '' @ feedrateString s
         else movementLine)"

text \<open>\<^verbatim>\<open>isNextTravel\<close>: the scan of \<^verbatim>\<open>lines[lineIndex + 1 :]\<close>.\<close>

fun isNextTravelFrom :: "string list \<Rightarrow> bool" where
  "isNextTravelFrom [] = False"
| "isNextTravelFrom (line # rest) =
     (if firstWordOf line = ''G1'' then True
      else if firstWordOf line = ''M101'' then False
      else isNextTravelFrom rest)"

definition isNextTravel :: "HopSkein \<Rightarrow> bool" where
  "isNextTravel s = isNextTravelFrom (drop (lineIndex s + 1) (lines s))"

text \<open>\<^verbatim>\<open>getHopLine\<close> returns the line and writes to the skein. With \<^verbatim>\<open>oldLocation\<close> None
  the ramp branch ends in a raise, at the latest at \<^verbatim>\<open>self.oldLocation.times\<close>.\<close>

definition getHopLine :: "utilities \<Rightarrow> HopSkein \<Rightarrow> string \<Rightarrow> error + (string \<times> HopSkein)" where
  "getHopLine u s line =
     (let splitLine = split_on CHR '' '' line in
      err_bind (indexOfStartingWithSecond u ''F'' splitLine) (\<lambda>indexOfF.
      err_bind
        (if indexOfF > 0
         then (if nat indexOfF < length splitLine
               then Inr (s\<lparr>feedrateString := splitLine ! nat indexOfF\<rparr>)
               else Inl IndexError)
         else Inr s) (\<lambda>s1.
      if extruderActive s1 then Inr (line, s1)
      else
        err_bind (getLocationFromSplitLine u (oldLocation s1) splitLine) (\<lambda>location.
        if isNextTravel s1 then Inr (getMovementLineWithHop u s1 location, s1)
        else if justDeactivated s1
        then (case oldLocation s1 of
                None \<Rightarrow> Inl AttributeError
              | Some old \<Rightarrow>
                  let distance = Vec3_distance location old in
                  if distance = 0 then Inl ZeroDivisionError
                  else
                    let alongRatio = min 0.41666666 (layerHopDistance s1 / distance);
                        oneMinusAlong = 1 - alongRatio;
                        closeLocation = Vec3_plus (Vec3_times old oneMinusAlong)
                                          (Vec3_times location alongRatio);
                        s2 = HopSkein_addLine s1 (getMovementLineWithHop u s1 closeLocation);
                        farLocation = Vec3_plus (Vec3_times old alongRatio)
                                        (Vec3_times location oneMinusAlong);
                        s3 = HopSkein_addLine s2 (getMovementLineWithHop u s2 farLocation)
                    in Inr (line, s3))
        else Inr (line, s1)))))"

definition HopSkein_parseLine :: "utilities \<Rightarrow> HopSkein \<Rightarrow> string \<Rightarrow> error + HopSkein" where
  "HopSkein_parseLine u s line =
     (let splitLine = split_on CHR '' '' line in
      if length splitLine < 1 \<or> length line < 1 then Inr s
      else
        let firstWord = firstWordOf line in
        err_bind
          (if firstWord = ''G1''
           then err_bind (getHopLine u s line) (\<lambda>(hopLine, s1).
                err_bind (getLocationFromSplitLine u (oldLocation s1) splitLine) (\<lambda>location.
                Inr (hopLine, s1\<lparr>oldLocation := Some location, justDeactivated := False\<rparr>)))
           else Inr (line, s)) (\<lambda>(line1, s2).
        let s3 = (if firstWord = ''M101'' then s2\<lparr>extruderActive := True\<rparr> else s2) in
        err_bind
          (if firstWord = ''M103''
           then Inr (s3\<lparr>extruderActive := False, justDeactivated := True\<rparr>)
           else if firstWord = ''(<layerStart>''
           then (if minimumSlope s3 = 0 then Inl ZeroDivisionError
                 else Inr (s3\<lparr>layerHopHeight := hopHeight s3,
                              layerHopDistance := hopHeight s3 / minimumSlope s3\<rparr>))
           else if firstWord = ''(<bridgeLayer>''
           then (if minimumSlope s3 = 0 then Inl ZeroDivisionError
                 else Inr (s3\<lparr>layerHopHeight := hopHeight s3 * bridgeExtrusionWidthOverSolid s3,
                              layerHopDistance :=
                                hopHeight s3 * bridgeExtrusionWidthOverSolid s3 / minimumSlope s3\<rparr>))
           else Inr s3) (\<lambda>s4.
        Inr (HopSkein_addLine s4 line1))))"

text \<open>\<^verbatim>\<open>splitLine[1]\<close>.\<close>

definition secondWord :: "string list \<Rightarrow> error + string" where
  "secondWord splitLine = (case splitLine of _ # w # _ \<Rightarrow> Inr w | _ \<Rightarrow> Inl IndexError)"

text \<open>The body of the loop of \<^verbatim>\<open>parseInitialization\<close> on one line: \<open>Inr (True, s')\<close> is the
  \<^verbatim>\<open>return\<close> at \<^verbatim>\<open>(<extrusionStart>\<close>, \<open>Inr (False, s')\<close> goes on to the next line.\<close>

definition parseInitializationLine ::
  "utilities \<Rightarrow> HopPreferences \<Rightarrow> HopSkein \<Rightarrow> string \<Rightarrow> error + (bool \<times> HopSkein)" where
  "parseInitializationLine u hopPreferences s line =
     (let splitLine = split_on CHR '' '' line;
          firstWord = firstWordOf line
      in if firstWord = ''(<extrusionHeight>''
         then err_bind (secondWord splitLine) (\<lambda>w. err_bind (pyFloat u w) (\<lambda>extrusionHeight.
                Inr (False, HopSkein_addLine
                  (s\<lparr>hopHeight := hopOverExtrusionHeight hopPreferences * extrusionHeight\<rparr>) line)))
         else if firstWord = ''(<bridgeExtrusionWidthOverSolid>''
         then err_bind (secondWord splitLine) (\<lambda>w. err_bind (pyFloat u w) (\<lambda>v.
                Inr (False, HopSkein_addLine (s\<lparr>bridgeExtrusionWidthOverSolid := v\<rparr>) line)))
         else if firstWord = ''(<decimalPlacesCarried>''
         then err_bind (secondWord splitLine) (\<lambda>w. err_bind (py_int w) (\<lambda>n.
                Inr (False, HopSkein_addLine (s\<lparr>decimalPlacesCarried := n\<rparr>) line)))
         else if firstWord = ''(<extrusionStart>''
         then Inr (True, HopSkein_addLine s ''(<procedureDone> hop )'')
         else Inr (False, HopSkein_addLine s line))"

text \<open>\<^verbatim>\<open>for self.lineIndex in range( len( self.lines ) )\<close>: the lines still to read and the
  index of the first of them. The index is stored before the body runs, so after a loop
  that was never left it is that of the last line.\<close>

fun parseInitializationFrom ::
  "utilities \<Rightarrow> HopPreferences \<Rightarrow> string list \<Rightarrow> nat \<Rightarrow> HopSkein \<Rightarrow> error + HopSkein" where
  "parseInitializationFrom u hopPreferences [] i s = Inr s"
| "parseInitializationFrom u hopPreferences (line # rest) i s =
     err_bind (parseInitializationLine u hopPreferences (s\<lparr>lineIndex := i\<rparr>) line)
       (\<lambda>(returned, s1).
          if returned then Inr s1
          else parseInitializationFrom u hopPreferences rest (Suc i) s1)"

definition parseInitialization ::
  "utilities \<Rightarrow> HopPreferences \<Rightarrow> HopSkein \<Rightarrow> error + HopSkein" where
  "parseInitialization u hopPreferences s =
     parseInitializationFrom u hopPreferences (lines s) 0 s"

text \<open>\<^verbatim>\<open>for self.lineIndex in range( self.lineIndex, len( self.lines ) )\<close>.\<close>

fun parseLinesFrom :: "utilities \<Rightarrow> string list \<Rightarrow> nat \<Rightarrow> HopSkein \<Rightarrow> error + HopSkein" where
  "parseLinesFrom u [] i s = Inr s"
| "parseLinesFrom u (line # rest) i s =
     err_bind (HopSkein_parseLine u (s\<lparr>lineIndex := i\<rparr>) line)
       (parseLinesFrom u rest (Suc i))"

definition HopSkein_parseGcode ::
  "utilities \<Rightarrow> string \<Rightarrow> HopPreferences \<Rightarrow> HopSkein \<Rightarrow> error + HopSkein" where
  "HopSkein_parseGcode u gcodeText hopPreferences s =
     (let s1 = s\<lparr>lines := getTextLines u gcodeText,
                 minimumSlope := tanRadians u (minimumHopAngle hopPreferences)\<rparr>
      in err_bind (parseInitialization u hopPreferences s1) (\<lambda>s2.
           parseLinesFrom u (drop (lineIndex s2) (lines s2)) (lineIndex s2) s2))"

definition getHopGcode :: "utilities \<Rightarrow> string \<Rightarrow> HopPreferences option \<Rightarrow> error + string" where
  "getHopGcode u gcodeText hopPreferences =
     (if gcodeText = [] then Inr []
      else err_bind (isProcedureDone u gcodeText ''hop'') (\<lambda>done.
        if done then Inr gcodeText
        else
          let prefs = (case hopPreferences of
                         None \<Rightarrow> readHopPreferences u HopPreferences_init
                       | Some p \<Rightarrow> p)
          in if \<not> activateHop prefs then Inr gcodeText
             else err_bind (HopSkein_parseGcode u gcodeText prefs HopSkein_init)
                    (\<lambda>skein. Inr (hop_output skein))))"

section \<open>An instance of the utility modules\<close>

text \<open>
  The theorems on the stages hold for every \<^typ>\<open>utilities\<close>. To run the stages on
  concrete texts the parameters are instantiated here, each from what the spec says of it.
\<close>

text \<open>Modelled from the spec: \<^verbatim>\<open>gcodec.isProcedureDone\<close>. "Procedure-done markers use the
  literal pattern \<^verbatim>\<open>(<procedureDone> <stageName> </procedureDone>)\<close>"; presence is an exact
  match of this text for the stage's name.\<close>

fun contains :: "string \<Rightarrow> string \<Rightarrow> bool" where
  "contains pat [] = (pat = [])"
| "contains pat (c # cs) = (take (length pat) (c # cs) = pat \<or> contains pat cs)"

definition spec_isProcedureDone :: "string \<Rightarrow> string \<Rightarrow> error + bool" where
  "spec_isProcedureDone gcodeText procedure =
     Inr (contains (''(<procedureDone> '' @ procedure @ '' </procedureDone>)'') gcodeText)"

text \<open>Modelled from the spec: \<^verbatim>\<open>gcodec.getTextLines\<close>. A document is "an ordered sequence of
  text lines" of "line-oriented text": the text between line feeds.\<close>

definition spec_getTextLines :: "string \<Rightarrow> string list" where
  "spec_getTextLines text = split_on CHR 0x0A text"

text \<open>Modelled from the spec: Python's \<^verbatim>\<open>float\<close> on the decimal literals of a toolpath,
  over the reals: surrounding whitespace is stripped, then an optional sign, digits with
  at most one point and at least one digit, and an optional exponent \<^verbatim>\<open>e\<close> or \<^verbatim>\<open>E\<close>
  with an optional sign and at least one digit. The words \<^verbatim>\<open>inf\<close> and \<^verbatim>\<open>nan\<close>, which
  Python reads too, have no real value and are outside this instance.\<close>

definition spec_exponent :: "string \<Rightarrow> int option" where
  "spec_exponent e =
     (let neg = (case e of [] \<Rightarrow> False | c # _ \<Rightarrow> c = CHR ''-'');
          ds = (case e of [] \<Rightarrow> [] | c # r \<Rightarrow> if c = CHR ''-'' \<or> c = CHR ''+'' then r else e)
      in if ds = [] \<or> \<not> list_all is_digit ds then None
         else Some (if neg then - int (digits_val ds) else int (digits_val ds)))"

definition spec_pyFloat :: "string \<Rightarrow> error + real" where
  "spec_pyFloat s =
     (let t = strip s;
          neg = (case t of [] \<Rightarrow> False | c # _ \<Rightarrow> c = CHR ''-'');
          body = (case t of [] \<Rightarrow> [] | c # r \<Rightarrow> if c = CHR ''-'' \<or> c = CHR ''+'' then r else t);
          mantissa = takeWhile (\<lambda>c. c \<noteq> CHR ''e'' \<and> c \<noteq> CHR ''E'') body;
          exponent = (if length mantissa < length body
                      then spec_exponent (drop (Suc (length mantissa)) body) else Some 0);
          ip = takeWhile (\<lambda>c. c \<noteq> CHR ''.'') mantissa;
          fp = drop (Suc (length ip)) mantissa
      in if ip @ fp = [] \<or> \<not> list_all is_digit (ip @ fp) then Inl ValueError
         else
           (case exponent of
              None \<Rightarrow> Inl ValueError
            | Some e \<Rightarrow>
                let v = real (digits_val (ip @ fp)) / 10 ^ length fp
                          * (if 0 \<le> e then 10 ^ nat e else 1 / 10 ^ nat (- e))
                in Inr (if neg then - v else v)))"

text \<open>Modelled from the spec: \<^verbatim>\<open>gcodec.getLocationFromSplitLine\<close>. "A location update from
  a line must carry forward any axis not present in that line's parameters"; a parameter
  token is "a single letter followed by a numeric or string remainder". The spec does not
  say what an absent axis is when there is no earlier location; it is 0 here.\<close>

fun findParameter :: "char \<Rightarrow> string list \<Rightarrow> string option" where
  "findParameter letter [] = None"
| "findParameter letter (w # ws) =
     (case w of
        [] \<Rightarrow> findParameter letter ws
      | c # r \<Rightarrow> if c = letter then Some r else findParameter letter ws)"

definition spec_axis :: "char \<Rightarrow> string list \<Rightarrow> real \<Rightarrow> error + real" where
  "spec_axis letter splitLine carried =
     (case findParameter letter (tl splitLine) of
        None \<Rightarrow> Inr carried
      | Some r \<Rightarrow> spec_pyFloat r)"

definition spec_getLocationFromSplitLine :: "Vec3 option \<Rightarrow> string list \<Rightarrow> error + Vec3" where
  "spec_getLocationFromSplitLine prior splitLine =
     (let old = (case prior of None \<Rightarrow> \<lparr>vx = 0, vy = 0, vz = 0\<rparr> | Some v \<Rightarrow> v) in
      err_bind (spec_axis CHR ''X'' splitLine (vx old)) (\<lambda>a.
      err_bind (spec_axis CHR ''Y'' splitLine (vy old)) (\<lambda>b.
      err_bind (spec_axis CHR ''Z'' splitLine (vz old)) (\<lambda>c.
      Inr \<lparr>vx = a, vy = b, vz = c\<rparr>))))"

text \<open>Modelled from the spec: \<^verbatim>\<open>gcodec.indexOfStartingWithSecond\<close>. The spec only names the
  "last-seen feedrate token" of a line; by its name the function gives the index of the
  first word from the second on that starts with the letter, and hop.py tests the result
  with \<^verbatim>\<open>> 0\<close>: no such word is \<open>-1\<close> here.\<close>

fun indexStartingWith :: "string \<Rightarrow> string list \<Rightarrow> nat \<Rightarrow> int" where
  "indexStartingWith letter [] i = - 1"
| "indexStartingWith letter (w # ws) i =
     (if w \<noteq> [] \<and> take 1 w = letter then int i else indexStartingWith letter ws (Suc i))"

definition spec_indexOfStartingWithSecond :: "string \<Rightarrow> string list \<Rightarrow> error + int" where
  "spec_indexOfStartingWithSecond letter splitLine =
     Inr (indexStartingWith letter (tl splitLine) 1)"

text \<open>Modelled from the spec: \<^verbatim>\<open>euclidean.getRoundedToDecimalPlaces\<close> and
  \<^verbatim>\<open>euclidean.getRoundedToDecimalPlacesString\<close>. The value is rounded "to
  \<open>decimalPlacesExported\<close> decimal digits" with "standard rounding" (halves away from
  zero) and written as the spec's scenario writes it: \<open>1.23456\<close> at 2 digits is
  \<^verbatim>\<open>1.23\<close>, \<open>-0.00001\<close> is \<^verbatim>\<open>-0.0\<close> and \<open>0.4\<close> is \<^verbatim>\<open>0.4\<close>, so the sign of the
  input is kept, zeros at the end are dropped and one digit after the point stays.\<close>

definition show_digit :: "nat \<Rightarrow> char" where
  "show_digit d =
     (if d = 0 then CHR ''0'' else if d = 1 then CHR ''1'' else if d = 2 then CHR ''2''
      else if d = 3 then CHR ''3'' else if d = 4 then CHR ''4'' else if d = 5 then CHR ''5''
      else if d = 6 then CHR ''6'' else if d = 7 then CHR ''7'' else if d = 8 then CHR ''8''
      else CHR ''9'')"

function show_nat :: "nat \<Rightarrow> string" where
  "show_nat n =
     (if n < 10 then [show_digit n] else show_nat (n div 10) @ [show_digit (n mod 10)])"
  by pat_completeness auto
termination
  by (relation "measure (\<lambda>n. n)") auto

declare show_nat.simps [simp del]

fun frac_digits :: "nat \<Rightarrow> nat \<Rightarrow> string" where
  "frac_digits n m =
     (if n = 0 then [] else frac_digits (n - 1) (m div 10) @ [show_digit (m mod 10)])"

declare frac_digits.simps [simp del]

definition strip_zeros :: "string \<Rightarrow> string" where
  "strip_zeros ds =
     (let r = rev (dropWhile (\<lambda>c. c = CHR ''0'') (rev ds)) in if r = [] then ''0'' else r)"

definition spec_rounded :: "int \<Rightarrow> real \<Rightarrow> string" where
  "spec_rounded decimalPlaces number =
     (let n = nat decimalPlaces;
          scaled = nat \<lfloor>\<bar>number\<bar> * 10 ^ n + 1 / 2\<rfloor>
      in (if number < 0 then ''-'' else []) @ show_nat (scaled div 10 ^ n) @ ''.''
         @ strip_zeros (frac_digits n (scaled mod 10 ^ n)))"

text \<open>Modelled from the spec: "\<open>minimumSlope = tan(radians(minimumHopAngleDegrees))\<close>", the
  tangent over the reals. Where the real tangent has a pole, as at 90 degrees, floats
  give a large number and no error: there the instance takes the value of
  \<^verbatim>\<open>math.tan( math.radians( 90 ) )\<close>.\<close>

definition spec_tanRadians :: "real \<Rightarrow> real" where
  "spec_tanRadians a =
     (if cos (a * pi / 180) = 0 then 16331239353195370 else tan (a * pi / 180))"

definition spec_utilities :: utilities where
  "spec_utilities =
     \<lparr>isProcedureDone = spec_isProcedureDone,
      getTextLines = spec_getTextLines,
      getLocationFromSplitLine = spec_getLocationFromSplitLine,
      indexOfStartingWithSecond = spec_indexOfStartingWithSecond,
      getRoundedToDecimalPlaces = spec_rounded,
      getRoundedToDecimalPlacesString = spec_rounded,
      readHopPreferences = (\<lambda>p. p),
      readExportPreferences = (\<lambda>p. p),
      pyFloat = spec_pyFloat,
      tanRadians = spec_tanRadians\<rparr>"

section \<open>Notions used in the statements\<close>

subsection \<open>Export\<close>

text \<open>The six \<^verbatim>\<open>getLineWithTruncatedNumber\<close> statements of \<^verbatim>\<open>ExportSkein.parseLine\<close> as a fold
  over the letters, to speak of the line after the first few of them.\<close>

fun truncateLetters :: "utilities \<Rightarrow> ExportSkein \<Rightarrow> string \<Rightarrow> string \<Rightarrow> error + string" where
  "truncateLetters u s [] line = Inr line"
| "truncateLetters u s (c # cs) line =
     err_bind (getLineWithTruncatedNumber u s c line) (\<lambda>l. truncateLetters u s cs l)"

text \<open>The text between the first occurrence of a letter and the next space: the numeric
  token that \<^verbatim>\<open>getLineWithTruncatedNumber\<close> gives to \<^verbatim>\<open>float\<close>.\<close>

definition numberAfter :: "char \<Rightarrow> string \<Rightarrow> string" where
  "numberAfter c line =
     takeWhile (\<lambda>a. a \<noteq> CHR '' '')
       (drop (Suc (length (takeWhile (\<lambda>a. a \<noteq> c) line))) line)"

text \<open>A motion line: the first word of \<^verbatim>\<open>line.split()\<close> is one of the three motion commands.\<close>

definition isMotion :: "string \<Rightarrow> bool" where
  "isMotion line = (case split_ws line of [] \<Rightarrow> False
      | w # _ \<Rightarrow> w = ''G1'' \<or> w = ''G2'' \<or> w = ''G3'')"

text \<open>The rounding function writes a number without a space in it.\<close>

definition spaceFree :: "utilities \<Rightarrow> bool" where
  "spaceFree u = (\<forall>n v. CHR '' '' \<notin> set (getRoundedToDecimalPlacesString u n v))"

subsection \<open>Hop\<close>

text \<open>The spec's lookahead rule in its own words: among the lines that follow, another
  linear move (\<^verbatim>\<open>G1\<close>) comes with no extruder activation (\<^verbatim>\<open>M101\<close>) before it.\<close>

definition travelAhead :: "string list \<Rightarrow> bool" where
  "travelAhead rest =
     (\<exists>j < length rest. firstWordOf (rest ! j) = ''G1''
        \<and> (\<forall>k < j. firstWordOf (rest ! k) \<noteq> ''M101''))"

text \<open>The spec's linear blend, \<open>blend(a, b, t) = a*(1-t) + b*t\<close>.\<close>

definition blend :: "Vec3 \<Rightarrow> Vec3 \<Rightarrow> real \<Rightarrow> Vec3" where
  "blend a b t = Vec3_plus (Vec3_times a (1 - t)) (Vec3_times b t)"

text \<open>The skein after the first statements of \<^verbatim>\<open>getHopLine\<close>, which store the feedrate word
  of the line when \<^verbatim>\<open>indexOfStartingWithSecond\<close> found one at index \<open>i\<close>.\<close>

definition withFeedrate :: "HopSkein \<Rightarrow> string list \<Rightarrow> int \<Rightarrow> HopSkein" where
  "withFeedrate s splitLine i =
     (if 0 < i then s\<lparr>feedrateString := splitLine ! nat i\<rparr> else s)"

text \<open>The feedrate word that is stored once \<^verbatim>\<open>parseLine\<close> has read a line: that of the
  line if it is a \<^verbatim>\<open>G1\<close> line with such a word, else the one stored before.\<close>

definition feedrateAfter :: "utilities \<Rightarrow> HopSkein \<Rightarrow> string \<Rightarrow> string" where
  "feedrateAfter u s line =
     (if firstWordOf line = ''G1''
      then (case indexOfStartingWithSecond u ''F'' (split_on CHR '' '' line) of
              Inl _ \<Rightarrow> feedrateString s
            | Inr i \<Rightarrow> if 0 < i then split_on CHR '' '' line ! nat i else feedrateString s)
      else feedrateString s)"

text \<open>What \<^verbatim>\<open>HopSkein.parseLine\<close> does after its \<^verbatim>\<open>G1\<close> branch, on the line to write and the
  skein.\<close>

definition afterMove :: "string \<Rightarrow> string \<Rightarrow> HopSkein \<Rightarrow> error + HopSkein" where
  "afterMove firstWord line1 s2 =
     (let s3 = (if firstWord = ''M101'' then s2\<lparr>extruderActive := True\<rparr> else s2) in
      err_bind
        (if firstWord = ''M103''
         then Inr (s3\<lparr>extruderActive := False, justDeactivated := True\<rparr>)
         else if firstWord = ''(<layerStart>''
         then (if minimumSlope s3 = 0 then Inl ZeroDivisionError
               else Inr (s3\<lparr>layerHopHeight := hopHeight s3,
                            layerHopDistance := hopHeight s3 / minimumSlope s3\<rparr>))
         else if firstWord = ''(<bridgeLayer>''
         then (if minimumSlope s3 = 0 then Inl ZeroDivisionError
               else Inr (s3\<lparr>layerHopHeight := hopHeight s3 * bridgeExtrusionWidthOverSolid s3,
                            layerHopDistance :=
                              hopHeight s3 * bridgeExtrusionWidthOverSolid s3 / minimumSlope s3\<rparr>))
         else Inr s3) (\<lambda>s4.
      Inr (HopSkein_addLine s4 line1)))"

text \<open>The two \<^verbatim>\<open>gcodec\<close> calls on a move line return, and the feedrate index they give is
  inside the line.\<close>

definition moveParses :: "utilities \<Rightarrow> HopSkein \<Rightarrow> string \<Rightarrow> bool" where
  "moveParses u s line =
     (case indexOfStartingWithSecond u ''F'' (split_on CHR '' '' line) of
        Inl _ \<Rightarrow> False
      | Inr i \<Rightarrow> (0 < i \<longrightarrow> nat i < length (split_on CHR '' '' line))
          \<and> \<not> isl (getLocationFromSplitLine u (oldLocation s) (split_on CHR '' '' line)))"

text \<open>The ramp of \<^verbatim>\<open>getHopLine\<close> can be computed: there is an earlier location and the move
  from it has a length, so that \<^verbatim>\<open>layerHopDistance / distance\<close> does not divide by zero.\<close>

definition rampDefined :: "utilities \<Rightarrow> HopSkein \<Rightarrow> string \<Rightarrow> bool" where
  "rampDefined u s line =
     (case oldLocation s of
        None \<Rightarrow> False
      | Some old \<Rightarrow>
          (case getLocationFromSplitLine u (oldLocation s) (split_on CHR '' '' line) of
             Inl _ \<Rightarrow> False
           | Inr location \<Rightarrow> Vec3_distance location old \<noteq> 0))"

text \<open>A line of the initialization part whose number, if it is one of the three metadata
  comments, is there and is read by \<^verbatim>\<open>float\<close> or \<^verbatim>\<open>int\<close>.\<close>

definition initLineParses :: "utilities \<Rightarrow> string \<Rightarrow> bool" where
  "initLineParses u line =
     (let splitLine = split_on CHR '' '' line; firstWord = firstWordOf line in
      (firstWord = ''(<extrusionHeight>'' \<or> firstWord = ''(<bridgeExtrusionWidthOverSolid>''
         \<longrightarrow> \<not> isl (err_bind (secondWord splitLine) (pyFloat u)))
      \<and> (firstWord = ''(<decimalPlacesCarried>''
         \<longrightarrow> \<not> isl (err_bind (secondWord splitLine) py_int)))"

text \<open>The fields that decide how a line is hopped are the same in two skeins.\<close>

definition sameControl :: "HopSkein \<Rightarrow> HopSkein \<Rightarrow> bool" where
  "sameControl s s' =
     (lines s' = lines s \<and> extruderActive s' = extruderActive s
      \<and> justDeactivated s' = justDeactivated s \<and> oldLocation s' = oldLocation s
      \<and> minimumSlope s' = minimumSlope s)"

subsection \<open>Concrete texts and skeins\<close>

text \<open>A text that carries the marker of both stages.\<close>

definition markedText :: string where
  "markedText = ''(<procedureDone> hop </procedureDone>)'' @ newline
     @ ''(<procedureDone> export </procedureDone>)'' @ newline @ ''G1 X1.23456 Y2.0 Z0.4''"

text \<open>Export with comments kept.\<close>

definition keepComments :: ExportPreferences where
  "keepComments = ExportPreferences_init\<lparr>deleteComments := False\<rparr>"

text \<open>A skein in the middle of a travel: the extruder is off, the line at index 0 is
  followed by another move.\<close>

definition travelSkein :: HopSkein where
  "travelSkein = HopSkein_init\<lparr>lines := [''G1 X10 Y0 Z0 F600'', ''G1 X20 Y0 Z0'']\<rparr>"

text \<open>The same lines while the extruder is on.\<close>

definition activeSkein :: HopSkein where
  "activeSkein = travelSkein\<lparr>extruderActive := True\<rparr>"

text \<open>The extruder is off and the line at index 0 is the last move before it is switched
  on again.\<close>

definition lastTravelSkein :: HopSkein where
  "lastTravelSkein = HopSkein_init\<lparr>lines := [''G1 X10 Y0 Z0'', ''M101'']\<rparr>"

text \<open>The extruder was just switched off at the origin; the line at index 1 is the only
  move before it is switched on again, of length 2, and \<open>layerHopDistance\<close> is 0.5.\<close>

definition rampSkein :: HopSkein where
  "rampSkein = HopSkein_init\<lparr>justDeactivated := True, layerHopDistance := 0.5, lineIndex := 1,
     lines := [''M103'', ''G1 X2 Y0 Z0'', ''M101''],
     oldLocation := Some \<lparr>vx = 0, vy = 0, vz = 0\<rparr>\<rparr>"

text \<open>A text with one travel line after the start of the extrusion.\<close>

definition singleTravelText :: string where
  "singleTravelText = ''(<extrusionStart> )'' @ newline @ ''G1 X10 Y0 Z0''"

text \<open>A text in which the extruder is switched off and two travel lines follow.\<close>

definition twoTravelText :: string where
  "twoTravelText = ''(<extrusionStart> )'' @ newline @ ''M101'' @ newline @ ''G1 X0 Y0 Z0''
     @ newline @ ''M103'' @ newline @ ''G1 X2 Y0 Z0 F600'' @ newline @ ''G1 X4 Y0 Z0''"

text \<open>Texts without \<^verbatim>\<open>(<extrusionStart>\<close>: one that ends in a line feed, so that its last
  line is empty, and one that ends in a move.\<close>

definition noStartText :: string where
  "noStartText = ''M103'' @ newline"

definition noStartMoveText :: string where
  "noStartMoveText = ''M101'' @ newline @ ''G1 X1 Y0 Z0''"

text \<open>A text with empty lines before and after \<^verbatim>\<open>(<extrusionStart>\<close>.\<close>

definition blankLinesText :: string where
  "blankLinesText = newline @ ''(<extrusionStart> )'' @ newline @ newline @ ''M103''"

text \<open>The words of a line joined by single spaces, which undoes the split at spaces.\<close>

fun join_sp :: "string list \<Rightarrow> string" where
  "join_sp [] = []"
| "join_sp [t] = t"
| "join_sp (t # w # ts) = t @ CHR '' '' # join_sp (w # ts)"

text \<open>What the truncation is to do to one word of a motion line: a word that begins with
  one of the letters and goes on with a text that \<^verbatim>\<open>float\<close> reads becomes the letter and
  \<^verbatim>\<open>getRoundedToDecimalPlacesString( n, float( text ) )\<close>; every other word stays as it is.
  (A text that \<^verbatim>\<open>float\<close> rejects makes the stage raise, which is C7; the words of
  \<open>parameterTokens\<close> have none.)\<close>

definition truncatedToken :: "utilities \<Rightarrow> int \<Rightarrow> string \<Rightarrow> string \<Rightarrow> string" where
  "truncatedToken u n letters token =
     (case token of
        [] \<Rightarrow> []
      | c # number \<Rightarrow>
          if c \<in> set letters \<and> number \<noteq> []
          then (case pyFloat u number of
                  Inl _ \<Rightarrow> token
                | Inr v \<Rightarrow> c # getRoundedToDecimalPlacesString u n v)
          else token)"

text \<open>The words of a line are parameter words: each of the letters is in at most one
  word, and there it is the first character; what follows it has none of the letters
  and, unless it is empty, is read by \<^verbatim>\<open>float\<close>; and the rounded number is written
  without a space and without one of the letters.\<close>

definition parameterTokens :: "utilities \<Rightarrow> int \<Rightarrow> string \<Rightarrow> string list \<Rightarrow> bool" where
  "parameterTokens u n letters tokens =
     ((\<forall>c \<in> set letters. length (filter (\<lambda>t. c \<in> set t) tokens) \<le> 1)
      \<and> (\<forall>t \<in> set tokens. CHR '' '' \<notin> set t)
      \<and> (\<forall>t \<in> set tokens. \<forall>c \<in> set letters. c \<in> set t \<longrightarrow>
            hd t = c \<and> set (tl t) \<inter> set letters = {}
            \<and> (tl t \<noteq> [] \<longrightarrow>
                 \<not> isl (pyFloat u (tl t))
                 \<and> set (getRoundedToDecimalPlacesString u n (projr (pyFloat u (tl t))))
                     \<inter> set (CHR '' '' # letters) = {})))"

text \<open>The export skein with one decimal place to export.\<close>

definition oneDigitSkein :: ExportSkein where
  "oneDigitSkein = ExportSkein_init\<lparr>decimalPlacesExported := 1\<rparr>"

text \<open>A motion line with all of the six letters.\<close>

definition arcLine :: string where
  "arcLine = ''G2 X1.23456 Y-0.00001 Z0.44 I1.004 J2 R0.126 F600''"

text \<open>The skein of the ramp with \<open>layerHopDistance\<close> 0.\<close>

definition zeroRampSkein :: HopSkein where
  "zeroRampSkein = rampSkein\<lparr>layerHopDistance := 0\<rparr>"

text \<open>A text in which the extruder is switched off and one travel line follows before it
  is switched on again.\<close>

definition rampText :: string where
  "rampText = ''(<extrusionStart> )'' @ newline @ ''M101'' @ newline @ ''G1 X0 Y0 Z0''
     @ newline @ ''M103'' @ newline @ ''G1 X2 Y0 Z0'' @ newline @ ''M101''"

text \<open>A text with an empty line after the extruder is switched on.\<close>

definition activeBlankText :: string where
  "activeBlankText = ''(<extrusionStart> )'' @ newline @ ''M101'' @ newline @ newline
     @ ''G1 X1 Y0 Z0''"

section \<open>Auxiliary facts\<close>

lemma index_of_eq:
  "index_of c s = (if c \<in> set s then Some (length (takeWhile (\<lambda>a. a \<noteq> c) s)) else None)"
  by (induction s) auto

lemma split_on_nonempty: "split_on c s \<noteq> []"
  by (induction s) (auto split: list.splits)

lemma split_on_no_sep: "c \<notin> set w \<Longrightarrow> split_on c w = [w]"
  by (induction w) auto

lemma split_on_append:
  "split_on c (xs @ ys) =
     butlast (split_on c xs) @ [last (split_on c xs) @ hd (split_on c ys)] @ tl (split_on c ys)"
proof (induction xs)
  case Nil
  show ?case using split_on_nonempty [of c ys] by (cases "split_on c ys") auto
next
  case (Cons a xs)
  show ?case
  proof (cases "a = c")
    case True
    then show ?thesis using Cons split_on_nonempty [of c xs] by simp
  next
    case False
    obtain w ws where s: "split_on c xs = w # ws"
      using split_on_nonempty [of c xs] by (cases "split_on c xs") auto
    show ?thesis
    proof (cases ws)
      case Nil
      then show ?thesis using False Cons s by simp
    next
      case (Cons v vs)
      then show ?thesis using False Cons.IH s by simp
    qed
  qed
qed

lemma split_at_first:
  "c \<in> set line \<Longrightarrow>
   line = takeWhile (\<lambda>a. a \<noteq> c) line @ c # drop (Suc (length (takeWhile (\<lambda>a. a \<noteq> c) line))) line"
  by (induction line) auto

lemma takeWhile_all: "c \<notin> set xs \<Longrightarrow> takeWhile (\<lambda>a. a \<noteq> c) xs = xs"
  by (induction xs) auto

lemma dropWhile_none: "c \<notin> set xs \<Longrightarrow> dropWhile (\<lambda>a. a \<noteq> c) xs = []"
  by (induction xs) auto

lemma getLineWithTruncatedNumber_nf:
  assumes "c \<noteq> CHR '' ''"
  shows "getLineWithTruncatedNumber u s c line =
     (if c \<notin> set line then Inr line
      else
        let pre = takeWhile (\<lambda>a. a \<noteq> c) line;
            rest = drop (Suc (length pre)) line;
            num = takeWhile (\<lambda>a. a \<noteq> CHR '' '') rest
        in if num = [] then Inr line
           else err_bind (pyFloat u num) (\<lambda>v.
             Inr (pre @ c # getRoundedToDecimalPlacesString u (decimalPlacesExported s) v
                  @ dropWhile (\<lambda>a. a \<noteq> CHR '' '') rest)))"
proof (cases "c \<in> set line")
  case False
  then show ?thesis by (simp add: getLineWithTruncatedNumber_def py_find_def index_of_eq)
next
  case True
  define pre where "pre = takeWhile (\<lambda>a. a \<noteq> c) line"
  define rest where "rest = drop (Suc (length pre)) line"
  define num where "num = takeWhile (\<lambda>a. a \<noteq> CHR '' '') rest"
  have line: "line = pre @ c # rest"
    using split_at_first [OF True] unfolding pre_def rest_def .
  have f1: "py_find c line 0 = int (length pre)"
    using True by (simp add: py_find_def index_of_eq pre_def)
  have d: "drop (length pre) line = c # rest"
    by (subst line) simp
  have f2: "py_find CHR '' '' line (length pre) =
      (if CHR '' '' \<in> set rest then int (length pre + Suc (length num)) else - 1)"
    using assms by (simp add: py_find_def d index_of_eq num_def)
  have len: "length line = Suc (length pre) + length rest"
    by (subst line) simp
  have t: "take (Suc (length pre)) line = pre @ [c]"
    by (subst line) simp
  have "getLineWithTruncatedNumber u s c line =
      (if num = [] then Inr line
       else err_bind (pyFloat u num) (\<lambda>v.
         Inr (pre @ c # getRoundedToDecimalPlacesString u (decimalPlacesExported s) v
              @ dropWhile (\<lambda>a. a \<noteq> CHR '' '') rest)))"
  proof (cases "CHR '' '' \<in> set rest")
    case True
    have n: "slice line (Suc (length pre)) (Suc (length pre + length num)) = num"
      unfolding slice_def
      by (simp add: rest_def [symmetric] num_def takeWhile_eq_take [symmetric])
    have dd: "drop (Suc (length pre + length num)) line = dropWhile (\<lambda>a. a \<noteq> CHR '' '') rest"
      by (metis add_Suc add.commute drop_drop dropWhile_eq_drop num_def rest_def)
    show ?thesis
      unfolding getLineWithTruncatedNumber_def Let_def f1
      using True by (simp add: f2 n t dd nat_add_distrib)
  next
    case False
    then have nr: "num = rest" by (simp add: num_def takeWhile_all)
    have n: "slice line (Suc (length pre)) (length line) = num"
      unfolding slice_def by (simp add: rest_def [symmetric] nr len)
    show ?thesis
      unfolding getLineWithTruncatedNumber_def Let_def f1
      using False by (simp add: f2 n t dropWhile_none nat_add_distrib)
  qed
  then show ?thesis
    using True by (simp add: Let_def pre_def [symmetric] rest_def [symmetric] num_def [symmetric])
qed

lemma err_bind_Inr [simp]: "err_bind (Inr v) f = f v"
  by (simp add: err_bind_def)

lemma err_bind_Inl [simp]: "err_bind (Inl e) f = Inl e"
  by (simp add: err_bind_def)

lemma err_bind_assoc: "err_bind (err_bind m f) g = err_bind m (\<lambda>x. err_bind (f x) g)"
  by (cases m) simp_all

lemma err_bind_return: "err_bind m Inr = m"
  by (cases m) simp_all

lemma err_bind_cong:
  "m = m' \<Longrightarrow> (\<And>v. m' = Inr v \<Longrightarrow> f v = g v) \<Longrightarrow> err_bind m f = err_bind m' g"
  by (cases m') simp_all

lemma truncateLetters_append:
  "truncateLetters u s (xs @ ys) line =
     err_bind (truncateLetters u s xs line) (truncateLetters u s ys)"
  by (induction xs arbitrary: line) (simp_all add: err_bind_assoc cong: err_bind_cong)

lemma parseLine_motion:
  assumes "isMotion line"
  shows "ExportSkein_parseLine u prefs s line =
     err_bind (truncateLetters u s ''XYZIJR'' line) (\<lambda>l. Inr (ExportSkein_addLine s l))"
proof -
  obtain w ws where sp: "split_ws line = w # ws" and w: "w = ''G1'' \<or> w = ''G2'' \<or> w = ''G3''"
    using assms by (auto simp: isMotion_def split: list.splits)
  have "truncateLetters u s ''XYZIJR'' line =
      err_bind (getLineWithTruncatedNumber u s CHR ''X'' line) (\<lambda>l1.
      err_bind (getLineWithTruncatedNumber u s CHR ''Y'' l1) (\<lambda>l2.
      err_bind (getLineWithTruncatedNumber u s CHR ''Z'' l2) (\<lambda>l3.
      err_bind (getLineWithTruncatedNumber u s CHR ''I'' l3) (\<lambda>l4.
      err_bind (getLineWithTruncatedNumber u s CHR ''J'' l4) (\<lambda>l5.
      err_bind (getLineWithTruncatedNumber u s CHR ''R'' l5) Inr)))))"
    by (simp cong: err_bind_cong)
  then have chain: "err_bind (truncateLetters u s ''XYZIJR'' line) (\<lambda>l. Inr (ExportSkein_addLine s l)) =
      err_bind (getLineWithTruncatedNumber u s CHR ''X'' line) (\<lambda>l1.
      err_bind (getLineWithTruncatedNumber u s CHR ''Y'' l1) (\<lambda>l2.
      err_bind (getLineWithTruncatedNumber u s CHR ''Z'' l2) (\<lambda>l3.
      err_bind (getLineWithTruncatedNumber u s CHR ''I'' l3) (\<lambda>l4.
      err_bind (getLineWithTruncatedNumber u s CHR ''J'' l4) (\<lambda>l5.
      err_bind (getLineWithTruncatedNumber u s CHR ''R'' l5) (\<lambda>l6.
      Inr (ExportSkein_addLine s l6)))))))"
    by (simp add: err_bind_assoc del: truncateLetters.simps)
  show ?thesis
    unfolding ExportSkein_parseLine_def sp chain
    using w by (elim disjE) (simp_all del: truncateLetters.simps)
qed

lemma step_raises:
  assumes "c \<noteq> CHR '' ''" "c \<in> set l" "numberAfter c l \<noteq> []" "pyFloat u (numberAfter c l) = Inl e"
  shows "getLineWithTruncatedNumber u s c l = Inl e"
  using assms by (simp add: getLineWithTruncatedNumber_nf numberAfter_def Let_def err_bind_def)

lemma step_skips:
  assumes "c \<noteq> CHR '' ''" "numberAfter c l = []"
  shows "getLineWithTruncatedNumber u s c l = Inr l"
  using assms by (simp add: getLineWithTruncatedNumber_nf numberAfter_def Let_def err_bind_def)

lemma letters_no_space: "''XYZIJR'' = before @ c # after \<Longrightarrow> c \<noteq> CHR '' ''"
proof
  assume a: "''XYZIJR'' = before @ c # after" and "c = CHR '' ''"
  then have "CHR '' '' \<in> set (before @ c # after)" by simp
  then have "CHR '' '' \<in> set ''XYZIJR''" using a by simp
  then show False by simp
qed

lemma split_on_token:
  assumes "CHR '' '' \<notin> set w" "post = [] \<or> hd post = CHR '' ''"
  shows "split_on CHR '' '' (pre @ w @ post) =
     butlast (split_on CHR '' '' pre) @ [last (split_on CHR '' '' pre) @ w]
       @ tl (split_on CHR '' '' post)"
proof -
  have h: "hd (split_on CHR '' '' post) = []"
    using assms(2) by (cases post) auto
  have "split_on CHR '' '' (w @ post) = [w @ hd (split_on CHR '' '' post)] @ tl (split_on CHR '' '' post)"
    using split_on_append [of "CHR '' ''" w post] assms(1) by (simp add: split_on_no_sep)
  then show ?thesis
    using split_on_append [of "CHR '' ''" pre "w @ post"] by (simp add: h)
qed

lemma dropWhile_space_head:
  "dropWhile (\<lambda>a. a \<noteq> CHR '' '') xs = [] \<or> hd (dropWhile (\<lambda>a. a \<noteq> CHR '' '') xs) = CHR '' ''"
  using hd_dropWhile [of "\<lambda>a. a \<noteq> CHR '' ''" xs] by auto

lemma takeWhile_space_free: "CHR '' '' \<notin> set (takeWhile (\<lambda>a. a \<noteq> CHR '' '') xs)"
  using set_takeWhileD by fastforce

lemma step_tokens:
  assumes c: "c \<noteq> CHR '' ''" and sf: "spaceFree u"
    and r: "getLineWithTruncatedNumber u s c line = Inr line'"
  shows "list_all2 (\<lambda>t t'. t' = t \<or> c \<in> set t)
           (split_on CHR '' '' line) (split_on CHR '' '' line')"
proof (cases "line' = line")
  case True
  then show ?thesis by (simp add: list_all2_refl)
next
  case False
  define pre where "pre = takeWhile (\<lambda>a. a \<noteq> c) line"
  define rest where "rest = drop (Suc (length pre)) line"
  define num where "num = takeWhile (\<lambda>a. a \<noteq> CHR '' '') rest"
  define post where "post = dropWhile (\<lambda>a. a \<noteq> CHR '' '') rest"
  have cl: "c \<in> set line"
    using r False by (auto simp: getLineWithTruncatedNumber_nf [OF c] split: if_splits)
  have nn: "num \<noteq> []"
    using r False cl
    by (auto simp: getLineWithTruncatedNumber_nf [OF c] Let_def num_def rest_def pre_def
        split: if_splits)
  obtain v where v: "pyFloat u num = Inr v"
    and l': "line' = pre @ c # getRoundedToDecimalPlacesString u (decimalPlacesExported s) v @ post"
    using r cl nn
    by (cases "pyFloat u num")
       (auto simp: getLineWithTruncatedNumber_nf [OF c] Let_def num_def rest_def pre_def post_def)
  define rnd where "rnd = getRoundedToDecimalPlacesString u (decimalPlacesExported s) v"
  have line: "line = pre @ (c # num) @ post"
    using split_at_first [OF cl] by (simp add: pre_def rest_def num_def post_def)
  have line': "line' = pre @ (c # rnd) @ post"
    using l' by (simp add: rnd_def)
  have p: "post = [] \<or> hd post = CHR '' ''"
    unfolding post_def by (rule dropWhile_space_head)
  have w1: "CHR '' '' \<notin> set (c # num)"
    using c takeWhile_space_free [of rest] by (auto simp: num_def)
  have w2: "CHR '' '' \<notin> set (c # rnd)"
    using c sf by (auto simp: rnd_def spaceFree_def)
  have s1: "split_on CHR '' '' line =
      butlast (split_on CHR '' '' pre) @ [last (split_on CHR '' '' pre) @ c # num]
        @ tl (split_on CHR '' '' post)"
    by (subst line) (rule split_on_token [OF w1 p])
  have s2: "split_on CHR '' '' line' =
      butlast (split_on CHR '' '' pre) @ [last (split_on CHR '' '' pre) @ c # rnd]
        @ tl (split_on CHR '' '' post)"
    by (subst line') (rule split_on_token [OF w2 p])
  show ?thesis
    unfolding s1 s2
    by (intro list_all2_appendI) (simp_all add: list_all2_refl)
qed

lemma step_nonempty:
  assumes c: "c \<noteq> CHR '' ''" and r: "getLineWithTruncatedNumber u s c line = Inr line'"
    and "line \<noteq> []"
  shows "line' \<noteq> []"
  using assms
  by (cases "pyFloat u (takeWhile (\<lambda>a. a \<noteq> CHR '' '')
        (drop (Suc (length (takeWhile (\<lambda>a. a \<noteq> c) line))) line))")
     (auto simp: getLineWithTruncatedNumber_nf [OF c] Let_def split: if_splits)

lemma chain_tokens:
  assumes "CHR '' '' \<notin> set cs" "spaceFree u" "truncateLetters u s cs line = Inr line'"
  shows "list_all2 (\<lambda>t t'. t' = t \<or> set t \<inter> set cs \<noteq> {})
           (split_on CHR '' '' line) (split_on CHR '' '' line')"
  using assms
proof (induction cs arbitrary: line)
  case Nil
  then show ?case by (simp add: list_all2_refl)
next
  case (Cons c cs)
  have c: "c \<noteq> CHR '' ''" using Cons.prems(1) by auto
  obtain l1 where l1: "getLineWithTruncatedNumber u s c line = Inr l1"
    and rest: "truncateLetters u s cs l1 = Inr line'"
    using Cons.prems(3) by (cases "getLineWithTruncatedNumber u s c line") auto
  have a: "list_all2 (\<lambda>t t'. t' = t \<or> c \<in> set t)
      (split_on CHR '' '' line) (split_on CHR '' '' l1)"
    by (rule step_tokens [OF c Cons.prems(2) l1])
  have b: "list_all2 (\<lambda>t t'. t' = t \<or> set t \<inter> set cs \<noteq> {})
      (split_on CHR '' '' l1) (split_on CHR '' '' line')"
    using Cons.IH [OF _ Cons.prems(2) rest] Cons.prems(1) by simp
  show ?case
    by (rule list_all2_trans [OF _ a b]) auto
qed

lemma chain_nonempty:
  assumes "CHR '' '' \<notin> set cs" "truncateLetters u s cs line = Inr line'" "line \<noteq> []"
  shows "line' \<noteq> []"
  using assms
proof (induction cs arbitrary: line)
  case Nil
  then show ?case by simp
next
  case (Cons c cs)
  obtain l1 where l1: "getLineWithTruncatedNumber u s c line = Inr l1"
    and rest: "truncateLetters u s cs l1 = Inr line'"
    using Cons.prems(2) by (cases "getLineWithTruncatedNumber u s c line") auto
  have "l1 \<noteq> []" using step_nonempty [OF _ l1 Cons.prems(3)] Cons.prems(1) by auto
  then show ?case using Cons.IH [OF _ rest] Cons.prems(1) by simp
qed

lemma isMotion_nonempty: "isMotion line \<Longrightarrow> line \<noteq> []"
  by (auto simp: isMotion_def split_ws_def)

lemma motion_tokens:
  assumes m: "isMotion line" and sf: "spaceFree u"
    and r: "ExportSkein_parseLine u prefs s line = Inr s'"
  shows "\<exists>line'. export_output s' = export_output s @ line' @ newline
       \<and> length (split_on CHR '' '' line') = length (split_on CHR '' '' line)
       \<and> (\<forall>i < length (split_on CHR '' '' line).
            set (split_on CHR '' '' line ! i) \<inter> set ''XYZIJR'' = {}
            \<longrightarrow> split_on CHR '' '' line' ! i = split_on CHR '' '' line ! i)"
proof -
  obtain line' where t: "truncateLetters u s ''XYZIJR'' line = Inr line'"
    and s': "s' = ExportSkein_addLine s line'"
    using r unfolding parseLine_motion [OF m]
    by (cases "truncateLetters u s ''XYZIJR'' line") auto
  have ns: "CHR '' '' \<notin> set ''XYZIJR''" by simp
  have ne: "line' \<noteq> []"
    by (rule chain_nonempty [OF ns t isMotion_nonempty [OF m]])
  have la: "list_all2 (\<lambda>t t'. t' = t \<or> set t \<inter> set ''XYZIJR'' \<noteq> {})
      (split_on CHR '' '' line) (split_on CHR '' '' line')"
    by (rule chain_tokens [OF ns sf t])
  have "export_output s' = export_output s @ line' @ newline"
    using ne by (simp add: s' ExportSkein_addLine_def)
  moreover have "length (split_on CHR '' '' line') = length (split_on CHR '' '' line)"
    using la by (simp add: list_all2_lengthD)
  moreover have "\<forall>i < length (split_on CHR '' '' line).
      set (split_on CHR '' '' line ! i) \<inter> set ''XYZIJR'' = {}
      \<longrightarrow> split_on CHR '' '' line' ! i = split_on CHR '' '' line ! i"
    using la by (auto simp: list_all2_conv_all_nth)
  ultimately show ?thesis by blast
qed

lemma split_ws_acc_blank: "list_all is_space line \<Longrightarrow> split_ws_acc [] line = []"
  by (induction line) auto

lemma export_blank: "list_all is_space line \<Longrightarrow> ExportSkein_parseLine u prefs s line = Inr s"
  by (simp add: ExportSkein_parseLine_def split_ws_def split_ws_acc_blank)

lemma export_comment_dropped:
  assumes "deleteComments prefs" "split_ws line = (CHR ''('' # cs) # rest"
    and "cs = ''<decimalPlacesCarried>'' \<longrightarrow> (\<exists>w ws n. rest = w # ws \<and> py_int w = Inr n)"
  shows "\<exists>s'. ExportSkein_parseLine u prefs s line = Inr s' \<and> export_output s' = export_output s"
  using assms unfolding ExportSkein_parseLine_def by auto

lemma export_marker_kept:
  assumes "\<not> deleteComments prefs" "split_ws line = ''(</extruderInitialization>)'' # rest"
  shows "ExportSkein_parseLine u prefs s line =
     Inr (s\<lparr>export_output := export_output s @ ''(<procedureDone> export </procedureDone>)''
           @ newline @ line @ newline\<rparr>)"
proof -
  have "line \<noteq> []" using assms(2) by (auto simp: split_ws_def)
  then show ?thesis
    using assms unfolding ExportSkein_parseLine_def by (simp add: ExportSkein_addLine_def)
qed

lemma isNextTravelFrom_travelAhead: "isNextTravelFrom rest = travelAhead rest"
proof (induction rest)
  case Nil
  show ?case by (simp add: travelAhead_def)
next
  case (Cons line rest)
  show ?case
  proof (cases "firstWordOf line = ''G1''")
    case True
    then have "travelAhead (line # rest)"
      unfolding travelAhead_def by (intro exI [of _ 0]) simp
    then show ?thesis using True by simp
  next
    case g: False
    show ?thesis
    proof (cases "firstWordOf line = ''M101''")
      case True
      have "\<not> travelAhead (line # rest)"
      proof
        assume "travelAhead (line # rest)"
        then obtain j where j: "j < length (line # rest)" "firstWordOf ((line # rest) ! j) = ''G1''"
          "\<forall>k < j. firstWordOf ((line # rest) ! k) \<noteq> ''M101''"
          unfolding travelAhead_def by blast
        show False
        proof (cases j)
          case 0
          then show False using j(2) g by simp
        next
          case (Suc n)
          then have "firstWordOf ((line # rest) ! 0) \<noteq> ''M101''" using j(3) by blast
          then show False using True by simp
        qed
      qed
      then show ?thesis using True g by simp
    next
      case m: False
      have "travelAhead (line # rest) = travelAhead rest"
      proof
        assume "travelAhead (line # rest)"
        then obtain j where j: "j < length (line # rest)" "firstWordOf ((line # rest) ! j) = ''G1''"
          "\<forall>k < j. firstWordOf ((line # rest) ! k) \<noteq> ''M101''"
          unfolding travelAhead_def by blast
        then obtain n where n: "j = Suc n" using g by (cases j) auto
        have "\<forall>k < n. firstWordOf (rest ! k) \<noteq> ''M101''"
        proof (intro allI impI)
          fix k assume "k < n"
          then have "Suc k < j" using n by simp
          then have "firstWordOf ((line # rest) ! Suc k) \<noteq> ''M101''" using j(3) by blast
          then show "firstWordOf (rest ! k) \<noteq> ''M101''" by simp
        qed
        then show "travelAhead rest"
          unfolding travelAhead_def using j(1,2) n by (intro exI [of _ n]) simp
      next
        assume "travelAhead rest"
        then obtain j where j: "j < length rest" "firstWordOf (rest ! j) = ''G1''"
          "\<forall>k < j. firstWordOf (rest ! k) \<noteq> ''M101''"
          unfolding travelAhead_def by blast
        have "\<forall>k < Suc j. firstWordOf ((line # rest) ! k) \<noteq> ''M101''"
        proof (intro allI impI)
          fix k assume k: "k < Suc j"
          show "firstWordOf ((line # rest) ! k) \<noteq> ''M101''"
            using k m j(3) by (cases k) auto
        qed
        then show "travelAhead (line # rest)"
          unfolding travelAhead_def using j(1,2) by (intro exI [of _ "Suc j"]) simp
      qed
      then show ?thesis using g m Cons.IH by simp
    qed
  qed
qed

lemma isNextTravel_travelAhead:
  "isNextTravel s = travelAhead (drop (lineIndex s + 1) (lines s))"
  by (simp add: isNextTravel_def isNextTravelFrom_travelAhead)

lemma withFeedrate_fields [simp]:
  "extruderActive (withFeedrate s sp i) = extruderActive s"
  "justDeactivated (withFeedrate s sp i) = justDeactivated s"
  "oldLocation (withFeedrate s sp i) = oldLocation s"
  "lineIndex (withFeedrate s sp i) = lineIndex s"
  "lines (withFeedrate s sp i) = lines s"
  "hop_output (withFeedrate s sp i) = hop_output s"
  "layerHopDistance (withFeedrate s sp i) = layerHopDistance s"
  "layerHopHeight (withFeedrate s sp i) = layerHopHeight s"
  "decimalPlacesCarried (withFeedrate s sp i) = decimalPlacesCarried s"
  "minimumSlope (withFeedrate s sp i) = minimumSlope s"
  "hopHeight (withFeedrate s sp i) = hopHeight s"
  "bridgeExtrusionWidthOverSolid (withFeedrate s sp i) = bridgeExtrusionWidthOverSolid s"
  by (simp_all add: withFeedrate_def)

lemma isNextTravel_withFeedrate [simp]: "isNextTravel (withFeedrate s sp i) = isNextTravel s"
  by (simp add: isNextTravel_def)

lemma getHopLine_feed:
  assumes "indexOfStartingWithSecond u ''F'' (split_on CHR '' '' line) = Inr i"
    and "0 < i \<longrightarrow> nat i < length (split_on CHR '' '' line)"
  shows "getHopLine u s line =
     (let s1 = withFeedrate s (split_on CHR '' '' line) i in
      if extruderActive s then Inr (line, s1)
      else err_bind (getLocationFromSplitLine u (oldLocation s) (split_on CHR '' '' line))
        (\<lambda>location.
          if isNextTravel s then Inr (getMovementLineWithHop u s1 location, s1)
          else if justDeactivated s
          then (case oldLocation s of
                  None \<Rightarrow> Inl AttributeError
                | Some old \<Rightarrow>
                    if Vec3_distance location old = 0 then Inl ZeroDivisionError
                    else
                      let alongRatio = min 0.41666666 (layerHopDistance s / Vec3_distance location old)
                      in Inr (line, s1\<lparr>hop_output := hop_output s
                           @ getMovementLineWithHop u s1
                               (Vec3_plus (Vec3_times old (1 - alongRatio))
                                  (Vec3_times location alongRatio)) @ newline
                           @ getMovementLineWithHop u s1
                               (Vec3_plus (Vec3_times old alongRatio)
                                  (Vec3_times location (1 - alongRatio))) @ newline\<rparr>))
          else Inr (line, s1)))"
proof -
  have m: "getMovementLineWithHop u (s'\<lparr>hop_output := out\<rparr>) v = getMovementLineWithHop u s' v"
    for s' out v
    by (simp add: getMovementLineWithHop_def getRounded_def Let_def)
  show ?thesis
    using assms unfolding getHopLine_def
    by (cases "0 < i")
       (simp_all add: withFeedrate_def Let_def HopSkein_addLine_def m isNextTravel_def
          cong: if_cong option.case_cong)
qed

lemma err_bind_eq_Inr: "err_bind m f = Inr r \<longleftrightarrow> (\<exists>v. m = Inr v \<and> f v = Inr r)"
  by (cases m) simp_all

lemma firstWordOf_Nil [simp]: "firstWordOf [] = []"
  by (simp add: firstWordOf_def)

lemma parseLine_afterMove:
  "HopSkein_parseLine u s line =
     (if line = [] then Inr s
      else err_bind
        (if firstWordOf line = ''G1''
         then err_bind (getHopLine u s line) (\<lambda>(hopLine, s1).
              err_bind (getLocationFromSplitLine u (oldLocation s1) (split_on CHR '' '' line))
                (\<lambda>location.
                   Inr (hopLine, s1\<lparr>oldLocation := Some location, justDeactivated := False\<rparr>)))
         else Inr (line, s)) (\<lambda>(line1, s2). afterMove (firstWordOf line) line1 s2))"
proof -
  have "split_on CHR '' '' line \<noteq> []" by (induction line) (auto split: list.splits)
  then have "\<not> length (split_on CHR '' '' line) < 1" by (cases "split_on CHR '' '' line") auto
  then show ?thesis
    unfolding HopSkein_parseLine_def afterMove_def by (simp add: Let_def)
qed

lemma afterMove_G1 [simp]: "afterMove ''G1'' line1 s2 = Inr (HopSkein_addLine s2 line1)"
  by (simp add: afterMove_def)

lemma afterMove_output:
  "afterMove w line1 s2 = Inr s' \<Longrightarrow> hop_output s' = hop_output s2 @ line1 @ newline"
  unfolding afterMove_def
  by (auto simp: err_bind_eq_Inr Let_def HopSkein_addLine_def split: if_splits)

lemma afterMove_returns:
  "(w = ''(<layerStart>'' \<or> w = ''(<bridgeLayer>'' \<longrightarrow> minimumSlope s2 \<noteq> 0)
   \<Longrightarrow> \<exists>s'. afterMove w line1 s2 = Inr s'"
  unfolding afterMove_def by (auto simp: Let_def)

lemma getHopLine_Inr_index:
  assumes "getHopLine u s line = Inr r"
  shows "\<exists>i. indexOfStartingWithSecond u ''F'' (split_on CHR '' '' line) = Inr i
     \<and> (0 < i \<longrightarrow> nat i < length (split_on CHR '' '' line))"
proof (cases "indexOfStartingWithSecond u ''F'' (split_on CHR '' '' line)")
  case (Inl e)
  then have "getHopLine u s line = Inl e" unfolding getHopLine_def by (simp add: Let_def)
  then show ?thesis using assms by simp
next
  case (Inr i)
  show ?thesis
  proof (cases "0 < i \<and> \<not> nat i < length (split_on CHR '' '' line)")
    case True
    then have "getHopLine u s line = Inl IndexError"
      unfolding getHopLine_def using Inr by (simp add: Let_def)
    then show ?thesis using assms by simp
  next
    case False
    then show ?thesis using Inr by auto
  qed
qed

lemma getHopLine_active:
  assumes "extruderActive s" "getHopLine u s line = Inr (l, s1)"
  shows "l = line \<and> hop_output s1 = hop_output s \<and> oldLocation s1 = oldLocation s
     \<and> minimumSlope s1 = minimumSlope s"
proof -
  obtain i where i: "indexOfStartingWithSecond u ''F'' (split_on CHR '' '' line) = Inr i"
    "0 < i \<longrightarrow> nat i < length (split_on CHR '' '' line)"
    using getHopLine_Inr_index [OF assms(2)] by blast
  show ?thesis
    using assms by (auto simp: getHopLine_feed [OF i] Let_def)
qed

lemma getHopLine_feedrate:
  assumes g: "getHopLine u s line = Inr (l, s1)"
    and i: "indexOfStartingWithSecond u ''F'' (split_on CHR '' '' line) = Inr i"
  shows "feedrateString s1 = feedrateString (withFeedrate s (split_on CHR '' '' line) i)"
proof -
  obtain k where k: "indexOfStartingWithSecond u ''F'' (split_on CHR '' '' line) = Inr k"
    "0 < k \<longrightarrow> nat k < length (split_on CHR '' '' line)"
    using getHopLine_Inr_index [OF g] by blast
  have ki: "k = i" using k(1) i by simp
  show ?thesis
  proof (cases "extruderActive s")
    case True
    then show ?thesis using g by (auto simp: getHopLine_feed [OF k] Let_def ki)
  next
    case False
    obtain loc where loc: "getLocationFromSplitLine u (oldLocation s) (split_on CHR '' '' line) = Inr loc"
      using g False by (cases "getLocationFromSplitLine u (oldLocation s) (split_on CHR '' '' line)")
        (simp_all add: getHopLine_feed [OF k] Let_def)
    show ?thesis
    proof (cases "isNextTravel s")
      case True
      then show ?thesis using g False loc by (auto simp: getHopLine_feed [OF k] Let_def ki)
    next
      case nt: False
      show ?thesis
      proof (cases "justDeactivated s")
        case False
        then show ?thesis
          using g \<open>\<not> extruderActive s\<close> loc nt by (auto simp: getHopLine_feed [OF k] Let_def ki)
      next
        case True
        then obtain old where old: "oldLocation s = Some old"
          using g \<open>\<not> extruderActive s\<close> nt loc
          by (cases "oldLocation s") (simp_all add: getHopLine_feed [OF k] Let_def)
        show ?thesis
          using g \<open>\<not> extruderActive s\<close> loc nt True old
          by (cases "Vec3_distance loc old = 0") (auto simp: getHopLine_feed [OF k] Let_def ki)
      qed
    qed
  qed
qed

lemma afterMove_feedrate:
  "afterMove w line1 s2 = Inr s' \<Longrightarrow> feedrateString s' = feedrateString s2"
  unfolding afterMove_def
  by (auto simp: err_bind_eq_Inr Let_def HopSkein_addLine_def split: if_splits)

lemma parseLine_feedrate:
  assumes r: "HopSkein_parseLine u s line = Inr s'"
  shows "feedrateString s' = feedrateAfter u s line"
proof (cases "line = []")
  case True
  then show ?thesis using r by (simp add: parseLine_afterMove feedrateAfter_def)
next
  case ne: False
  show ?thesis
  proof (cases "firstWordOf line = ''G1''")
    case True
    from r obtain hopLine s1 location where
      g: "getHopLine u s line = Inr (hopLine, s1)" and
      s': "s' = HopSkein_addLine (s1\<lparr>oldLocation := Some location, justDeactivated := False\<rparr>) hopLine"
      using ne True by (auto simp: parseLine_afterMove err_bind_eq_Inr)
    obtain i where i: "indexOfStartingWithSecond u ''F'' (split_on CHR '' '' line) = Inr i"
      using getHopLine_Inr_index [OF g] by blast
    show ?thesis
      using getHopLine_feedrate [OF g i] True i
      by (simp add: s' HopSkein_addLine_def feedrateAfter_def withFeedrate_def)
  next
    case False
    then have "afterMove (firstWordOf line) line s = Inr s'"
      using r ne by (simp add: parseLine_afterMove)
    then show ?thesis using False by (simp add: afterMove_feedrate feedrateAfter_def)
  qed
qed

lemma moveParsesE:
  assumes "moveParses u s line"
  obtains i loc where "indexOfStartingWithSecond u ''F'' (split_on CHR '' '' line) = Inr i"
    "0 < i \<longrightarrow> nat i < length (split_on CHR '' '' line)"
    "getLocationFromSplitLine u (oldLocation s) (split_on CHR '' '' line) = Inr loc"
  using assms unfolding moveParses_def
  by (cases "indexOfStartingWithSecond u ''F'' (split_on CHR '' '' line)";
      cases "getLocationFromSplitLine u (oldLocation s) (split_on CHR '' '' line)") auto

lemma active_safe:
  assumes a: "extruderActive s" and r: "HopSkein_parseLine u s line = Inr s'"
  shows "hop_output s' = hop_output s @ (if line = [] then [] else line @ newline)"
proof (cases "line = []")
  case True
  then show ?thesis using r by (simp add: parseLine_afterMove)
next
  case ne: False
  show ?thesis
  proof (cases "firstWordOf line = ''G1''")
    case True
    from r obtain hopLine s1 location where
      g: "getHopLine u s line = Inr (hopLine, s1)" and
      s': "s' = HopSkein_addLine (s1\<lparr>oldLocation := Some location, justDeactivated := False\<rparr>) hopLine"
      using ne True by (auto simp: parseLine_afterMove err_bind_eq_Inr)
    show ?thesis
      using getHopLine_active [OF a g] ne by (simp add: s' HopSkein_addLine_def)
  next
    case False
    then have "afterMove (firstWordOf line) line s = Inr s'"
      using r ne by (simp add: parseLine_afterMove)
    then show ?thesis using ne by (simp add: afterMove_output)
  qed
qed

lemma active_returns:
  assumes a: "extruderActive s"
    and m: "firstWordOf line = ''G1'' \<longrightarrow> moveParses u s line"
    and z: "firstWordOf line = ''(<layerStart>'' \<or> firstWordOf line = ''(<bridgeLayer>''
              \<longrightarrow> minimumSlope s \<noteq> 0"
  shows "\<exists>s'. HopSkein_parseLine u s line = Inr s'"
proof (cases "line = []")
  case True
  then show ?thesis by (simp add: parseLine_afterMove)
next
  case ne: False
  show ?thesis
  proof (cases "firstWordOf line = ''G1''")
    case True
    then obtain i loc where i: "indexOfStartingWithSecond u ''F'' (split_on CHR '' '' line) = Inr i"
      "0 < i \<longrightarrow> nat i < length (split_on CHR '' '' line)"
      and loc: "getLocationFromSplitLine u (oldLocation s) (split_on CHR '' '' line) = Inr loc"
      using m by (auto elim: moveParsesE)
    show ?thesis
      using a ne True loc by (simp add: parseLine_afterMove getHopLine_feed [OF i] Let_def)
  next
    case False
    then show ?thesis
      using ne afterMove_returns [OF z, of line] by (simp add: parseLine_afterMove)
  qed
qed

lemma getHopLine_last_travel:
  assumes i: "\<not> extruderActive s" and n: "\<not> isNextTravel s"
    and g: "getHopLine u s line = Inr (l, s1)"
  shows "l = line \<and> oldLocation s1 = oldLocation s
     \<and> (\<exists>ramp. hop_output s1 = hop_output s @ ramp \<and> (\<not> justDeactivated s \<longrightarrow> ramp = []))"
proof -
  obtain i where i: "indexOfStartingWithSecond u ''F'' (split_on CHR '' '' line) = Inr i"
    "0 < i \<longrightarrow> nat i < length (split_on CHR '' '' line)"
    using getHopLine_Inr_index [OF g] by blast
  obtain loc where loc: "getLocationFromSplitLine u (oldLocation s) (split_on CHR '' '' line) = Inr loc"
    using g assms(1) by (cases "getLocationFromSplitLine u (oldLocation s) (split_on CHR '' '' line)")
      (simp_all add: getHopLine_feed [OF i] Let_def)
  show ?thesis
  proof (cases "justDeactivated s")
    case False
    then show ?thesis
      using g assms(1) n loc by (auto simp: getHopLine_feed [OF i] Let_def)
  next
    case True
    then obtain old where old: "oldLocation s = Some old"
      using g assms(1) n loc by (cases "oldLocation s") (simp_all add: getHopLine_feed [OF i] Let_def)
    have d: "Vec3_distance loc old \<noteq> 0"
    proof
      assume "Vec3_distance loc old = 0"
      then have "getHopLine u s line = Inl ZeroDivisionError"
        using assms(1) n loc True old by (simp add: getHopLine_feed [OF i] Let_def)
      then show False using g by simp
    qed
    show ?thesis
      using g assms(1) n loc True old d by (auto simp: getHopLine_feed [OF i] Let_def)
  qed
qed

lemma last_travel_safe:
  assumes i: "\<not> extruderActive s" and w: "firstWordOf line = ''G1''"
    and n: "\<not> travelAhead (drop (lineIndex s + 1) (lines s))"
    and r: "HopSkein_parseLine u s line = Inr s'"
  shows "\<exists>ramp. hop_output s' = hop_output s @ ramp @ line @ newline
           \<and> (\<not> justDeactivated s \<longrightarrow> ramp = [])"
proof -
  have ne: "line \<noteq> []" using w by auto
  have nt: "\<not> isNextTravel s" using n by (simp add: isNextTravel_travelAhead)
  from r obtain hopLine s1 location where
    g: "getHopLine u s line = Inr (hopLine, s1)" and
    s': "s' = HopSkein_addLine (s1\<lparr>oldLocation := Some location, justDeactivated := False\<rparr>) hopLine"
    using ne w by (auto simp: parseLine_afterMove err_bind_eq_Inr)
  obtain ramp where "hopLine = line" "hop_output s1 = hop_output s @ ramp"
    "\<not> justDeactivated s \<longrightarrow> ramp = []"
    using getHopLine_last_travel [OF i nt g] by blast
  then show ?thesis
    by (intro exI [of _ ramp]) (simp add: s' HopSkein_addLine_def)
qed

lemma last_travel_returns:
  assumes i: "\<not> extruderActive s" and w: "firstWordOf line = ''G1''"
    and n: "\<not> travelAhead (drop (lineIndex s + 1) (lines s))"
    and m: "moveParses u s line"
    and d: "justDeactivated s \<longrightarrow> rampDefined u s line"
  shows "\<exists>s'. HopSkein_parseLine u s line = Inr s'"
proof -
  have ne: "line \<noteq> []" using w by auto
  have nt: "\<not> isNextTravel s" using n by (simp add: isNextTravel_travelAhead)
  obtain i loc where i: "indexOfStartingWithSecond u ''F'' (split_on CHR '' '' line) = Inr i"
    "0 < i \<longrightarrow> nat i < length (split_on CHR '' '' line)"
    and loc: "getLocationFromSplitLine u (oldLocation s) (split_on CHR '' '' line) = Inr loc"
    using m by (auto elim: moveParsesE)
  show ?thesis
  proof (cases "justDeactivated s")
    case False
    then show ?thesis
      using assms(1) ne w nt loc by (simp add: parseLine_afterMove getHopLine_feed [OF i] Let_def)
  next
    case True
    then obtain old where old: "oldLocation s = Some old" and z: "Vec3_distance loc old \<noteq> 0"
      using d loc by (auto simp: rampDefined_def split: option.splits)
    show ?thesis
      using assms(1) ne w nt loc True old z
      by (simp add: parseLine_afterMove getHopLine_feed [OF i] Let_def)
  qed
qed

lemma travel_hop:
  assumes i: "\<not> extruderActive s" and w: "firstWordOf line = ''G1''"
    and n: "travelAhead (drop (lineIndex s + 1) (lines s))"
    and ix: "indexOfStartingWithSecond u ''F'' (split_on CHR '' '' line) = Inr i"
    and rg: "0 < i \<longrightarrow> nat i < length (split_on CHR '' '' line)"
    and loc: "getLocationFromSplitLine u (oldLocation s) (split_on CHR '' '' line) = Inr loc"
    and f: "f = (if 0 < i then split_on CHR '' '' line ! nat i else feedrateString s)"
  shows "\<exists>s'. HopSkein_parseLine u s line = Inr s'
     \<and> hop_output s' = hop_output s
          @ ''G1 X'' @ getRoundedToDecimalPlaces u (decimalPlacesCarried s) (vx loc)
          @ '' Y'' @ getRoundedToDecimalPlaces u (decimalPlacesCarried s) (vy loc)
          @ '' Z'' @ getRoundedToDecimalPlaces u (decimalPlacesCarried s) (vz loc + layerHopHeight s)
          @ (if f \<noteq> [] then '' '' @ f else []) @ newline
     \<and> feedrateString s' = f \<and> oldLocation s' = Some loc
     \<and> \<not> justDeactivated s' \<and> \<not> extruderActive s'"
proof -
  have ne: "line \<noteq> []" using w by auto
  have nt: "isNextTravel s" using n by (simp add: isNextTravel_travelAhead)
  show ?thesis
    using i ne w nt loc f
    by (simp add: parseLine_afterMove getHopLine_feed [OF ix rg] Let_def HopSkein_addLine_def
        getMovementLineWithHop_def getRounded_def withFeedrate_def)
qed

lemma travel_ramp:
  assumes i: "\<not> extruderActive s" and w: "firstWordOf line = ''G1''"
    and jd: "justDeactivated s"
    and n: "\<not> travelAhead (drop (lineIndex s + 1) (lines s))"
    and ix: "indexOfStartingWithSecond u ''F'' (split_on CHR '' '' line) = Inr i"
    and rg: "0 < i \<longrightarrow> nat i < length (split_on CHR '' '' line)"
    and loc: "getLocationFromSplitLine u (oldLocation s) (split_on CHR '' '' line) = Inr L"
    and old: "oldLocation s = Some P"
    and d: "Vec3_distance L P \<noteq> 0"
    and r: "alongRatio = min 0.41666666 (layerHopDistance s / Vec3_distance L P)"
    and s1: "s1 = withFeedrate s (split_on CHR '' '' line) i"
  shows "\<exists>s'. HopSkein_parseLine u s line = Inr s'
     \<and> hop_output s' = hop_output s
          @ getMovementLineWithHop u s1 (blend P L alongRatio) @ newline
          @ getMovementLineWithHop u s1 (blend P L (1 - alongRatio)) @ newline
          @ line @ newline
     \<and> \<not> justDeactivated s' \<and> oldLocation s' = Some L"
proof -
  have ne: "line \<noteq> []" using w by auto
  have nt: "\<not> isNextTravel s" using n by (simp add: isNextTravel_travelAhead)
  show ?thesis
    using i ne w nt loc jd old d r s1
    by (simp add: parseLine_afterMove getHopLine_feed [OF ix rg] Let_def HopSkein_addLine_def
        blend_def)
qed

lemma not_isl_bind:
  "\<not> isl (err_bind m f) \<Longrightarrow> \<exists>w v. m = Inr w \<and> f w = Inr v"
  by (cases m; cases "f (projr m)") (auto simp: isl_def)

lemma parseInitializationLine_no_start:
  assumes "firstWordOf line \<noteq> ''(<extrusionStart>''" "initLineParses u line"
  shows "\<exists>s'. parseInitializationLine u prefs s line = Inr (False, s')
     \<and> hop_output s' = hop_output s @ line @ newline
     \<and> lineIndex s' = lineIndex s \<and> sameControl s s'"
proof -
  consider (h) "firstWordOf line = ''(<extrusionHeight>''"
    | (b) "firstWordOf line = ''(<bridgeExtrusionWidthOverSolid>''"
    | (d) "firstWordOf line = ''(<decimalPlacesCarried>''"
    | (o) "firstWordOf line \<noteq> ''(<extrusionHeight>''"
          "firstWordOf line \<noteq> ''(<bridgeExtrusionWidthOverSolid>''"
          "firstWordOf line \<noteq> ''(<decimalPlacesCarried>''"
    by blast
  then show ?thesis
  proof cases
    case h
    then obtain w v where "secondWord (split_on CHR '' '' line) = Inr w" "pyFloat u w = Inr v"
      using assms(2) not_isl_bind unfolding initLineParses_def Let_def by blast
    then show ?thesis
      using h by (simp add: parseInitializationLine_def Let_def HopSkein_addLine_def sameControl_def)
  next
    case b
    then obtain w v where "secondWord (split_on CHR '' '' line) = Inr w" "pyFloat u w = Inr v"
      using assms(2) not_isl_bind unfolding initLineParses_def Let_def by blast
    then show ?thesis
      using b by (simp add: parseInitializationLine_def Let_def HopSkein_addLine_def sameControl_def)
  next
    case d
    then obtain w v where "secondWord (split_on CHR '' '' line) = Inr w" "py_int w = Inr v"
      using assms(2) not_isl_bind unfolding initLineParses_def Let_def by blast
    then show ?thesis
      using d by (simp add: parseInitializationLine_def Let_def HopSkein_addLine_def sameControl_def)
  next
    case o
    then show ?thesis
      using assms(1)
      by (simp add: parseInitializationLine_def Let_def HopSkein_addLine_def sameControl_def)
  qed
qed

lemma parseInitializationFrom_no_start:
  assumes "\<forall>line \<in> set ls. firstWordOf line \<noteq> ''(<extrusionStart>'' \<and> initLineParses u line"
  shows "\<exists>s'. parseInitializationFrom u prefs ls i s = Inr s'
     \<and> hop_output s' = hop_output s @ concat (map (\<lambda>l. l @ newline) ls)
     \<and> lineIndex s' = (if ls = [] then lineIndex s else i + length ls - 1)
     \<and> sameControl s s'"
  using assms
proof (induction ls arbitrary: i s)
  case Nil
  show ?case by (simp add: sameControl_def)
next
  case (Cons line ls)
  obtain s1 where s1: "parseInitializationLine u prefs (s\<lparr>lineIndex := i\<rparr>) line = Inr (False, s1)"
    "hop_output s1 = hop_output (s\<lparr>lineIndex := i\<rparr>) @ line @ newline"
    "lineIndex s1 = lineIndex (s\<lparr>lineIndex := i\<rparr>)" "sameControl (s\<lparr>lineIndex := i\<rparr>) s1"
    using parseInitializationLine_no_start [of line u prefs "s\<lparr>lineIndex := i\<rparr>"] Cons.prems
    by auto
  obtain s' where s': "parseInitializationFrom u prefs ls (Suc i) s1 = Inr s'"
    "hop_output s' = hop_output s1 @ concat (map (\<lambda>l. l @ newline) ls)"
    "lineIndex s' = (if ls = [] then lineIndex s1 else Suc i + length ls - 1)"
    "sameControl s1 s'"
    using Cons.IH [of "Suc i" s1] Cons.prems by auto
  show ?case
    using s1 s' by (intro exI [of _ s']) (auto simp: sameControl_def)
qed

lemma moveParses_cong: "oldLocation s = oldLocation t \<Longrightarrow> moveParses u s line = moveParses u t line"
  by (auto simp: moveParses_def split: sum.splits)

lemma last_line_pass:
  assumes a: "\<not> extruderActive s" "\<not> justDeactivated s"
    and e: "drop (Suc (lineIndex s)) (lines s) = []"
    and m: "firstWordOf line = ''G1'' \<longrightarrow> moveParses u s line"
    and z: "firstWordOf line = ''(<layerStart>'' \<or> firstWordOf line = ''(<bridgeLayer>''
              \<longrightarrow> minimumSlope s \<noteq> 0"
  shows "\<exists>s'. HopSkein_parseLine u s line = Inr s'
     \<and> hop_output s' = hop_output s @ (if line = [] then [] else line @ newline)"
proof (cases "line = []")
  case True
  then show ?thesis by (simp add: parseLine_afterMove)
next
  case ne: False
  show ?thesis
  proof (cases "firstWordOf line = ''G1''")
    case True
    have n: "\<not> travelAhead (drop (lineIndex s + 1) (lines s))"
      using e by (simp add: travelAhead_def)
    obtain s' where s': "HopSkein_parseLine u s line = Inr s'"
      using last_travel_returns [OF a(1) True n] m True a(2) by blast
    obtain ramp where "hop_output s' = hop_output s @ ramp @ line @ newline"
      "\<not> justDeactivated s \<longrightarrow> ramp = []"
      using last_travel_safe [OF a(1) True n s'] by blast
    then show ?thesis using s' a(2) ne by simp
  next
    case False
    obtain s' where s': "afterMove (firstWordOf line) line s = Inr s'"
      using afterMove_returns [OF z, of line] by blast
    then show ?thesis
      using False ne afterMove_output [OF s'] by (simp add: parseLine_afterMove)
  qed
qed

lemma no_start_output:
  assumes t: "T \<noteq> []" and p: "isProcedureDone u T ''hop'' = Inr False" and act: "activateHop prefs"
    and init: "\<forall>line \<in> set (getTextLines u T).
        firstWordOf line \<noteq> ''(<extrusionStart>'' \<and> initLineParses u line"
    and m: "getTextLines u T \<noteq> [] \<and> firstWordOf (last (getTextLines u T)) = ''G1''
        \<longrightarrow> moveParses u HopSkein_init (last (getTextLines u T))"
    and z: "getTextLines u T \<noteq> [] \<and> (firstWordOf (last (getTextLines u T)) = ''(<layerStart>''
          \<or> firstWordOf (last (getTextLines u T)) = ''(<bridgeLayer>'')
        \<longrightarrow> tanRadians u (minimumHopAngle prefs) \<noteq> 0"
  shows "getHopGcode u T (Some prefs) =
     Inr (concat (map (\<lambda>l. l @ newline) (getTextLines u T))
          @ (if getTextLines u T = [] \<or> last (getTextLines u T) = [] then []
             else last (getTextLines u T) @ newline))"
proof -
  define L where "L = getTextLines u T"
  define s1 where "s1 = HopSkein_init\<lparr>lines := L,
      minimumSlope := tanRadians u (minimumHopAngle prefs)\<rparr>"
  obtain s2 where s2: "parseInitializationFrom u prefs L 0 s1 = Inr s2"
    "hop_output s2 = hop_output s1 @ concat (map (\<lambda>l. l @ newline) L)"
    "lineIndex s2 = (if L = [] then lineIndex s1 else 0 + length L - 1)"
    "sameControl s1 s2"
    using parseInitializationFrom_no_start [of L u prefs 0 s1] init unfolding L_def by blast
  have pg: "HopSkein_parseGcode u T prefs HopSkein_init =
      parseLinesFrom u (drop (lineIndex s2) (lines s2)) (lineIndex s2) s2"
  proof -
    have l1: "lines s1 = L" by (simp add: s1_def)
    have "parseInitialization u prefs s1 = Inr s2"
      using s2(1) by (simp add: parseInitialization_def l1)
    then show ?thesis
      unfolding HopSkein_parseGcode_def Let_def L_def [symmetric] s1_def [symmetric] by simp
  qed
  have ls2: "lines s2 = L" using s2(4) by (simp add: sameControl_def s1_def)
  have out1: "hop_output s1 = []" by (simp add: s1_def HopSkein_init_def)
  show ?thesis
  proof (cases "L = []")
    case True
    then have "HopSkein_parseGcode u T prefs HopSkein_init = Inr s2"
      using pg ls2 by simp
    then show ?thesis
      using t p act True s2(2) out1 by (simp add: getHopGcode_def L_def [symmetric])
  next
    case False
    then have li: "lineIndex s2 = length L - 1" using s2(3) by simp
    have dl: "drop (length L - 1) L = [last L]"
    proof -
      have "L = butlast L @ [last L]" using False by simp
      then have "drop (length (butlast L)) L = [last L]"
        by (metis append_eq_conv_conj)
      then show ?thesis by simp
    qed
    define s3 where "s3 = s2\<lparr>lineIndex := length L - 1\<rparr>"
    have c3: "\<not> extruderActive s3" "\<not> justDeactivated s3" "oldLocation s3 = None"
      "minimumSlope s3 = tanRadians u (minimumHopAngle prefs)" "lines s3 = L"
      "lineIndex s3 = length L - 1" "hop_output s3 = hop_output s2"
      using s2(4) by (simp_all add: s3_def sameControl_def s1_def HopSkein_init_def)
    have e: "drop (Suc (lineIndex s3)) (lines s3) = []"
      using False by (simp add: c3)
    have mp: "firstWordOf (last L) = ''G1'' \<longrightarrow> moveParses u s3 (last L)"
      using m False moveParses_cong [of s3 HopSkein_init u "last L"] c3(3)
      by (simp add: L_def [symmetric] HopSkein_init_def)
    have zz: "firstWordOf (last L) = ''(<layerStart>'' \<or> firstWordOf (last L) = ''(<bridgeLayer>''
        \<longrightarrow> minimumSlope s3 \<noteq> 0"
      using z False by (simp add: L_def [symmetric] c3)
    obtain s' where s': "HopSkein_parseLine u s3 (last L) = Inr s'"
      "hop_output s' = hop_output s3 @ (if last L = [] then [] else last L @ newline)"
      using last_line_pass [OF c3(1,2) e mp zz] by blast
    have "HopSkein_parseGcode u T prefs HopSkein_init = Inr s'"
      using pg ls2 li dl s'(1) by (simp add: s3_def)
    then show ?thesis
      using t p act False s'(2) s2(2) out1 c3(7) by (simp add: getHopGcode_def L_def [symmetric])
  qed
qed

lemma show_digit_no_space: "CHR '' '' \<noteq> show_digit d"
  by (simp add: show_digit_def)

lemma show_nat_no_space: "CHR '' '' \<notin> set (show_nat n)"
proof (induction n rule: show_nat.induct)
  case (1 n)
  show ?case
  proof (cases "n < 10")
    case True
    then show ?thesis by (subst show_nat.simps) (simp add: show_digit_no_space)
  next
    case False
    then show ?thesis using 1 by (subst show_nat.simps) (simp add: show_digit_no_space)
  qed
qed

lemma frac_digits_no_space: "CHR '' '' \<notin> set (frac_digits n m)"
proof (induction n m rule: frac_digits.induct)
  case (1 n m)
  show ?case
  proof (cases "n = 0")
    case True
    then show ?thesis by (subst frac_digits.simps) simp
  next
    case False
    then show ?thesis using 1 by (subst frac_digits.simps) (simp add: show_digit_no_space)
  qed
qed

lemma strip_zeros_no_space: "CHR '' '' \<notin> set ds \<Longrightarrow> CHR '' '' \<notin> set (strip_zeros ds)"
proof -
  assume a: "CHR '' '' \<notin> set ds"
  have "set (dropWhile (\<lambda>c. c = CHR ''0'') (rev ds)) \<subseteq> set ds"
    using set_dropWhileD by fastforce
  then show ?thesis using a by (auto simp: strip_zeros_def Let_def)
qed

lemma spaceFree_spec: "spaceFree spec_utilities"
  by (simp add: spaceFree_def spec_utilities_def spec_rounded_def Let_def show_nat_no_space
      strip_zeros_no_space frac_digits_no_space)

lemma join_sp_Cons: "ts \<noteq> [] \<Longrightarrow> join_sp (t # ts) = t @ CHR '' '' # join_sp ts"
  by (cases ts) simp_all

lemma join_sp_split: "join_sp (split_on CHR '' '' s) = s"
proof (induction s)
  case Nil
  show ?case by simp
next
  case (Cons a s)
  obtain w ws where sp: "split_on CHR '' '' s = w # ws"
    using split_on_nonempty [of "CHR '' ''" s] by (cases "split_on CHR '' '' s") auto
  show ?case
  proof (cases "a = CHR '' ''")
    case True
    then show ?thesis using Cons sp by simp
  next
    case False
    then show ?thesis using Cons sp by (cases ws) simp_all
  qed
qed

lemma split_on_sep_free: "t \<in> set (split_on c s) \<Longrightarrow> c \<notin> set t"
proof (induction s arbitrary: t)
  case Nil
  then show ?case by simp
next
  case (Cons a s)
  obtain w ws where sp: "split_on c s = w # ws"
    using split_on_nonempty [of c s] by (cases "split_on c s") auto
  show ?case
  proof (cases "a = c")
    case True
    then show ?thesis using Cons by auto
  next
    case False
    then have "t = a # w \<or> t \<in> set ws" using Cons.prems sp by simp
    then show ?thesis
    proof
      assume "t = a # w"
      moreover have "c \<notin> set w" using Cons.IH [of w] sp by simp
      ultimately show ?thesis using False by auto
    next
      assume "t \<in> set ws"
      then show ?thesis using Cons.IH [of t] sp by simp
    qed
  qed
qed

lemma join_sp_head: "join_sp (t # B) = t @ concat (map (\<lambda>b. CHR '' '' # b) B)"
  by (induction B arbitrary: t) (simp_all add: join_sp_Cons)

lemma join_sp_mid:
  "join_sp (A @ t # B) =
     concat (map (\<lambda>a. a @ '' '') A) @ t @ concat (map (\<lambda>b. CHR '' '' # b) B)"
proof (induction A)
  case Nil
  show ?case by (simp add: join_sp_head)
next
  case (Cons a A)
  have "join_sp ((a # A) @ t # B) = a @ CHR '' '' # join_sp (A @ t # B)"
    by (simp add: join_sp_Cons)
  then show ?case using Cons by simp
qed

lemma takeWhile_before:
  "c \<notin> set X \<Longrightarrow> takeWhile (\<lambda>a. a \<noteq> c) (X @ c # r) = X"
  by (induction X) auto

lemma takeWhile_at_space:
  "Y = [] \<or> hd Y = CHR '' '' \<Longrightarrow> takeWhile (\<lambda>a. a \<noteq> CHR '' '') Y = []"
  by (cases Y) auto

lemma dropWhile_at_space:
  "Y = [] \<or> hd Y = CHR '' '' \<Longrightarrow> dropWhile (\<lambda>a. a \<noteq> CHR '' '') Y = Y"
  by (cases Y) auto

lemma takeWhile_token:
  "CHR '' '' \<notin> set num \<Longrightarrow> Y = [] \<or> hd Y = CHR '' ''
   \<Longrightarrow> takeWhile (\<lambda>a. a \<noteq> CHR '' '') (num @ Y) = num"
  by (induction num) (auto simp: takeWhile_at_space)

lemma dropWhile_token:
  "CHR '' '' \<notin> set num \<Longrightarrow> Y = [] \<or> hd Y = CHR '' ''
   \<Longrightarrow> dropWhile (\<lambda>a. a \<noteq> CHR '' '') (num @ Y) = Y"
  by (induction num) (auto simp: dropWhile_at_space)

lemma step_exact:
  assumes c: "c \<noteq> CHR '' ''" and x: "c \<notin> set X" and n: "CHR '' '' \<notin> set num"
    and y: "Y = [] \<or> hd Y = CHR '' ''"
  shows "getLineWithTruncatedNumber u s c (X @ c # num @ Y) =
     (if num = [] then Inr (X @ c # num @ Y)
      else err_bind (pyFloat u num) (\<lambda>v.
        Inr (X @ c # getRoundedToDecimalPlacesString u (decimalPlacesExported s) v @ Y)))"
  using x
  by (simp add: getLineWithTruncatedNumber_nf [OF c] takeWhile_before Let_def
      takeWhile_token [OF n y] dropWhile_token [OF n y])

lemma set_join_sp: "x \<in> set (join_sp ts) \<Longrightarrow> x = CHR '' '' \<or> (\<exists>t \<in> set ts. x \<in> set t)"
  by (induction ts rule: join_sp.induct) auto

lemma step_absent:
  assumes "c \<noteq> CHR '' ''" "\<forall>t \<in> set ts. c \<notin> set t"
  shows "getLineWithTruncatedNumber u s c (join_sp ts) = Inr (join_sp ts)"
proof -
  have "c \<notin> set (join_sp ts)" using assms set_join_sp [of c ts] by blast
  then show ?thesis by (simp add: getLineWithTruncatedNumber_nf [OF assms(1)])
qed

lemma step_token:
  assumes c: "c \<noteq> CHR '' ''" and a: "\<forall>a \<in> set A. c \<notin> set a" and n: "CHR '' '' \<notin> set num"
  shows "getLineWithTruncatedNumber u s c (join_sp (A @ (c # num) # B)) =
     (if num = [] then Inr (join_sp (A @ (c # num) # B))
      else err_bind (pyFloat u num) (\<lambda>v.
        Inr (join_sp (A @ (c # getRoundedToDecimalPlacesString u (decimalPlacesExported s) v) # B))))"
proof -
  define X where "X = concat (map (\<lambda>a. a @ '' '') A)"
  define Y where "Y = concat (map (\<lambda>b. CHR '' '' # b) B)"
  have x: "c \<notin> set X" using c a by (auto simp: X_def)
  have y: "Y = [] \<or> hd Y = CHR '' ''" by (cases B) (simp_all add: Y_def)
  have j: "join_sp (A @ (c # w) # B) = X @ c # w @ Y" for w
    by (simp add: join_sp_mid X_def Y_def)
  show ?thesis
    unfolding j by (rule step_exact [OF c x n y])
qed

lemma at_most_one_split:
  assumes "length (filter P ts) \<le> 1" "t \<in> set ts" "P t"
  obtains A B where "ts = A @ t # B" "\<forall>a \<in> set A. \<not> P a" "\<forall>b \<in> set B. \<not> P b"
proof -
  obtain A B where ab: "ts = A @ t # B" using assms(2) by (meson split_list)
  have "length (filter P A) + Suc (length (filter P B)) \<le> 1"
    using assms(1,3) by (simp add: ab)
  then have "filter P A = []" "filter P B = []" by simp_all
  then have "\<forall>a \<in> set A. \<not> P a" "\<forall>b \<in> set B. \<not> P b"
    by (simp_all add: filter_empty_conv)
  then show ?thesis using ab that by blast
qed

lemma truncatedToken_Nil_letters [simp]: "truncatedToken u n [] t = t"
  by (cases t) (simp_all add: truncatedToken_def)

lemma truncatedToken_other:
  "c \<notin> set t \<Longrightarrow> truncatedToken u n (c # cs) t = truncatedToken u n cs t"
  by (cases t) (auto simp: truncatedToken_def)

lemma parameterTokens_tail:
  assumes "parameterTokens u n (c # cs) ts"
  shows "parameterTokens u n cs ts"
  unfolding parameterTokens_def
proof (intro conjI ballI impI)
  fix d assume "d \<in> set cs"
  then show "length (filter (\<lambda>t. d \<in> set t) ts) \<le> 1"
    using assms by (simp add: parameterTokens_def)
next
  fix t assume "t \<in> set ts"
  then show "CHR '' '' \<notin> set t" using assms by (simp add: parameterTokens_def)
next
  fix t d assume t: "t \<in> set ts" and d: "d \<in> set cs" and dt: "d \<in> set t"
  have w: "hd t = d \<and> set (tl t) \<inter> set (c # cs) = {}
      \<and> (tl t \<noteq> [] \<longrightarrow> \<not> isl (pyFloat u (tl t))
           \<and> set (getRoundedToDecimalPlacesString u n (projr (pyFloat u (tl t))))
               \<inter> set (CHR '' '' # c # cs) = {})"
    using assms t d dt unfolding parameterTokens_def by simp
  show "hd t = d" using w by simp
  show "set (tl t) \<inter> set cs = {}" using w by auto
  show "\<not> isl (pyFloat u (tl t))" if "tl t \<noteq> []" using w that by simp
  show "set (getRoundedToDecimalPlacesString u n (projr (pyFloat u (tl t))))
      \<inter> set (CHR '' '' # cs) = {}" if "tl t \<noteq> []" using w that by auto
qed

lemma parameterTokens_count:
  "parameterTokens u n cs ts \<Longrightarrow> d \<in> set cs \<Longrightarrow> length (filter (\<lambda>t. d \<in> set t) ts) \<le> 1"
  unfolding parameterTokens_def by blast

lemma parameterTokens_space:
  "parameterTokens u n cs ts \<Longrightarrow> t \<in> set ts \<Longrightarrow> CHR '' '' \<notin> set t"
  unfolding parameterTokens_def by blast

lemma parameterTokens_token:
  "parameterTokens u n cs ts \<Longrightarrow> t \<in> set ts \<Longrightarrow> d \<in> set cs \<Longrightarrow> d \<in> set t \<Longrightarrow>
   hd t = d \<and> set (tl t) \<inter> set cs = {}
   \<and> (tl t \<noteq> [] \<longrightarrow> \<not> isl (pyFloat u (tl t))
        \<and> set (getRoundedToDecimalPlacesString u n (projr (pyFloat u (tl t))))
            \<inter> set (CHR '' '' # cs) = {})"
  unfolding parameterTokens_def by blast

lemma parameterTokens_replace:
  assumes w: "parameterTokens u n (c # cs) (A @ (c # num) # B)"
    and c: "c \<notin> set cs" "c \<noteq> CHR '' ''"
    and r: "set rnd \<inter> set (CHR '' '' # c # cs) = {}"
  shows "parameterTokens u n cs (A @ (c # rnd) # B)"
  unfolding parameterTokens_def
proof (intro conjI ballI impI)
  fix d assume d: "d \<in> set cs"
  have "d \<notin> set (c # rnd)" using d c(1) r by auto
  then have "length (filter (\<lambda>t. d \<in> set t) (A @ (c # rnd) # B))
      \<le> length (filter (\<lambda>t. d \<in> set t) (A @ (c # num) # B))"
    by simp
  also have "\<dots> \<le> 1" using parameterTokens_count [OF w, of d] d by simp
  finally show "length (filter (\<lambda>t. d \<in> set t) (A @ (c # rnd) # B)) \<le> 1" .
next
  fix t assume t: "t \<in> set (A @ (c # rnd) # B)"
  have "\<forall>t \<in> set A \<union> set B. CHR '' '' \<notin> set t"
    using parameterTokens_space [OF w] by auto
  moreover have "CHR '' '' \<notin> set (c # rnd)" using c(2) r by auto
  ultimately show "CHR '' '' \<notin> set t" using t by auto
next
  fix t d assume t: "t \<in> set (A @ (c # rnd) # B)" and d: "d \<in> set cs" and dt: "d \<in> set t"
  have "t \<noteq> c # rnd" using d dt c(1) r by auto
  then have t': "t \<in> set (A @ (c # num) # B)" using t by auto
  have q: "hd t = d \<and> set (tl t) \<inter> set (c # cs) = {}
      \<and> (tl t \<noteq> [] \<longrightarrow> \<not> isl (pyFloat u (tl t))
           \<and> set (getRoundedToDecimalPlacesString u n (projr (pyFloat u (tl t))))
               \<inter> set (CHR '' '' # c # cs) = {})"
    using parameterTokens_token [OF w t' _ dt] d by simp
  show "hd t = d" using q by simp
  show "set (tl t) \<inter> set cs = {}" using q by auto
  show "\<not> isl (pyFloat u (tl t))" if "tl t \<noteq> []" using q that by simp
  show "set (getRoundedToDecimalPlacesString u n (projr (pyFloat u (tl t))))
      \<inter> set (CHR '' '' # cs) = {}" if "tl t \<noteq> []" using q that by auto
qed

lemma truncateLetters_tokens:
  assumes "distinct cs" "CHR '' '' \<notin> set cs"
    and "parameterTokens u (decimalPlacesExported s) cs ts"
  shows "truncateLetters u s cs (join_sp ts) =
     Inr (join_sp (map (truncatedToken u (decimalPlacesExported s) cs) ts))"
  using assms
proof (induction cs arbitrary: ts)
  case Nil
  show ?case by simp
next
  case (Cons c cs)
  define n where "n = decimalPlacesExported s"
  have c: "c \<noteq> CHR '' ''" "c \<notin> set cs" "distinct cs" "CHR '' '' \<notin> set cs"
    using Cons.prems(1,2) by auto
  have w: "parameterTokens u n (c # cs) ts" using Cons.prems(3) by (simp add: n_def)
  show ?case
  proof (cases "\<exists>t \<in> set ts. c \<in> set t")
    case False
    then have s1: "getLineWithTruncatedNumber u s c (join_sp ts) = Inr (join_sp ts)"
      using step_absent [OF c(1)] by blast
    have ih: "truncateLetters u s cs (join_sp ts) = Inr (join_sp (map (truncatedToken u n cs) ts))"
      unfolding n_def
      using Cons.IH [OF c(3,4)] parameterTokens_tail [OF Cons.prems(3)] by blast
    have meq: "map (truncatedToken u n (c # cs)) ts = map (truncatedToken u n cs) ts"
      using False by (simp add: truncatedToken_other)
    show ?thesis unfolding n_def [symmetric] by (simp add: s1 ih meq)
  next
    case True
    then obtain t where t: "t \<in> set ts" "c \<in> set t" by blast
    have one: "length (filter (\<lambda>t. c \<in> set t) ts) \<le> 1"
      using parameterTokens_count [OF w, of c] by simp
    obtain A B where ab: "ts = A @ t # B" "\<forall>a \<in> set A. c \<notin> set a" "\<forall>b \<in> set B. c \<notin> set b"
      using at_most_one_split [OF one t(1), of thesis] t(2) by blast
    have q: "hd t = c" "set (tl t) \<inter> set (c # cs) = {}" "CHR '' '' \<notin> set t"
      "tl t \<noteq> [] \<longrightarrow> \<not> isl (pyFloat u (tl t))
         \<and> set (getRoundedToDecimalPlacesString u n (projr (pyFloat u (tl t))))
             \<inter> set (CHR '' '' # c # cs) = {}"
      using parameterTokens_token [OF w t(1) _ t(2)] parameterTokens_space [OF w t(1)]
      by simp_all
    define num where "num = tl t"
    have tn: "t = c # num" using t(2) q(1) by (cases t) (simp_all add: num_def)
    have ns: "CHR '' '' \<notin> set num" using q(3) tn by simp
    have mapAB: "map (truncatedToken u n (c # cs)) A = map (truncatedToken u n cs) A"
      "map (truncatedToken u n (c # cs)) B = map (truncatedToken u n cs) B"
      using ab(2,3) by (simp_all add: truncatedToken_other)
    show ?thesis
    proof (cases "num = []")
      case True
      have s1: "getLineWithTruncatedNumber u s c (join_sp ts) = Inr (join_sp ts)"
        unfolding ab(1) tn using step_token [OF c(1) ab(2) ns, of u s B] True by simp
      have ih: "truncateLetters u s cs (join_sp ts) = Inr (join_sp (map (truncatedToken u n cs) ts))"
        unfolding n_def
        using Cons.IH [OF c(3,4)] parameterTokens_tail [OF Cons.prems(3)] by blast
      have "truncatedToken u n (c # cs) t = truncatedToken u n cs t"
        using True tn by (simp add: truncatedToken_def)
      then have meq: "map (truncatedToken u n (c # cs)) ts = map (truncatedToken u n cs) ts"
        using mapAB by (simp add: ab(1))
      show ?thesis unfolding n_def [symmetric] by (simp add: s1 ih meq)
    next
      case False
      then have f: "\<not> isl (pyFloat u num)"
        and rr: "set (getRoundedToDecimalPlacesString u n (projr (pyFloat u num)))
             \<inter> set (CHR '' '' # c # cs) = {}"
        using q(4) by (simp_all add: num_def)
      obtain v where v: "pyFloat u num = Inr v" using f by (cases "pyFloat u num") auto
      define rnd where "rnd = getRoundedToDecimalPlacesString u n v"
      have r: "set rnd \<inter> set (CHR '' '' # c # cs) = {}" using rr v by (simp add: rnd_def)
      have s1: "getLineWithTruncatedNumber u s c (join_sp ts) = Inr (join_sp (A @ (c # rnd) # B))"
        unfolding ab(1) tn using step_token [OF c(1) ab(2) ns, of u s B] False v
        by (simp add: rnd_def n_def)
      have w1: "parameterTokens u n cs (A @ (c # rnd) # B)"
        using parameterTokens_replace [OF _ c(2,1) r] w by (simp add: ab(1) tn)
      have ih: "truncateLetters u s cs (join_sp (A @ (c # rnd) # B)) =
          Inr (join_sp (map (truncatedToken u n cs) (A @ (c # rnd) # B)))"
        unfolding n_def using Cons.IH [OF c(3,4)] w1 [unfolded n_def] by blast
      have m1: "truncatedToken u n cs (c # rnd) = c # rnd"
        using c(2) by (simp add: truncatedToken_def)
      have m2: "truncatedToken u n (c # cs) t = c # rnd"
        using False v by (simp add: truncatedToken_def tn rnd_def)
      have meq: "map (truncatedToken u n (c # cs)) ts
          = map (truncatedToken u n cs) (A @ (c # rnd) # B)"
        using mapAB m1 m2 by (simp add: ab(1))
      show ?thesis unfolding n_def [symmetric] by (simp add: s1 ih meq)
    qed
  qed
qed

lemma motion_exact:
  assumes m: "isMotion line"
    and w: "parameterTokens u (decimalPlacesExported s) ''XYZIJR'' (split_on CHR '' '' line)"
  shows "ExportSkein_parseLine u prefs s line =
     Inr (s\<lparr>export_output := export_output s
           @ join_sp (map (truncatedToken u (decimalPlacesExported s) ''XYZIJR'')
                        (split_on CHR '' '' line))
           @ newline\<rparr>)"
proof -
  define line' where "line' = join_sp (map (truncatedToken u (decimalPlacesExported s) ''XYZIJR'')
      (split_on CHR '' '' line))"
  have d: "distinct ''XYZIJR''" "CHR '' '' \<notin> set ''XYZIJR''" by simp_all
  have t: "truncateLetters u s ''XYZIJR'' line = Inr line'"
    using truncateLetters_tokens [OF d w] by (simp add: join_sp_split line'_def)
  have ne: "line' \<noteq> []"
    by (rule chain_nonempty [OF d(2) t isMotion_nonempty [OF m]])
  show ?thesis
    unfolding parseLine_motion [OF m] t line'_def [symmetric]
    using ne by (simp add: ExportSkein_addLine_def)
qed

lemma last_travel_plain:
  assumes i: "\<not> extruderActive s" and w: "firstWordOf line = ''G1''"
    and n: "\<not> travelAhead (drop (lineIndex s + 1) (lines s))"
    and ix: "indexOfStartingWithSecond u ''F'' (split_on CHR '' '' line) = Inr i"
    and rg: "0 < i \<longrightarrow> nat i < length (split_on CHR '' '' line)"
    and loc: "getLocationFromSplitLine u (oldLocation s) (split_on CHR '' '' line) = Inr L"
    and jd: "\<not> justDeactivated s"
  shows "\<exists>s'. HopSkein_parseLine u s line = Inr s'
     \<and> hop_output s' = hop_output s @ line @ newline"
proof -
  have ne: "line \<noteq> []" using w by auto
  have nt: "\<not> isNextTravel s" using n by (simp add: isNextTravel_travelAhead)
  show ?thesis
    using i ne w nt loc jd
    by (simp add: parseLine_afterMove getHopLine_feed [OF ix rg] Let_def HopSkein_addLine_def)
qed

lemma ramp_zero_distance:
  assumes i: "\<not> extruderActive s" and w: "firstWordOf line = ''G1''"
    and jd: "justDeactivated s"
    and n: "\<not> travelAhead (drop (lineIndex s + 1) (lines s))"
    and ix: "indexOfStartingWithSecond u ''F'' (split_on CHR '' '' line) = Inr i"
    and rg: "0 < i \<longrightarrow> nat i < length (split_on CHR '' '' line)"
    and loc: "getLocationFromSplitLine u (oldLocation s) (split_on CHR '' '' line) = Inr L"
    and old: "oldLocation s = Some P"
    and d: "Vec3_distance L P = 0"
  shows "HopSkein_parseLine u s line = Inl ZeroDivisionError"
proof -
  have ne: "line \<noteq> []" using w by auto
  have nt: "\<not> isNextTravel s" using n by (simp add: isNextTravel_travelAhead)
  show ?thesis
    using i ne w nt loc jd old d
    by (simp add: parseLine_afterMove getHopLine_feed [OF ix rg] Let_def)
qed

lemma ramp_no_location:
  assumes i: "\<not> extruderActive s" and w: "firstWordOf line = ''G1''"
    and jd: "justDeactivated s"
    and n: "\<not> travelAhead (drop (lineIndex s + 1) (lines s))"
    and ix: "indexOfStartingWithSecond u ''F'' (split_on CHR '' '' line) = Inr i"
    and rg: "0 < i \<longrightarrow> nat i < length (split_on CHR '' '' line)"
    and loc: "getLocationFromSplitLine u (oldLocation s) (split_on CHR '' '' line) = Inr L"
    and old: "oldLocation s = None"
  shows "HopSkein_parseLine u s line = Inl AttributeError"
proof -
  have ne: "line \<noteq> []" using w by auto
  have nt: "\<not> isNextTravel s" using n by (simp add: isNextTravel_travelAhead)
  show ?thesis
    using i ne w nt loc jd old
    by (simp add: parseLine_afterMove getHopLine_feed [OF ix rg] Let_def)
qed

lemma split_on_join_sp:
  "ts \<noteq> [] \<Longrightarrow> \<forall>t \<in> set ts. CHR '' '' \<notin> set t \<Longrightarrow> split_on CHR '' '' (join_sp ts) = ts"
proof (induction ts rule: join_sp.induct)
  case 1
  then show ?case by simp
next
  case (2 t)
  then show ?case by (simp add: split_on_no_sep)
next
  case (3 t w ts)
  have ih: "split_on CHR '' '' (join_sp (w # ts)) = w # ts" using 3 by simp
  have t: "split_on CHR '' '' t = [t]" using 3(3) by (simp add: split_on_no_sep)
  show ?case
    by (simp add: split_on_append [of _ t] t ih)
qed

lemma truncatedToken_space_free:
  assumes w: "parameterTokens u n cs ts" and s: "CHR '' '' \<notin> set cs" and t: "t \<in> set ts"
  shows "CHR '' '' \<notin> set (truncatedToken u n cs t)"
proof (cases t)
  case Nil
  then show ?thesis by (simp add: truncatedToken_def)
next
  case (Cons c num)
  have sp: "CHR '' '' \<notin> set t" by (rule parameterTokens_space [OF w t])
  show ?thesis
  proof (cases "c \<in> set cs \<and> num \<noteq> []")
    case False
    then show ?thesis using sp Cons by (auto simp: truncatedToken_def)
  next
    case True
    have ct: "c \<in> set t" using Cons by simp
    have q: "\<not> isl (pyFloat u num)
        \<and> set (getRoundedToDecimalPlacesString u n (projr (pyFloat u num)))
            \<inter> set (CHR '' '' # cs) = {}"
      using parameterTokens_token [OF w t _ ct] True Cons by simp
    then obtain v where v: "pyFloat u num = Inr v" by (cases "pyFloat u num") auto
    have "CHR '' '' \<notin> set (getRoundedToDecimalPlacesString u n v)" using q v by auto
    moreover have "c \<noteq> CHR '' ''" using True s by auto
    ultimately show ?thesis using True Cons v by (simp add: truncatedToken_def)
  qed
qed

lemma truncated_tokens_split:
  assumes "parameterTokens u n cs ts" "CHR '' '' \<notin> set cs" "ts \<noteq> []"
  shows "split_on CHR '' '' (join_sp (map (truncatedToken u n cs) ts))
     = map (truncatedToken u n cs) ts"
proof (rule split_on_join_sp)
  show "map (truncatedToken u n cs) ts \<noteq> []" using assms(3) by simp
  show "\<forall>t \<in> set (map (truncatedToken u n cs) ts). CHR '' '' \<notin> set t"
    using truncatedToken_space_free [OF assms(1,2)] by auto
qed

lemma motion_tokens_exact:
  assumes m: "isMotion line"
    and w: "parameterTokens u (decimalPlacesExported s) ''XYZIJR'' (split_on CHR '' '' line)"
  shows "split_on CHR '' '' (join_sp (map (truncatedToken u (decimalPlacesExported s) ''XYZIJR'')
            (split_on CHR '' '' line)))
     = map (truncatedToken u (decimalPlacesExported s) ''XYZIJR'') (split_on CHR '' '' line)"
  by (rule truncated_tokens_split [OF w _ split_on_nonempty]) simp


section \<open>Evaluation of the instance\<close>

lemmas show_nat_eval = show_nat.simps [of 0] show_nat.simps [of "Suc 0"]
  show_nat.simps [of "numeral k"] for k

lemmas frac_digits_eval = frac_digits.simps [of 0] frac_digits.simps [of "Suc 0"]
  frac_digits.simps [of "numeral k"] for k

lemmas spec_eval = spec_utilities_def spec_rounded_def show_nat_eval frac_digits_eval
  strip_zeros_def show_digit_def spec_pyFloat_def spec_exponent_def strip_def is_space_def is_digit_def
  digits_val_def digit_val_def spec_getLocationFromSplitLine_def spec_axis_def
  spec_indexOfStartingWithSecond_def spec_getTextLines_def spec_isProcedureDone_def

lemmas export_eval = getGcode_def ExportSkein_parseGcode_def ExportSkein_parseLine_def
  split_ws_def getLineWithTruncatedNumber_def py_find_def slice_def ExportSkein_addLine_def
  ExportSkein_init_def ExportPreferences_init_def newline_def

lemmas hop_eval = getHopGcode_def HopSkein_parseGcode_def parseInitialization_def
  parseInitializationLine_def HopSkein_parseLine_def getHopLine_def isNextTravel_def
  getMovementLineWithHop_def getRounded_def HopSkein_addLine_def firstWordOf_def
  HopSkein_init_def HopPreferences_init_def secondWord_def newline_def Let_def

section \<open>The claims\<close>

subsection \<open>C1: a stage returns a text that carries its marker unchanged\<close>

text \<open>
  C1. For every text \<open>T\<close> for which \<^verbatim>\<open>gcodec.isProcedureDone\<close> reports the stage's own
  procedure-done marker, the stage returns \<open>T\<close> unchanged: \<^verbatim>\<open>getHopGcode(T) == T\<close> for
  the marker of \<^verbatim>\<open>hop\<close> and \<^verbatim>\<open>getGcode(T) == T\<close> for the marker of \<^verbatim>\<open>export\<close>. The
  check comes before any parsing: the result holds whatever the preferences and the
  other utility functions are, and none of them is consulted.
\<close>

theorem stage_returns_marked_text:
  "(isProcedureDone u T ''hop'' = Inr True \<longrightarrow> getHopGcode u T hopPreferences = Inr T)
   \<and> (isProcedureDone u T ''export'' = Inr True \<longrightarrow> getGcode u T exportPreferences = Inr T)"
  by (simp add: getHopGcode_def getGcode_def)

theorem stage_returns_marked_text_witness:
  "isProcedureDone spec_utilities markedText ''hop'' = Inr True
   \<and> getHopGcode spec_utilities markedText None = Inr markedText
   \<and> isProcedureDone spec_utilities markedText ''export'' = Inr True
   \<and> getGcode spec_utilities markedText None = Inr markedText"
proof -
  have h: "isProcedureDone spec_utilities markedText ''hop'' = Inr True"
    by (simp add: markedText_def spec_eval newline_def)
  have e: "isProcedureDone spec_utilities markedText ''export'' = Inr True"
    by (simp add: markedText_def spec_eval newline_def)
  show ?thesis
    using h e stage_returns_marked_text [of spec_utilities markedText None None] by simp
qed

subsection \<open>C2: comment lines in the export stage\<close>

text \<open>
  C2 as stated fails: with \<^verbatim>\<open>deleteComments\<close> on, \<^verbatim>\<open>parseLine\<close> returns at the comment test,
  which comes before the test for \<^verbatim>\<open>(</extruderInitialization>)\<close>, so the marker
  \<^verbatim>\<open>(<procedureDone> export </procedureDone>)\<close> is not written. On the line
  \<^verbatim>\<open>(</extruderInitialization>)\<close> the skein is left as it was, and the stage run on that
  line followed by \<^verbatim>\<open>M103\<close> writes \<^verbatim>\<open>M103\<close> only.
\<close>

theorem export_marker_not_written_counterexample:
  "deleteComments ExportPreferences_init
   \<and> ExportSkein_parseLine spec_utilities ExportPreferences_init ExportSkein_init
       ''(</extruderInitialization>)'' = Inr ExportSkein_init
   \<and> getGcode spec_utilities (''(</extruderInitialization>)'' @ newline @ ''M103'')
       (Some ExportPreferences_init) = Inr (''M103'' @ newline)
   \<and> \<not> contains ''(<procedureDone> export </procedureDone>)'' (''M103'' @ newline)"
  by (simp add: export_eval spec_eval)

text \<open>
  C2, amended. With \<^verbatim>\<open>deleteComments\<close> on, every line whose first word begins with
  \<^verbatim>\<open>(\<close> is dropped and nothing is written for it, the line
  \<^verbatim>\<open>(</extruderInitialization>)\<close> included (for the comment \<^verbatim>\<open>(<decimalPlacesCarried>\<close>:
  when its count is there and is an integer). The marker
  \<^verbatim>\<open>(<procedureDone> export </procedureDone>)\<close> is written, before the line itself, only
  when \<^verbatim>\<open>deleteComments\<close> is off.
\<close>

theorem export_comment_lines:
  "(deleteComments prefs \<and> split_ws line = (CHR ''('' # cs) # rest
      \<and> (cs = ''<decimalPlacesCarried>'' \<longrightarrow> (\<exists>w ws n. rest = w # ws \<and> py_int w = Inr n))
     \<longrightarrow> (\<exists>s'. ExportSkein_parseLine u prefs s line = Inr s'
            \<and> export_output s' = export_output s))
   \<and> (\<not> deleteComments prefs \<and> split_ws line = ''(</extruderInitialization>)'' # rest
     \<longrightarrow> ExportSkein_parseLine u prefs s line =
           Inr (s\<lparr>export_output := export_output s
                  @ ''(<procedureDone> export </procedureDone>)'' @ newline @ line @ newline\<rparr>))"
  using export_comment_dropped [of prefs line cs rest u s]
    export_marker_kept [of prefs line rest u s]
  by blast

theorem export_comment_lines_witness:
  "deleteComments ExportPreferences_init
   \<and> split_ws ''(<decimalPlacesCarried> 3 )'' = [''(<decimalPlacesCarried>'', ''3'', '')'']
   \<and> py_int ''3'' = Inr 3
   \<and> (\<exists>s'. ExportSkein_parseLine spec_utilities ExportPreferences_init ExportSkein_init
              ''(<decimalPlacesCarried> 3 )'' = Inr s'
          \<and> export_output s' = export_output ExportSkein_init)
   \<and> \<not> deleteComments keepComments
   \<and> split_ws ''(</extruderInitialization>)'' = [''(</extruderInitialization>)'']
   \<and> ExportSkein_parseLine spec_utilities keepComments ExportSkein_init
        ''(</extruderInitialization>)''
      = Inr (ExportSkein_init\<lparr>export_output := export_output ExportSkein_init
           @ ''(<procedureDone> export </procedureDone>)'' @ newline
           @ ''(</extruderInitialization>)'' @ newline\<rparr>)"
proof -
  have a: "deleteComments ExportPreferences_init"
    by (simp add: ExportPreferences_init_def)
  have b: "split_ws ''(<decimalPlacesCarried> 3 )'' = [''(<decimalPlacesCarried>'', ''3'', '')'']"
    by (simp add: split_ws_def is_space_def)
  have c: "py_int ''3'' = Inr 3"
    by (simp add: py_int_def strip_def is_space_def is_digit_def digits_val_def digit_val_def)
  have d: "\<not> deleteComments keepComments"
    by (simp add: keepComments_def ExportPreferences_init_def)
  have e: "split_ws ''(</extruderInitialization>)'' = [''(</extruderInitialization>)'']"
    by (simp add: split_ws_def is_space_def)
  show ?thesis
    using a b c d e
      export_comment_lines [of ExportPreferences_init "''(<decimalPlacesCarried> 3 )''"
        "''<decimalPlacesCarried>''" "[''3'', '')'']" spec_utilities ExportSkein_init]
      export_comment_lines [of keepComments "''(</extruderInitialization>)''"
        "''</extruderInitialization>)''" "[]" spec_utilities ExportSkein_init]
    by simp
qed

subsection \<open>C3: the last travel before the extruder is switched on\<close>

text \<open>
  C3 as stated fails: when \<^verbatim>\<open>isNextTravel\<close> says no and the extruder was just switched
  off, \<^verbatim>\<open>getHopLine\<close> writes the two raised lines of the ramp before the line. In the
  text \<^verbatim>\<open>(<extrusionStart> )\<close>, \<^verbatim>\<open>M101\<close>, \<^verbatim>\<open>G1 X0 Y0 Z0\<close>, \<^verbatim>\<open>M103\<close>, \<^verbatim>\<open>G1 X2 Y0 Z0\<close>,
  \<^verbatim>\<open>M101\<close> no other \<^verbatim>\<open>G1\<close> comes between the travel to \<open>(2, 0, 0)\<close> and the \<^verbatim>\<open>M101\<close>,
  and two lines with \<^verbatim>\<open>Z0.4\<close> are written for it. With \<open>layerHopDistance\<close> 0 the second
  of them is the target of the line itself, raised: \<^verbatim>\<open>G1 X2.0 Y0.0 Z0.4\<close>.
\<close>

theorem hop_ramp_written_counterexample:
  "getHopGcode spec_utilities rampText (Some HopPreferences_init)
     = Inr (''(<procedureDone> hop )'' @ newline @ ''(<extrusionStart> )'' @ newline
            @ ''M101'' @ newline @ ''G1 X0 Y0 Z0'' @ newline @ ''M103'' @ newline
            @ ''G1 X0.4 Y0.0 Z0.4'' @ newline @ ''G1 X1.6 Y0.0 Z0.4'' @ newline
            @ ''G1 X2 Y0 Z0'' @ newline @ ''M101'' @ newline)
   \<and> \<not> extruderActive zeroRampSkein
   \<and> \<not> isNextTravel zeroRampSkein
   \<and> HopSkein_parseLine spec_utilities zeroRampSkein ''G1 X2 Y0 Z0''
     = Inr (zeroRampSkein\<lparr>hop_output := ''G1 X0.0 Y0.0 Z0.4'' @ newline
                @ ''G1 X2.0 Y0.0 Z0.4'' @ newline @ ''G1 X2 Y0 Z0'' @ newline,
              justDeactivated := False,
              oldLocation := Some \<lparr>vx = 2, vy = 0, vz = 0\<rparr>\<rparr>)"
  by (simp add: rampText_def zeroRampSkein_def rampSkein_def hop_eval spec_eval
      Vec3_distance_def Vec3_plus_def Vec3_times_def)

text \<open>
  C3, amended. For every \<^verbatim>\<open>G1\<close> line read while the extruder is inactive,
  \<^verbatim>\<open>isNextTravel\<close> scans the lines after it; when no other \<^verbatim>\<open>G1\<close> comes before the next
  \<^verbatim>\<open>M101\<close> or the end of the lines, the scan says no, and, with \<open>L\<close> the location that
  \<^verbatim>\<open>gcodec\<close> reads from the line:

  \<^item> if the extruder was not just switched off, no hop is applied: the line is written
    as it was read, and nothing else;
  \<^item> if the extruder was just switched off at the location \<open>P\<close> and the distance from
    \<open>P\<close> to \<open>L\<close> is not 0, two raised lines are written before the line as it was read,
    for the blends of \<open>P\<close> and \<open>L\<close> at \<open>min(0.41666666, layerHopDistance / distance)\<close> and
    at one minus that ratio;
  \<^item> if the extruder was just switched off and the distance is 0, the division raises
    \<^verbatim>\<open>ZeroDivisionError\<close>, and with no earlier location the stage raises as well; nothing
    is written then.
\<close>

theorem hop_last_travel_not_elevated:
  assumes "\<not> extruderActive s"
    and "firstWordOf line = ''G1''"
    and "\<not> travelAhead (drop (lineIndex s + 1) (lines s))"
    and "indexOfStartingWithSecond u ''F'' (split_on CHR '' '' line) = Inr i"
    and "0 < i \<longrightarrow> nat i < length (split_on CHR '' '' line)"
    and "getLocationFromSplitLine u (oldLocation s) (split_on CHR '' '' line) = Inr L"
    and "s1 = withFeedrate s (split_on CHR '' '' line) i"
  shows "\<not> isNextTravel s
     \<and> (\<not> justDeactivated s
          \<longrightarrow> (\<exists>s'. HopSkein_parseLine u s line = Inr s'
                 \<and> hop_output s' = hop_output s @ line @ newline))
     \<and> (justDeactivated s \<and> oldLocation s = Some P \<and> Vec3_distance L P \<noteq> 0
          \<longrightarrow> (\<exists>s'. HopSkein_parseLine u s line = Inr s'
                 \<and> hop_output s' = hop_output s
                      @ getMovementLineWithHop u s1
                          (blend P L (min 0.41666666 (layerHopDistance s / Vec3_distance L P)))
                      @ newline
                      @ getMovementLineWithHop u s1
                          (blend P L (1 - min 0.41666666 (layerHopDistance s / Vec3_distance L P)))
                      @ newline
                      @ line @ newline))
     \<and> (justDeactivated s \<and> oldLocation s = Some P \<and> Vec3_distance L P = 0
          \<longrightarrow> HopSkein_parseLine u s line = Inl ZeroDivisionError)
     \<and> (justDeactivated s \<and> oldLocation s = None
          \<longrightarrow> HopSkein_parseLine u s line = Inl AttributeError)"
proof -
  note a = assms(1,2) and n = assms(3) and g = assms(4,5,6)
  have 1: "\<not> isNextTravel s"
    using n by (simp add: isNextTravel_travelAhead)
  have 2: "\<exists>s'. HopSkein_parseLine u s line = Inr s'
      \<and> hop_output s' = hop_output s @ line @ newline" if "\<not> justDeactivated s"
    by (rule last_travel_plain [OF a n g that])
  have 3: "\<exists>s'. HopSkein_parseLine u s line = Inr s'
      \<and> hop_output s' = hop_output s
           @ getMovementLineWithHop u s1
               (blend P L (min 0.41666666 (layerHopDistance s / Vec3_distance L P)))
           @ newline
           @ getMovementLineWithHop u s1
               (blend P L (1 - min 0.41666666 (layerHopDistance s / Vec3_distance L P)))
           @ newline
           @ line @ newline"
    if "justDeactivated s" "oldLocation s = Some P" "Vec3_distance L P \<noteq> 0"
    using travel_ramp [OF a that(1) n g that(2,3) refl assms(7)] by blast
  have 4: "HopSkein_parseLine u s line = Inl ZeroDivisionError"
    if "justDeactivated s" "oldLocation s = Some P" "Vec3_distance L P = 0"
    by (rule ramp_zero_distance [OF a that(1) n g that(2,3)])
  have 5: "HopSkein_parseLine u s line = Inl AttributeError"
    if "justDeactivated s" "oldLocation s = None"
    by (rule ramp_no_location [OF a that(1) n g that(2)])
  show ?thesis
    using 1 2 3 4 5 by blast
qed

theorem hop_last_travel_not_elevated_witness:
  "\<not> extruderActive lastTravelSkein
   \<and> firstWordOf ''G1 X10 Y0 Z0'' = ''G1''
   \<and> \<not> travelAhead (drop (lineIndex lastTravelSkein + 1) (lines lastTravelSkein))
   \<and> \<not> justDeactivated lastTravelSkein
   \<and> (\<exists>s'. HopSkein_parseLine spec_utilities lastTravelSkein ''G1 X10 Y0 Z0'' = Inr s'
         \<and> hop_output s' = ''G1 X10 Y0 Z0'' @ newline)
   \<and> \<not> extruderActive zeroRampSkein
   \<and> firstWordOf ''G1 X2 Y0 Z0'' = ''G1''
   \<and> \<not> travelAhead (drop (lineIndex zeroRampSkein + 1) (lines zeroRampSkein))
   \<and> justDeactivated zeroRampSkein
   \<and> oldLocation zeroRampSkein = Some \<lparr>vx = 0, vy = 0, vz = 0\<rparr>
   \<and> (\<exists>s'. HopSkein_parseLine spec_utilities zeroRampSkein ''G1 X2 Y0 Z0'' = Inr s'
         \<and> hop_output s' = ''G1 X0.0 Y0.0 Z0.4'' @ newline @ ''G1 X2.0 Y0.0 Z0.4'' @ newline
              @ ''G1 X2 Y0 Z0'' @ newline)
   \<and> firstWordOf ''G1 X0 Y0 Z0'' = ''G1''
   \<and> HopSkein_parseLine spec_utilities zeroRampSkein ''G1 X0 Y0 Z0'' = Inl ZeroDivisionError
   \<and> HopSkein_parseLine spec_utilities (zeroRampSkein\<lparr>oldLocation := None\<rparr>) ''G1 X2 Y0 Z0''
      = Inl AttributeError"
proof -
  define P :: Vec3 where "P = \<lparr>vx = 0, vy = 0, vz = 0\<rparr>"
  define L :: Vec3 where "L = \<lparr>vx = 2, vy = 0, vz = 0\<rparr>"
  define T :: Vec3 where "T = \<lparr>vx = 10, vy = 0, vz = 0\<rparr>"
  define noneSkein where "noneSkein = zeroRampSkein\<lparr>oldLocation := None\<rparr>"
  note skeins = lastTravelSkein_def zeroRampSkein_def rampSkein_def noneSkein_def
    HopSkein_init_def
  have a: "\<not> extruderActive lastTravelSkein" "\<not> extruderActive zeroRampSkein"
    "\<not> extruderActive noneSkein"
    by (simp_all add: skeins)
  have w: "firstWordOf ''G1 X10 Y0 Z0'' = ''G1''" "firstWordOf ''G1 X2 Y0 Z0'' = ''G1''"
    "firstWordOf ''G1 X0 Y0 Z0'' = ''G1''"
    by (simp_all add: firstWordOf_def)
  have n: "\<not> travelAhead (drop (lineIndex lastTravelSkein + 1) (lines lastTravelSkein))"
    "\<not> travelAhead (drop (lineIndex zeroRampSkein + 1) (lines zeroRampSkein))"
    "\<not> travelAhead (drop (lineIndex noneSkein + 1) (lines noneSkein))"
    by (simp_all add: skeins isNextTravelFrom_travelAhead [symmetric] firstWordOf_def)
  have j: "\<not> justDeactivated lastTravelSkein" "justDeactivated zeroRampSkein"
    "justDeactivated noneSkein"
    by (simp_all add: skeins)
  have i: "indexOfStartingWithSecond spec_utilities ''F'' (split_on CHR '' '' ''G1 X10 Y0 Z0'')
      = Inr (- 1)"
    "indexOfStartingWithSecond spec_utilities ''F'' (split_on CHR '' '' ''G1 X2 Y0 Z0'')
      = Inr (- 1)"
    "indexOfStartingWithSecond spec_utilities ''F'' (split_on CHR '' '' ''G1 X0 Y0 Z0'')
      = Inr (- 1)"
    by (simp_all add: spec_eval)
  have r: "0 < (- 1 :: int) \<longrightarrow> nat (- 1) < length (split_on CHR '' '' ''G1 X10 Y0 Z0'')"
    "0 < (- 1 :: int) \<longrightarrow> nat (- 1) < length (split_on CHR '' '' ''G1 X2 Y0 Z0'')"
    "0 < (- 1 :: int) \<longrightarrow> nat (- 1) < length (split_on CHR '' '' ''G1 X0 Y0 Z0'')"
    by simp_all
  have l: "getLocationFromSplitLine spec_utilities (oldLocation lastTravelSkein)
        (split_on CHR '' '' ''G1 X10 Y0 Z0'') = Inr T"
    "getLocationFromSplitLine spec_utilities (oldLocation zeroRampSkein)
        (split_on CHR '' '' ''G1 X2 Y0 Z0'') = Inr L"
    "getLocationFromSplitLine spec_utilities (oldLocation zeroRampSkein)
        (split_on CHR '' '' ''G1 X0 Y0 Z0'') = Inr P"
    "getLocationFromSplitLine spec_utilities (oldLocation noneSkein)
        (split_on CHR '' '' ''G1 X2 Y0 Z0'') = Inr L"
    by (simp_all add: T_def L_def P_def skeins spec_eval err_bind_def)
  have p: "oldLocation zeroRampSkein = Some P" "oldLocation noneSkein = None"
    by (simp_all add: P_def skeins)
  have d: "Vec3_distance L P = 2" "Vec3_distance P P = 0"
    by (simp_all add: L_def P_def Vec3_distance_def)
  have d0: "Vec3_distance L P \<noteq> 0"
    by (simp add: d)
  have h: "layerHopDistance zeroRampSkein = 0" "hop_output zeroRampSkein = []"
    "hop_output lastTravelSkein = []"
    by (simp_all add: skeins)
  have f: "zeroRampSkein = withFeedrate zeroRampSkein (split_on CHR '' '' ''G1 X2 Y0 Z0'') (- 1)"
    "zeroRampSkein = withFeedrate zeroRampSkein (split_on CHR '' '' ''G1 X0 Y0 Z0'') (- 1)"
    "lastTravelSkein = withFeedrate lastTravelSkein (split_on CHR '' '' ''G1 X10 Y0 Z0'') (- 1)"
    "noneSkein = withFeedrate noneSkein (split_on CHR '' '' ''G1 X2 Y0 Z0'') (- 1)"
    by (simp_all add: withFeedrate_def)
  have b: "blend P L (min 0.41666666 (layerHopDistance zeroRampSkein / Vec3_distance L P)) = P"
    "blend P L (1 - min 0.41666666 (layerHopDistance zeroRampSkein / Vec3_distance L P)) = L"
    by (simp_all add: h d blend_def P_def L_def Vec3_plus_def Vec3_times_def)
  have g: "getMovementLineWithHop spec_utilities zeroRampSkein P = ''G1 X0.0 Y0.0 Z0.4''"
    "getMovementLineWithHop spec_utilities zeroRampSkein L = ''G1 X2.0 Y0.0 Z0.4''"
    by (simp_all add: getMovementLineWithHop_def getRounded_def skeins P_def L_def
        spec_eval Let_def)
  have plain: "\<exists>s'. HopSkein_parseLine spec_utilities lastTravelSkein ''G1 X10 Y0 Z0'' = Inr s'
      \<and> hop_output s' = ''G1 X10 Y0 Z0'' @ newline"
    using hop_last_travel_not_elevated [OF a(1) w(1) n(1) i(1) r(1) l(1) f(3)] j(1)
    unfolding h by simp
  have ramp: "\<exists>s'. HopSkein_parseLine spec_utilities zeroRampSkein ''G1 X2 Y0 Z0'' = Inr s'
      \<and> hop_output s' = ''G1 X0.0 Y0.0 Z0.4'' @ newline @ ''G1 X2.0 Y0.0 Z0.4'' @ newline
           @ ''G1 X2 Y0 Z0'' @ newline"
  proof -
    have "\<exists>s'. HopSkein_parseLine spec_utilities zeroRampSkein ''G1 X2 Y0 Z0'' = Inr s'
        \<and> hop_output s' = hop_output zeroRampSkein
             @ getMovementLineWithHop spec_utilities zeroRampSkein
                 (blend P L (min 0.41666666 (layerHopDistance zeroRampSkein / Vec3_distance L P)))
             @ newline
             @ getMovementLineWithHop spec_utilities zeroRampSkein
                 (blend P L (1 - min 0.41666666 (layerHopDistance zeroRampSkein / Vec3_distance L P)))
             @ newline
             @ ''G1 X2 Y0 Z0'' @ newline"
      using hop_last_travel_not_elevated [OF a(2) w(2) n(2) i(2) r(2) l(2) f(1), of P]
        j(2) p(1) d0 by blast
    then show ?thesis unfolding b g h(2) by simp
  qed
  have zero: "HopSkein_parseLine spec_utilities zeroRampSkein ''G1 X0 Y0 Z0''
      = Inl ZeroDivisionError"
    using hop_last_travel_not_elevated [OF a(2) w(3) n(2) i(3) r(3) l(3) f(2), of P]
      j(2) p(1) d(2) by blast
  have none: "HopSkein_parseLine spec_utilities noneSkein ''G1 X2 Y0 Z0'' = Inl AttributeError"
    using hop_last_travel_not_elevated [OF a(3) w(2) n(3) i(2) r(2) l(4) f(4)] j(3) p(2)
    by blast
  show ?thesis
    using a(1,2) w n(1,2) j(1,2) p(1) plain ramp zero none
    unfolding P_def noneSkein_def by blast
qed

subsection \<open>C4: the hop of a travel line\<close>

text \<open>
  C4 as stated fails: a travel line read while the extruder is inactive is raised only
  when \<^verbatim>\<open>isNextTravel\<close> finds another \<^verbatim>\<open>G1\<close> before the next \<^verbatim>\<open>M101\<close>. In the text
  \<^verbatim>\<open>(<extrusionStart> )\<close>, \<^verbatim>\<open>G1 X10 Y0 Z0\<close> the travel line is read in the inactive state
  with \<^verbatim>\<open>justDeactivated\<close> false and \<^verbatim>\<open>layerHopHeight\<close> 0.4, and it is written as it was
  read, with \<^verbatim>\<open>Z0\<close>, not as the hopped line \<^verbatim>\<open>G1 X10.0 Y0.0 Z0.4\<close>.
\<close>

theorem hop_single_travel_counterexample:
  "getHopGcode spec_utilities singleTravelText (Some HopPreferences_init)
     = Inr (''(<procedureDone> hop )'' @ newline @ ''(<extrusionStart> )'' @ newline
            @ ''G1 X10 Y0 Z0'' @ newline)
   \<and> getMovementLineWithHop spec_utilities HopSkein_init \<lparr>vx = 10, vy = 0, vz = 0\<rparr>
     = ''G1 X10.0 Y0.0 Z0.4''"
  by (simp add: singleTravelText_def hop_eval spec_eval)

text \<open>
  C4, amended. For every travel line read while the extruder is inactive and followed
  by another \<^verbatim>\<open>G1\<close> before the next \<^verbatim>\<open>M101\<close> (whether \<^verbatim>\<open>justDeactivated\<close> or not), with
  \<open>(x, y, z0)\<close> the location that \<^verbatim>\<open>gcodec.getLocationFromSplitLine\<close> reads from the line
  and the earlier location: the line written is \<^verbatim>\<open>G1 X\<close>\<open>x\<close>\<^verbatim>\<open> Y\<close>\<open>y\<close>\<^verbatim>\<open> Z\<close>\<open>z0 + layerHopHeight\<close>,
  each number as \<^verbatim>\<open>getRounded\<close> writes it, followed by a space and the feedrate word:
  that of the line if it has one, else the stored one if it is not empty. The feedrate
  word, the location and the cleared \<^verbatim>\<open>justDeactivated\<close> are stored. Feedrate words
  persist: whatever line \<^verbatim>\<open>parseLine\<close> reads, in whatever state, the stored word
  afterwards is that of the line if it is a \<^verbatim>\<open>G1\<close> line with one, and the word stored
  before otherwise.
\<close>

theorem hop_travel_elevated:
  assumes "\<not> extruderActive s"
    and "firstWordOf line = ''G1''"
    and "travelAhead (drop (lineIndex s + 1) (lines s))"
    and "indexOfStartingWithSecond u ''F'' (split_on CHR '' '' line) = Inr i"
    and "0 < i \<longrightarrow> nat i < length (split_on CHR '' '' line)"
    and "getLocationFromSplitLine u (oldLocation s) (split_on CHR '' '' line) = Inr loc"
    and "f = (if 0 < i then split_on CHR '' '' line ! nat i else feedrateString s)"
  shows "(\<exists>s'. HopSkein_parseLine u s line = Inr s'
       \<and> hop_output s' = hop_output s
            @ ''G1 X'' @ getRoundedToDecimalPlaces u (decimalPlacesCarried s) (vx loc)
            @ '' Y'' @ getRoundedToDecimalPlaces u (decimalPlacesCarried s) (vy loc)
            @ '' Z'' @ getRoundedToDecimalPlaces u (decimalPlacesCarried s)
                         (vz loc + layerHopHeight s)
            @ (if f \<noteq> [] then '' '' @ f else []) @ newline
       \<and> feedrateString s' = f \<and> oldLocation s' = Some loc
       \<and> \<not> justDeactivated s' \<and> \<not> extruderActive s')
     \<and> (HopSkein_parseLine u anySkein anyLine = Inr t
          \<longrightarrow> feedrateString t = feedrateAfter u anySkein anyLine)"
  using travel_hop [OF assms] parseLine_feedrate [of u anySkein anyLine t] by blast

theorem hop_travel_elevated_witness:
  "\<not> extruderActive travelSkein
   \<and> firstWordOf ''G1 X10 Y0 Z0 F600'' = ''G1''
   \<and> travelAhead (drop (lineIndex travelSkein + 1) (lines travelSkein))
   \<and> indexOfStartingWithSecond spec_utilities ''F'' (split_on CHR '' '' ''G1 X10 Y0 Z0 F600'') = Inr 4
   \<and> getLocationFromSplitLine spec_utilities (oldLocation travelSkein)
        (split_on CHR '' '' ''G1 X10 Y0 Z0 F600'') = Inr \<lparr>vx = 10, vy = 0, vz = 0\<rparr>
   \<and> layerHopHeight travelSkein = 0.4
   \<and> (\<exists>s'. HopSkein_parseLine spec_utilities travelSkein ''G1 X10 Y0 Z0 F600'' = Inr s'
         \<and> hop_output s' = ''G1 X10.0 Y0.0 Z0.4 F600'' @ newline
         \<and> feedrateString s' = ''F600'' \<and> \<not> justDeactivated s')"
proof -
  have a: "\<not> extruderActive travelSkein"
    by (simp add: travelSkein_def HopSkein_init_def)
  have w: "firstWordOf ''G1 X10 Y0 Z0 F600'' = ''G1''"
    by (simp add: firstWordOf_def)
  have n: "travelAhead (drop (lineIndex travelSkein + 1) (lines travelSkein))"
    by (simp add: travelSkein_def HopSkein_init_def isNextTravelFrom_travelAhead [symmetric]
        firstWordOf_def)
  have i: "indexOfStartingWithSecond spec_utilities ''F'' (split_on CHR '' '' ''G1 X10 Y0 Z0 F600'')
      = Inr 4"
    by (simp add: spec_eval)
  have r: "0 < (4::int) \<longrightarrow> nat 4 < length (split_on CHR '' '' ''G1 X10 Y0 Z0 F600'')"
    by simp
  have l: "getLocationFromSplitLine spec_utilities (oldLocation travelSkein)
        (split_on CHR '' '' ''G1 X10 Y0 Z0 F600'') = Inr \<lparr>vx = 10, vy = 0, vz = 0\<rparr>"
    by (simp add: travelSkein_def HopSkein_init_def spec_eval err_bind_def)
  have f: "''F600'' = (if 0 < (4::int) then split_on CHR '' '' ''G1 X10 Y0 Z0 F600'' ! nat 4
      else feedrateString travelSkein)"
    by simp
  have h: "layerHopHeight travelSkein = 0.4"
    by (simp add: travelSkein_def HopSkein_init_def)
  have d: "decimalPlacesCarried travelSkein = 3" "hop_output travelSkein = []"
    by (simp_all add: travelSkein_def HopSkein_init_def)
  obtain s' where s': "HopSkein_parseLine spec_utilities travelSkein ''G1 X10 Y0 Z0 F600'' = Inr s'"
    "hop_output s' = hop_output travelSkein
       @ ''G1 X'' @ getRoundedToDecimalPlaces spec_utilities (decimalPlacesCarried travelSkein)
                      (vx \<lparr>vx = 10, vy = 0, vz = 0\<rparr>)
       @ '' Y'' @ getRoundedToDecimalPlaces spec_utilities (decimalPlacesCarried travelSkein)
                      (vy \<lparr>vx = 10, vy = 0, vz = 0\<rparr>)
       @ '' Z'' @ getRoundedToDecimalPlaces spec_utilities (decimalPlacesCarried travelSkein)
                      (vz \<lparr>vx = 10, vy = 0, vz = 0\<rparr> + layerHopHeight travelSkein)
       @ (if ''F600'' \<noteq> [] then '' '' @ ''F600'' else []) @ newline"
    "feedrateString s' = ''F600''" "\<not> justDeactivated s'"
    using hop_travel_elevated [OF a w n i r l f] by blast
  have "hop_output s' = ''G1 X10.0 Y0.0 Z0.4 F600'' @ newline"
    unfolding s'(2) d h by (simp add: spec_eval)
  then show ?thesis using a w n i l h s'(1,3,4) by blast
qed

subsection \<open>C5: the ramp after the extruder is switched off\<close>

text \<open>
  C5 as stated fails: the two ramp lines are written only when \<^verbatim>\<open>isNextTravel\<close> says
  no. In the text \<^verbatim>\<open>(<extrusionStart> )\<close>, \<^verbatim>\<open>M101\<close>, \<^verbatim>\<open>G1 X0 Y0 Z0\<close>, \<^verbatim>\<open>M103\<close>,
  \<^verbatim>\<open>G1 X2 Y0 Z0 F600\<close>, \<^verbatim>\<open>G1 X4 Y0 Z0\<close> the travel to \<open>(2, 0, 0)\<close> is read with
  \<^verbatim>\<open>justDeactivated\<close> true and another \<^verbatim>\<open>G1\<close> after it: one raised line for the target
  itself is written, and no line at a blend ratio.
\<close>

theorem hop_two_travels_counterexample:
  "getHopGcode spec_utilities twoTravelText (Some HopPreferences_init)
     = Inr (''(<procedureDone> hop )'' @ newline @ ''(<extrusionStart> )'' @ newline
            @ ''M101'' @ newline @ ''G1 X0 Y0 Z0'' @ newline @ ''M103'' @ newline
            @ ''G1 X2.0 Y0.0 Z0.4 F600'' @ newline @ ''G1 X4 Y0 Z0'' @ newline)"
  by (simp add: twoTravelText_def hop_eval spec_eval)

text \<open>
  C5, amended. For every travel line to the target \<open>L\<close> read while the extruder is
  inactive, \<^verbatim>\<open>justDeactivated\<close> is true and no other \<^verbatim>\<open>G1\<close> comes before the next
  \<^verbatim>\<open>M101\<close> or the end of the lines, with the earlier location \<open>P\<close> and a distance
  \<open>|L - P|\<close> that is not 0: the stage writes two raised lines, first for the blend of
  \<open>P\<close> and \<open>L\<close> at \<open>alongRatio = min(0.41666666, layerHopDistance / distance)\<close>, then for
  the blend at \<open>1 - alongRatio\<close>, and after them the line as it was read;
  \<^verbatim>\<open>justDeactivated\<close> is cleared and \<open>L\<close> is stored. With distance 2 and
  \<open>layerHopDistance\<close> 0.5 the two ratios are 0.25 and 0.75. (When another \<^verbatim>\<open>G1\<close> follows,
  the line is hopped as C4, amended, says.)
\<close>

theorem hop_ramp_after_deactivation:
  assumes "\<not> extruderActive s"
    and "firstWordOf line = ''G1''"
    and "justDeactivated s"
    and "\<not> travelAhead (drop (lineIndex s + 1) (lines s))"
    and "indexOfStartingWithSecond u ''F'' (split_on CHR '' '' line) = Inr i"
    and "0 < i \<longrightarrow> nat i < length (split_on CHR '' '' line)"
    and "getLocationFromSplitLine u (oldLocation s) (split_on CHR '' '' line) = Inr L"
    and "oldLocation s = Some P"
    and "Vec3_distance L P \<noteq> 0"
    and "alongRatio = min 0.41666666 (layerHopDistance s / Vec3_distance L P)"
    and "s1 = withFeedrate s (split_on CHR '' '' line) i"
  shows "(\<exists>s'. HopSkein_parseLine u s line = Inr s'
           \<and> hop_output s' = hop_output s
                @ getMovementLineWithHop u s1 (blend P L alongRatio) @ newline
                @ getMovementLineWithHop u s1 (blend P L (1 - alongRatio)) @ newline
                @ line @ newline
           \<and> \<not> justDeactivated s' \<and> oldLocation s' = Some L)
     \<and> (Vec3_distance L P = 2 \<and> layerHopDistance s = 1 / 2
          \<longrightarrow> alongRatio = 1 / 4 \<and> 1 - alongRatio = 3 / 4)"
proof -
  have "Vec3_distance L P = 2 \<and> layerHopDistance s = 1 / 2
      \<longrightarrow> alongRatio = 1 / 4 \<and> 1 - alongRatio = 3 / 4"
    using assms(10) by simp
  then show ?thesis
    using travel_ramp [OF assms] by blast
qed

theorem hop_ramp_after_deactivation_witness:
  "\<not> extruderActive rampSkein
   \<and> firstWordOf ''G1 X2 Y0 Z0'' = ''G1''
   \<and> justDeactivated rampSkein
   \<and> \<not> travelAhead (drop (lineIndex rampSkein + 1) (lines rampSkein))
   \<and> indexOfStartingWithSecond spec_utilities ''F'' (split_on CHR '' '' ''G1 X2 Y0 Z0'') = Inr (- 1)
   \<and> getLocationFromSplitLine spec_utilities (oldLocation rampSkein)
        (split_on CHR '' '' ''G1 X2 Y0 Z0'') = Inr \<lparr>vx = 2, vy = 0, vz = 0\<rparr>
   \<and> oldLocation rampSkein = Some \<lparr>vx = 0, vy = 0, vz = 0\<rparr>
   \<and> Vec3_distance \<lparr>vx = 2, vy = 0, vz = 0\<rparr> \<lparr>vx = 0, vy = 0, vz = 0\<rparr> = 2
   \<and> layerHopDistance rampSkein = 1 / 2
   \<and> min 0.41666666 (layerHopDistance rampSkein
        / Vec3_distance \<lparr>vx = 2, vy = 0, vz = 0\<rparr> \<lparr>vx = 0, vy = 0, vz = 0\<rparr>) = (1 / 4 :: real)
   \<and> (\<exists>s'. HopSkein_parseLine spec_utilities rampSkein ''G1 X2 Y0 Z0'' = Inr s'
         \<and> hop_output s' = ''G1 X0.5 Y0.0 Z0.4'' @ newline @ ''G1 X1.5 Y0.0 Z0.4'' @ newline
              @ ''G1 X2 Y0 Z0'' @ newline
         \<and> \<not> justDeactivated s')"
proof -
  define P :: Vec3 where "P = \<lparr>vx = 0, vy = 0, vz = 0\<rparr>"
  define L :: Vec3 where "L = \<lparr>vx = 2, vy = 0, vz = 0\<rparr>"
  have a: "\<not> extruderActive rampSkein"
    by (simp add: rampSkein_def HopSkein_init_def)
  have w: "firstWordOf ''G1 X2 Y0 Z0'' = ''G1''"
    by (simp add: firstWordOf_def)
  have j: "justDeactivated rampSkein"
    by (simp add: rampSkein_def HopSkein_init_def)
  have n: "\<not> travelAhead (drop (lineIndex rampSkein + 1) (lines rampSkein))"
    by (simp add: rampSkein_def HopSkein_init_def isNextTravelFrom_travelAhead [symmetric]
        firstWordOf_def)
  have i: "indexOfStartingWithSecond spec_utilities ''F'' (split_on CHR '' '' ''G1 X2 Y0 Z0'')
      = Inr (- 1)"
    by (simp add: spec_eval)
  have r: "0 < (- 1 :: int) \<longrightarrow> nat (- 1) < length (split_on CHR '' '' ''G1 X2 Y0 Z0'')"
    by simp
  have l: "getLocationFromSplitLine spec_utilities (oldLocation rampSkein)
        (split_on CHR '' '' ''G1 X2 Y0 Z0'') = Inr L"
    by (simp add: L_def rampSkein_def HopSkein_init_def spec_eval err_bind_def)
  have p: "oldLocation rampSkein = Some P"
    by (simp add: P_def rampSkein_def HopSkein_init_def)
  have d: "Vec3_distance L P = 2"
    by (simp add: L_def P_def Vec3_distance_def)
  have d0: "Vec3_distance L P \<noteq> 0"
    by (simp add: d)
  have h: "layerHopDistance rampSkein = 1 / 2"
    by (simp add: rampSkein_def HopSkein_init_def)
  have q: "(1 / 4 :: real) = min 0.41666666 (layerHopDistance rampSkein / Vec3_distance L P)"
    by (simp add: d h)
  have f: "rampSkein = withFeedrate rampSkein (split_on CHR '' '' ''G1 X2 Y0 Z0'') (- 1)"
    by (simp add: withFeedrate_def)
  have b1: "blend P L (1 / 4) = \<lparr>vx = 1 / 2, vy = 0, vz = 0\<rparr>"
    by (simp add: blend_def P_def L_def Vec3_plus_def Vec3_times_def)
  have b2: "blend P L (1 - 1 / 4) = \<lparr>vx = 3 / 2, vy = 0, vz = 0\<rparr>"
    by (simp add: blend_def P_def L_def Vec3_plus_def Vec3_times_def)
  have g1: "getMovementLineWithHop spec_utilities rampSkein \<lparr>vx = 1 / 2, vy = 0, vz = 0\<rparr>
      = ''G1 X0.5 Y0.0 Z0.4''"
    by (simp add: getMovementLineWithHop_def getRounded_def rampSkein_def HopSkein_init_def
        spec_eval Let_def)
  have g2: "getMovementLineWithHop spec_utilities rampSkein \<lparr>vx = 3 / 2, vy = 0, vz = 0\<rparr>
      = ''G1 X1.5 Y0.0 Z0.4''"
    by (simp add: getMovementLineWithHop_def getRounded_def rampSkein_def HopSkein_init_def
        spec_eval Let_def)
  have o: "hop_output rampSkein = []"
    by (simp add: rampSkein_def HopSkein_init_def)
  obtain s' where s': "HopSkein_parseLine spec_utilities rampSkein ''G1 X2 Y0 Z0'' = Inr s'"
    "hop_output s' = hop_output rampSkein
       @ getMovementLineWithHop spec_utilities rampSkein (blend P L (1 / 4)) @ newline
       @ getMovementLineWithHop spec_utilities rampSkein (blend P L (1 - 1 / 4)) @ newline
       @ ''G1 X2 Y0 Z0'' @ newline"
    "\<not> justDeactivated s'"
    using hop_ramp_after_deactivation [OF a w j n i r l p d0 q f] by blast
  have out: "hop_output s' = ''G1 X0.5 Y0.0 Z0.4'' @ newline @ ''G1 X1.5 Y0.0 Z0.4'' @ newline
      @ ''G1 X2 Y0 Z0'' @ newline"
    unfolding s'(2) o b1 b2 g1 g2 by simp
  show ?thesis
    using a w j n i l p d h q s'(1,3) out unfolding P_def L_def by (intro conjI exI [of _ s']) simp_all
qed

subsection \<open>C6: lines read while the extruder is on\<close>

text \<open>
  C6 as stated fails: \<^verbatim>\<open>parseLine\<close> returns at once on an empty line, in the active state
  as in any other, and writes nothing for it, so the output line is not the input line.
  In the text \<^verbatim>\<open>(<extrusionStart> )\<close>, \<^verbatim>\<open>M101\<close>, an empty line, \<^verbatim>\<open>G1 X1 Y0 Z0\<close> the empty
  line is read while the extruder is active and is missing from the output.
\<close>

theorem hop_active_empty_line_counterexample:
  "extruderActive activeSkein
   \<and> HopSkein_parseLine spec_utilities activeSkein [] = Inr activeSkein
   \<and> getTextLines spec_utilities activeBlankText
       = [''(<extrusionStart> )'', ''M101'', [], ''G1 X1 Y0 Z0'']
   \<and> getHopGcode spec_utilities activeBlankText (Some HopPreferences_init)
     = Inr (''(<procedureDone> hop )'' @ newline @ ''(<extrusionStart> )'' @ newline
            @ ''M101'' @ newline @ ''G1 X1 Y0 Z0'' @ newline)"
  by (simp add: activeBlankText_def activeSkein_def hop_eval spec_eval)

text \<open>
  C6, amended. Every line that is not empty and that the hop stage reads while the
  extruder is active is passed through unchanged, and an empty line is left out.
  \<^verbatim>\<open>getHopLine\<close> returns the line it was given and writes nothing, and whenever
  \<^verbatim>\<open>parseLine\<close> returns it has written exactly the line and a line feed, and nothing for
  an empty line: no coordinate is changed, so the output Z is the input Z. \<^verbatim>\<open>parseLine\<close>
  does return when, for a \<^verbatim>\<open>G1\<close> line, the two \<^verbatim>\<open>gcodec\<close> calls on it return, and, for
  a layer comment, the minimum slope is not 0.
\<close>

theorem hop_active_line_unchanged:
  assumes "extruderActive s"
  shows "(getHopLine u s line = Inr (l, s1) \<longrightarrow> l = line \<and> hop_output s1 = hop_output s)
     \<and> (HopSkein_parseLine u s line = Inr s'
          \<longrightarrow> hop_output s' = hop_output s @ (if line = [] then [] else line @ newline))
     \<and> ((firstWordOf line = ''G1'' \<longrightarrow> moveParses u s line)
          \<and> (firstWordOf line = ''(<layerStart>'' \<or> firstWordOf line = ''(<bridgeLayer>''
                \<longrightarrow> minimumSlope s \<noteq> 0)
          \<longrightarrow> (\<exists>s''. HopSkein_parseLine u s line = Inr s''))"
  using getHopLine_active [OF assms, of u line l s1] active_safe [OF assms, of u line s']
    active_returns [OF assms, of line u]
  by blast

theorem hop_active_line_unchanged_witness:
  "extruderActive activeSkein
   \<and> firstWordOf ''G1 X10 Y0 Z0 F600'' = ''G1''
   \<and> moveParses spec_utilities activeSkein ''G1 X10 Y0 Z0 F600''
   \<and> (\<exists>s'. HopSkein_parseLine spec_utilities activeSkein ''G1 X10 Y0 Z0 F600'' = Inr s'
         \<and> hop_output s' = hop_output activeSkein @ ''G1 X10 Y0 Z0 F600'' @ newline)"
proof -
  have a: "extruderActive activeSkein"
    by (simp add: activeSkein_def)
  have w: "firstWordOf ''G1 X10 Y0 Z0 F600'' = ''G1''"
    by (simp add: firstWordOf_def)
  have m: "moveParses spec_utilities activeSkein ''G1 X10 Y0 Z0 F600''"
    by (simp add: moveParses_def activeSkein_def travelSkein_def HopSkein_init_def spec_eval
        err_bind_def)
  have z: "firstWordOf ''G1 X10 Y0 Z0 F600'' = ''(<layerStart>''
      \<or> firstWordOf ''G1 X10 Y0 Z0 F600'' = ''(<bridgeLayer>'' \<longrightarrow> minimumSlope activeSkein \<noteq> 0"
    by (simp add: w)
  obtain s' where s': "HopSkein_parseLine spec_utilities activeSkein ''G1 X10 Y0 Z0 F600'' = Inr s'"
    using hop_active_line_unchanged [OF a, of spec_utilities "''G1 X10 Y0 Z0 F600''"] m z
    by blast
  have "hop_output s' = hop_output activeSkein @ ''G1 X10 Y0 Z0 F600'' @ newline"
    using hop_active_line_unchanged [OF a, of spec_utilities "''G1 X10 Y0 Z0 F600''" _ _ s'] s'
    by simp
  then show ?thesis using a w m s' by blast
qed

subsection \<open>C7: a number that cannot be read aborts the export stage\<close>

text \<open>
  C7 as stated fails: \<^verbatim>\<open>getLineWithTruncatedNumber\<close> calls \<^verbatim>\<open>float( numberString )\<close> with
  nothing to catch its ValueError, and no function of export.py catches it either. The
  stage run on the line \<^verbatim>\<open>G1 Xabc Y1.0\<close> ends with that error and writes nothing.
\<close>

theorem export_unreadable_number_counterexample:
  "getGcode spec_utilities ''G1 Xabc Y1.0'' (Some ExportPreferences_init) = Inl ValueError"
  by (simp add: export_eval spec_eval)

text \<open>
  C7, amended. On a motion line, when the letters before \<open>c\<close> in the order
  \<^verbatim>\<open>X Y Z I J R\<close> have been handled and the text between the first \<open>c\<close> of the line and
  the next space is not empty and \<^verbatim>\<open>float\<close> raises on it, \<^verbatim>\<open>parseLine\<close> raises the same
  error: the line is not passed through and the stage is aborted. The only token that
  is skipped, with the line left as it is, is an empty one.
\<close>

theorem export_unreadable_number_raises:
  assumes "isMotion line"
    and "''XYZIJR'' = before @ c # after"
    and "truncateLetters u s before line = Inr l"
  shows "(c \<in> set l \<and> numberAfter c l \<noteq> [] \<and> pyFloat u (numberAfter c l) = Inl e
           \<longrightarrow> ExportSkein_parseLine u prefs s line = Inl e)
       \<and> (numberAfter c l = [] \<longrightarrow> getLineWithTruncatedNumber u s c l = Inr l)"
proof -
  have c: "c \<noteq> CHR '' ''" using assms(2) by (rule letters_no_space)
  have "ExportSkein_parseLine u prefs s line =
       err_bind (truncateLetters u s (before @ c # after) line) (\<lambda>l. Inr (ExportSkein_addLine s l))"
    using parseLine_motion [OF assms(1)] assms(2) by simp
  then have p: "ExportSkein_parseLine u prefs s line =
       err_bind (err_bind (getLineWithTruncatedNumber u s c l) (truncateLetters u s after))
         (\<lambda>l. Inr (ExportSkein_addLine s l))"
    using assms(3) by (simp add: truncateLetters_append err_bind_def)
  show ?thesis
    using p step_raises [OF c, of l u e s] step_skips [OF c, of l u s]
    by (auto simp: err_bind_def)
qed

theorem export_unreadable_number_raises_witness:
  "isMotion ''G1 X1.5 Yabc Z''
   \<and> ''XYZIJR'' = ''X'' @ CHR ''Y'' # ''ZIJR''
   \<and> truncateLetters spec_utilities ExportSkein_init ''X'' ''G1 X1.5 Yabc Z'' = Inr ''G1 X1.5 Yabc Z''
   \<and> CHR ''Y'' \<in> set ''G1 X1.5 Yabc Z''
   \<and> numberAfter CHR ''Y'' ''G1 X1.5 Yabc Z'' = ''abc''
   \<and> pyFloat spec_utilities ''abc'' = Inl ValueError
   \<and> ExportSkein_parseLine spec_utilities ExportPreferences_init ExportSkein_init
        ''G1 X1.5 Yabc Z'' = Inl ValueError
   \<and> ''XYZIJR'' = ''XY'' @ CHR ''Z'' # ''IJR''
   \<and> truncateLetters spec_utilities ExportSkein_init ''XY'' ''G1 X1.5 Y2.0 Z'' = Inr ''G1 X1.5 Y2.0 Z''
   \<and> numberAfter CHR ''Z'' ''G1 X1.5 Y2.0 Z'' = []
   \<and> getLineWithTruncatedNumber spec_utilities ExportSkein_init CHR ''Z'' ''G1 X1.5 Y2.0 Z''
        = Inr ''G1 X1.5 Y2.0 Z''"
proof -
  have m: "isMotion ''G1 X1.5 Yabc Z''" "isMotion ''G1 X1.5 Y2.0 Z''"
    by (simp_all add: isMotion_def split_ws_def is_space_def)
  have l: "''XYZIJR'' = ''X'' @ CHR ''Y'' # ''ZIJR''" "''XYZIJR'' = ''XY'' @ CHR ''Z'' # ''IJR''"
    by simp_all
  have t1: "truncateLetters spec_utilities ExportSkein_init ''X'' ''G1 X1.5 Yabc Z''
      = Inr ''G1 X1.5 Yabc Z''"
    by (simp add: export_eval spec_eval)
  have t2: "truncateLetters spec_utilities ExportSkein_init ''XY'' ''G1 X1.5 Y2.0 Z''
      = Inr ''G1 X1.5 Y2.0 Z''"
    by (simp add: export_eval spec_eval)
  have n1: "numberAfter CHR ''Y'' ''G1 X1.5 Yabc Z'' = ''abc''"
    by (simp add: numberAfter_def)
  have n2: "numberAfter CHR ''Z'' ''G1 X1.5 Y2.0 Z'' = []"
    by (simp add: numberAfter_def)
  have f: "pyFloat spec_utilities ''abc'' = Inl ValueError"
    by (simp add: spec_eval)
  have c: "CHR ''Y'' \<in> set ''G1 X1.5 Yabc Z''"
    by simp
  have r1: "ExportSkein_parseLine spec_utilities ExportPreferences_init ExportSkein_init
        ''G1 X1.5 Yabc Z'' = Inl ValueError"
    using export_unreadable_number_raises [OF m(1) l(1) t1, of ValueError ExportPreferences_init]
      c f unfolding n1 by blast
  have r2: "getLineWithTruncatedNumber spec_utilities ExportSkein_init CHR ''Z'' ''G1 X1.5 Y2.0 Z''
        = Inr ''G1 X1.5 Y2.0 Z''"
    using export_unreadable_number_raises [OF m(2) l(2) t2, of ValueError ExportPreferences_init]
      n2 by blast
  show ?thesis
    by (intro conjI) (fact m(1) l t1 c n1 f r1 t2 n2 r2)+
qed

subsection \<open>C8: truncation rounds the numbers after the six letters\<close>

text \<open>
  C8. For a motion line, \<^verbatim>\<open>parseLine\<close> replaces only the text after the letters
  \<^verbatim>\<open>X Y Z I J R\<close> by \<^verbatim>\<open>getRoundedToDecimalPlacesString( decimalPlacesExported, float( ... ) )\<close>.
  With tokens the fields between spaces, which is how \<^verbatim>\<open>getLineWithTruncatedNumber\<close> ends a
  number:

  \<^item> for a motion line of parameter words (each of the six letters in at most one token,
    at its head, followed by nothing or by a number that \<^verbatim>\<open>float\<close> reads, the rounded
    number written without a space or one of the letters), \<^verbatim>\<open>parseLine\<close> returns and the
    line it writes has, token by token in the order of the line read, the token
    \<open>truncatedToken\<close> gives: the letter and the value rounded to \<^verbatim>\<open>decimalPlacesExported\<close>
    places for a token with one of the six letters and a number, the token itself
    otherwise;
  \<^item> for every motion line and every rounding function that writes no space: whenever the
    line is written, the written line has as many tokens as the line read, and every
    token without one of the six letters stands unchanged at its place;
  \<^item> with the rounding of the spec at the default \<open>decimalPlacesExported = 2\<close>, the line
    \<^verbatim>\<open>G1 X1.23456 Y-0.00001 Z0.4 F600\<close> is written as \<^verbatim>\<open>G1 X1.23 Y-0.0 Z0.4 F600\<close>.
\<close>

theorem export_truncation_keeps_tokens:
  "(isMotion line
      \<and> parameterTokens u (decimalPlacesExported s) ''XYZIJR'' (split_on CHR '' '' line)
     \<longrightarrow> ExportSkein_parseLine u prefs s line
           = Inr (s\<lparr>export_output := export_output s
                    @ join_sp (map (truncatedToken u (decimalPlacesExported s) ''XYZIJR'')
                                 (split_on CHR '' '' line))
                    @ newline\<rparr>)
         \<and> split_on CHR '' ''
             (join_sp (map (truncatedToken u (decimalPlacesExported s) ''XYZIJR'')
                         (split_on CHR '' '' line)))
           = map (truncatedToken u (decimalPlacesExported s) ''XYZIJR'') (split_on CHR '' '' line))
   \<and> (isMotion line \<and> spaceFree u \<and> ExportSkein_parseLine u prefs s line = Inr s'
     \<longrightarrow> (\<exists>line'. export_output s' = export_output s @ line' @ newline
            \<and> length (split_on CHR '' '' line') = length (split_on CHR '' '' line)
            \<and> (\<forall>i < length (split_on CHR '' '' line).
                 set (split_on CHR '' '' line ! i) \<inter> set ''XYZIJR'' = {}
                 \<longrightarrow> split_on CHR '' '' line' ! i = split_on CHR '' '' line ! i)))
   \<and> decimalPlacesExported ExportSkein_init = 2
   \<and> ExportSkein_parseLine spec_utilities ExportPreferences_init ExportSkein_init
        ''G1 X1.23456 Y-0.00001 Z0.4 F600''
      = Inr (ExportSkein_init\<lparr>export_output := ''G1 X1.23 Y-0.0 Z0.4 F600'' @ newline\<rparr>)"
proof -
  have "ExportSkein_parseLine spec_utilities ExportPreferences_init ExportSkein_init
        ''G1 X1.23456 Y-0.00001 Z0.4 F600''
      = Inr (ExportSkein_init\<lparr>export_output := ''G1 X1.23 Y-0.0 Z0.4 F600'' @ newline\<rparr>)"
    by (simp add: export_eval spec_eval)
  moreover have "decimalPlacesExported ExportSkein_init = 2"
    by (simp add: ExportSkein_init_def)
  ultimately show ?thesis
    using motion_tokens [of line u prefs s s'] motion_exact [of line u s prefs]
      motion_tokens_exact [of line u s]
    by blast
qed

theorem export_truncation_keeps_tokens_witness:
  "isMotion arcLine
   \<and> decimalPlacesExported oneDigitSkein = 1
   \<and> parameterTokens spec_utilities (decimalPlacesExported oneDigitSkein) ''XYZIJR''
       (split_on CHR '' '' arcLine)
   \<and> spaceFree spec_utilities
   \<and> ExportSkein_parseLine spec_utilities ExportPreferences_init oneDigitSkein arcLine
      = Inr (oneDigitSkein\<lparr>export_output :=
               ''G2 X1.2 Y-0.0 Z0.4 I1.0 J2.0 R0.1 F600'' @ newline\<rparr>)
   \<and> split_on CHR '' '' ''G2 X1.2 Y-0.0 Z0.4 I1.0 J2.0 R0.1 F600''
      = map (truncatedToken spec_utilities 1 ''XYZIJR'') (split_on CHR '' '' arcLine)
   \<and> (\<exists>line'. export_output (oneDigitSkein\<lparr>export_output :=
                   ''G2 X1.2 Y-0.0 Z0.4 I1.0 J2.0 R0.1 F600'' @ newline\<rparr>)
          = export_output oneDigitSkein @ line' @ newline
        \<and> length (split_on CHR '' '' line') = 8
        \<and> split_on CHR '' '' line' ! 0 = ''G2''
        \<and> split_on CHR '' '' line' ! 7 = ''F600'')"
proof -
  define out where "out = ''G2 X1.2 Y-0.0 Z0.4 I1.0 J2.0 R0.1 F600''"
  define s' where "s' = oneDigitSkein\<lparr>export_output := out @ newline\<rparr>"
  have m: "isMotion arcLine"
    by (simp add: arcLine_def isMotion_def split_ws_def is_space_def)
  have d: "decimalPlacesExported oneDigitSkein = 1"
    by (simp add: oneDigitSkein_def ExportSkein_init_def)
  have o: "export_output oneDigitSkein = []"
    by (simp add: oneDigitSkein_def ExportSkein_init_def)
  have t: "split_on CHR '' '' arcLine
      = [''G2'', ''X1.23456'', ''Y-0.00001'', ''Z0.44'', ''I1.004'', ''J2'', ''R0.126'', ''F600'']"
    by (simp add: arcLine_def)
  have f: "\<not> isl (pyFloat spec_utilities ''1.23456'')"
    "\<not> isl (pyFloat spec_utilities ''-0.00001'')"
    "\<not> isl (pyFloat spec_utilities ''0.44'')"
    "\<not> isl (pyFloat spec_utilities ''1.004'')"
    "\<not> isl (pyFloat spec_utilities ''2'')"
    "\<not> isl (pyFloat spec_utilities ''0.126'')"
    by (simp_all add: spec_eval)
  have r: "getRoundedToDecimalPlacesString spec_utilities 1
       (projr (pyFloat spec_utilities ''1.23456'')) = ''1.2''"
    "getRoundedToDecimalPlacesString spec_utilities 1
       (projr (pyFloat spec_utilities ''-0.00001'')) = ''-0.0''"
    "getRoundedToDecimalPlacesString spec_utilities 1
       (projr (pyFloat spec_utilities ''0.44'')) = ''0.4''"
    "getRoundedToDecimalPlacesString spec_utilities 1
       (projr (pyFloat spec_utilities ''1.004'')) = ''1.0''"
    "getRoundedToDecimalPlacesString spec_utilities 1
       (projr (pyFloat spec_utilities ''2'')) = ''2.0''"
    "getRoundedToDecimalPlacesString spec_utilities 1
       (projr (pyFloat spec_utilities ''0.126'')) = ''0.1''"
    by (simp_all add: spec_eval)
  have p: "parameterTokens spec_utilities (decimalPlacesExported oneDigitSkein) ''XYZIJR''
      (split_on CHR '' '' arcLine)"
    unfolding d t by (simp add: parameterTokens_def f r)
  have tm: "map (truncatedToken spec_utilities 1 ''XYZIJR'') (split_on CHR '' '' arcLine)
      = [''G2'', ''X1.2'', ''Y-0.0'', ''Z0.4'', ''I1.0'', ''J2.0'', ''R0.1'', ''F600'']"
    unfolding t by (simp add: truncatedToken_def spec_eval)
  have j: "join_sp [''G2'', ''X1.2'', ''Y-0.0'', ''Z0.4'', ''I1.0'', ''J2.0'', ''R0.1'', ''F600''] = out"
    by (simp add: out_def)
  have so: "split_on CHR '' '' out
      = [''G2'', ''X1.2'', ''Y-0.0'', ''Z0.4'', ''I1.0'', ''J2.0'', ''R0.1'', ''F600'']"
    by (simp add: out_def)
  note inst = export_truncation_keeps_tokens [where line = arcLine and u = spec_utilities
      and s = oneDigitSkein and prefs = ExportPreferences_init and s' = s']
  have e: "ExportSkein_parseLine spec_utilities ExportPreferences_init oneDigitSkein arcLine
      = Inr s'"
    using inst m p unfolding d tm j o s'_def by simp
  have "\<exists>line'. export_output s' = export_output oneDigitSkein @ line' @ newline
        \<and> length (split_on CHR '' '' line') = length (split_on CHR '' '' arcLine)
        \<and> (\<forall>i < length (split_on CHR '' '' arcLine).
             set (split_on CHR '' '' arcLine ! i) \<inter> set ''XYZIJR'' = {}
             \<longrightarrow> split_on CHR '' '' line' ! i = split_on CHR '' '' arcLine ! i)"
    using inst m e spaceFree_spec by blast
  then obtain line' where l:
    "export_output s' = export_output oneDigitSkein @ line' @ newline"
    "length (split_on CHR '' '' line')
       = length [''G2'', ''X1.23456'', ''Y-0.00001'', ''Z0.44'', ''I1.004'', ''J2'', ''R0.126'', ''F600'']"
    "\<forall>i < length [''G2'', ''X1.23456'', ''Y-0.00001'', ''Z0.44'', ''I1.004'', ''J2'', ''R0.126'', ''F600''].
       set ([''G2'', ''X1.23456'', ''Y-0.00001'', ''Z0.44'', ''I1.004'', ''J2'', ''R0.126'', ''F600''] ! i)
         \<inter> set ''XYZIJR'' = {}
       \<longrightarrow> split_on CHR '' '' line' ! i
           = [''G2'', ''X1.23456'', ''Y-0.00001'', ''Z0.44'', ''I1.004'', ''J2'', ''R0.126'', ''F600''] ! i"
    unfolding t by blast
  have l0: "split_on CHR '' '' line' ! 0 = ''G2''"
    using l(3) [rule_format, of 0] by simp
  have l7: "split_on CHR '' '' line' ! 7 = ''F600''"
    using l(3) [rule_format, of 7] by simp
  have l8: "length (split_on CHR '' '' line') = 8"
    using l(2) by simp
  have ex: "\<exists>line'. export_output s' = export_output oneDigitSkein @ line' @ newline
        \<and> length (split_on CHR '' '' line') = 8
        \<and> split_on CHR '' '' line' ! 0 = ''G2''
        \<and> split_on CHR '' '' line' ! 7 = ''F600''"
    using l(1) l8 l0 l7 by blast
  have sm: "split_on CHR '' '' out
      = map (truncatedToken spec_utilities 1 ''XYZIJR'') (split_on CHR '' '' arcLine)"
    unfolding tm so ..
  show ?thesis
    using m d p spaceFree_spec e sm ex unfolding s'_def out_def by blast
qed

subsection \<open>C9: a text without the extrusion start\<close>

text \<open>
  C9 as stated fails when the last line is empty, as it is for a text that ends in a
  line feed: the initialization pass writes it once and \<^verbatim>\<open>parseLine\<close>, which reads it
  again, returns at once on an empty line. The text \<^verbatim>\<open>M103\<close> with a line feed has the
  lines \<^verbatim>\<open>M103\<close> and the empty line; the output is \<^verbatim>\<open>M103\<close>, line feed, line feed, which
  is not the two lines followed by the last line once more.
\<close>

theorem hop_empty_last_line_counterexample:
  "getTextLines spec_utilities noStartText = [''M103'', []]
   \<and> getHopGcode spec_utilities noStartText (Some HopPreferences_init)
     = Inr (''M103'' @ newline @ newline)
   \<and> ''M103'' @ newline @ newline
     \<noteq> concat (map (\<lambda>l. l @ newline) ([''M103'', []] @ [last [''M103'', []]]))"
  by (simp add: noStartText_def hop_eval spec_eval)

text \<open>
  C9, amended. For every text, not empty and without the marker of \<^verbatim>\<open>hop\<close>, in which no
  line has \<^verbatim>\<open>(<extrusionStart>\<close> as its first word (and whose metadata comments carry
  numbers that can be read), with \<^verbatim>\<open>Activate Hop\<close> on: the initialization pass writes
  every line, the main pass then reads the last line again, and the output is every line
  followed by a line feed and then the last line and a line feed once more, unless the
  last line is empty, which is written only once; the marker \<^verbatim>\<open>(<procedureDone> hop )\<close> is
  not written. (For a last line that is a \<^verbatim>\<open>G1\<close>, \<^verbatim>\<open>gcodec\<close>'s calls on it must return;
  for a layer comment the minimum slope must not be 0.)
\<close>

theorem hop_without_extrusionStart:
  assumes "T \<noteq> []"
    and "isProcedureDone u T ''hop'' = Inr False"
    and "activateHop prefs"
    and "\<forall>line \<in> set (getTextLines u T).
           firstWordOf line \<noteq> ''(<extrusionStart>'' \<and> initLineParses u line"
    and "getTextLines u T \<noteq> [] \<and> firstWordOf (last (getTextLines u T)) = ''G1''
           \<longrightarrow> moveParses u HopSkein_init (last (getTextLines u T))"
    and "getTextLines u T \<noteq> [] \<and> (firstWordOf (last (getTextLines u T)) = ''(<layerStart>''
             \<or> firstWordOf (last (getTextLines u T)) = ''(<bridgeLayer>'')
           \<longrightarrow> tanRadians u (minimumHopAngle prefs) \<noteq> 0"
  shows "getHopGcode u T (Some prefs) =
     Inr (concat (map (\<lambda>l. l @ newline) (getTextLines u T))
          @ (if getTextLines u T = [] \<or> last (getTextLines u T) = [] then []
             else last (getTextLines u T) @ newline))"
  using assms by (rule no_start_output)

theorem hop_without_extrusionStart_witness:
  "noStartMoveText \<noteq> []
   \<and> isProcedureDone spec_utilities noStartMoveText ''hop'' = Inr False
   \<and> activateHop HopPreferences_init
   \<and> getTextLines spec_utilities noStartMoveText = [''M101'', ''G1 X1 Y0 Z0'']
   \<and> firstWordOf ''M101'' \<noteq> ''(<extrusionStart>'' \<and> initLineParses spec_utilities ''M101''
   \<and> firstWordOf ''G1 X1 Y0 Z0'' \<noteq> ''(<extrusionStart>''
   \<and> initLineParses spec_utilities ''G1 X1 Y0 Z0''
   \<and> moveParses spec_utilities HopSkein_init ''G1 X1 Y0 Z0''
   \<and> getHopGcode spec_utilities noStartMoveText (Some HopPreferences_init)
     = Inr (''M101'' @ newline @ ''G1 X1 Y0 Z0'' @ newline @ ''G1 X1 Y0 Z0'' @ newline)"
proof -
  have t: "noStartMoveText \<noteq> []"
    by (simp add: noStartMoveText_def)
  have p: "isProcedureDone spec_utilities noStartMoveText ''hop'' = Inr False"
    by (simp add: noStartMoveText_def spec_eval newline_def)
  have a: "activateHop HopPreferences_init"
    by (simp add: HopPreferences_init_def)
  have g: "getTextLines spec_utilities noStartMoveText = [''M101'', ''G1 X1 Y0 Z0'']"
    by (simp add: noStartMoveText_def spec_eval newline_def)
  have f: "firstWordOf ''M101'' = ''M101''" "firstWordOf ''G1 X1 Y0 Z0'' = ''G1''"
    by (simp_all add: firstWordOf_def)
  have i: "initLineParses spec_utilities ''M101''" "initLineParses spec_utilities ''G1 X1 Y0 Z0''"
    by (simp_all add: initLineParses_def f)
  have m: "moveParses spec_utilities HopSkein_init ''G1 X1 Y0 Z0''"
    by (simp add: moveParses_def HopSkein_init_def spec_eval err_bind_def)
  have h4: "\<forall>line \<in> set (getTextLines spec_utilities noStartMoveText).
      firstWordOf line \<noteq> ''(<extrusionStart>'' \<and> initLineParses spec_utilities line"
    unfolding g using f i by simp
  have h5: "getTextLines spec_utilities noStartMoveText \<noteq> []
      \<and> firstWordOf (last (getTextLines spec_utilities noStartMoveText)) = ''G1''
      \<longrightarrow> moveParses spec_utilities HopSkein_init (last (getTextLines spec_utilities noStartMoveText))"
    unfolding g using m by simp
  have h6: "getTextLines spec_utilities noStartMoveText \<noteq> []
      \<and> (firstWordOf (last (getTextLines spec_utilities noStartMoveText)) = ''(<layerStart>''
         \<or> firstWordOf (last (getTextLines spec_utilities noStartMoveText)) = ''(<bridgeLayer>'')
      \<longrightarrow> tanRadians spec_utilities (minimumHopAngle HopPreferences_init) \<noteq> 0"
    unfolding g using f by simp
  have "getHopGcode spec_utilities noStartMoveText (Some HopPreferences_init)
      = Inr (''M101'' @ newline @ ''G1 X1 Y0 Z0'' @ newline @ ''G1 X1 Y0 Z0'' @ newline)"
    using hop_without_extrusionStart [OF t p a h4 h5 h6] unfolding g by simp
  then show ?thesis
    using t p a g f i m by simp
qed

subsection \<open>C10: blank lines\<close>

text \<open>
  C10 as stated fails for the hop stage: \<^verbatim>\<open>parseInitialization\<close> copies every line before
  \<^verbatim>\<open>(<extrusionStart>\<close> with \<^verbatim>\<open>addLine\<close>, an empty one too. In the text whose lines are
  an empty line, \<^verbatim>\<open>(<extrusionStart> )\<close>, an empty line and \<^verbatim>\<open>M103\<close>, the first empty
  line is in the output and only the second is left out.
\<close>

theorem hop_blank_line_kept_counterexample:
  "getTextLines spec_utilities blankLinesText = [[], ''(<extrusionStart> )'', [], ''M103'']
   \<and> getHopGcode spec_utilities blankLinesText (Some HopPreferences_init)
     = Inr (newline @ ''(<procedureDone> hop )'' @ newline @ ''(<extrusionStart> )'' @ newline
            @ ''M103'' @ newline)"
  by (simp add: blankLinesText_def hop_eval spec_eval)

text \<open>
  C10, amended. The export stage leaves out every line that is empty or has only
  whitespace, whatever \<^verbatim>\<open>deleteComments\<close> is. The hop stage leaves out every empty line
  that its main pass reads (\<^verbatim>\<open>parseLine\<close>); its initialization pass writes an empty line
  that stands before \<^verbatim>\<open>(<extrusionStart>\<close> as an empty line of the output.
\<close>

theorem blank_lines:
  "(list_all is_space line \<longrightarrow> ExportSkein_parseLine u prefs s line = Inr s)
   \<and> HopSkein_parseLine u skein [] = Inr skein
   \<and> parseInitializationLine u hopPreferences skein []
      = Inr (False, skein\<lparr>hop_output := hop_output skein @ newline\<rparr>)"
  by (simp add: export_blank parseLine_afterMove parseInitializationLine_def
      HopSkein_addLine_def Let_def)

theorem blank_lines_witness:
  "list_all is_space [CHR '' '', CHR 0x09, CHR '' '']
   \<and> ExportSkein_parseLine spec_utilities keepComments ExportSkein_init
        [CHR '' '', CHR 0x09, CHR '' ''] = Inr ExportSkein_init
   \<and> HopSkein_parseLine spec_utilities HopSkein_init [] = Inr HopSkein_init
   \<and> parseInitializationLine spec_utilities HopPreferences_init HopSkein_init []
      = Inr (False, HopSkein_init\<lparr>hop_output := hop_output HopSkein_init @ newline\<rparr>)"
proof -
  have a: "list_all is_space [CHR '' '', CHR 0x09, CHR '' '']"
    by (simp add: is_space_def)
  show ?thesis
    using a blank_lines [of "[CHR '' '', CHR 0x09, CHR '' '']" spec_utilities keepComments
        ExportSkein_init HopSkein_init HopPreferences_init]
    by simp
qed

end
